(* ===== verification/Prelude.thy ===== *)
theory Prelude
  imports Main "HOL-Library.Word" "HOL-Library.AList"
begin

unbundle bit_operations_syntax

text \<open>
  Shared vocabulary of the development: the machine types the C++ code uses, the
  containers of the standard library it keeps its state in, decimal printing, and the
  generic lemmas and lemma collections the component theories rely on.

  \<^item> \<open>std::unordered_map\<close> is an association list with distinct keys. The order of the
    list is the iteration order, which the C++ standard leaves open; the theorems
    quantify over all lists, and the step relations of the servers may reorder a
    container between two handlers.
  \<^item> \<open>std::unordered_set\<close> is a list without repetitions, in the same spirit.
  \<^item> \<open>std::string\<close> is a \<open>string\<close> (its bytes), \<open>std::vector<uint8_t>\<close> a list of
    8-bit words, \<open>uint32_t\<close> a 32-bit word.
\<close>

type_synonym byte = "8 word"
type_synonym u16 = "16 word"
type_synonym u32 = "32 word"
type_synonym ('k, 'v) umap = "('k \<times> 'v) list"
type_synonym 'a uset = "'a list"
type_synonym exn = string

named_theorems frame_simps \<open>what an operation leaves unchanged\<close>

section \<open>Unordered maps and sets\<close>

abbreviation umap_find :: "('k, 'v) umap \<Rightarrow> 'k \<Rightarrow> 'v option" where
  "umap_find m k \<equiv> map_of m k"

definition umap_put :: "'k \<Rightarrow> 'v \<Rightarrow> ('k, 'v) umap \<Rightarrow> ('k, 'v) umap" where
  "umap_put k v m = AList.update k v m"

definition umap_erase :: "'k \<Rightarrow> ('k, 'v) umap \<Rightarrow> ('k, 'v) umap" where
  "umap_erase k m = AList.delete k m"

definition umap_contains :: "('k, 'v) umap \<Rightarrow> 'k \<Rightarrow> bool" where
  "umap_contains m k = (map_of m k \<noteq> None)"

definition umap_ok :: "('k, 'v) umap \<Rightarrow> bool" where
  "umap_ok m = distinct (map fst m)"

definition uset_insert :: "'a \<Rightarrow> 'a uset \<Rightarrow> 'a uset" where
  "uset_insert x xs = (if x \<in> set xs then xs else xs @ [x])"

definition uset_erase :: "'a \<Rightarrow> 'a uset \<Rightarrow> 'a uset" where
  "uset_erase x xs = removeAll x xs"

lemma find_put [simp]:
  "umap_find (umap_put k v m) k' = (if k' = k then Some v else umap_find m k')"
  by (simp add: umap_put_def update_conv)

lemma find_erase [simp]:
  "umap_find (umap_erase k m) k' = (if k' = k then None else umap_find m k')"
  by (simp add: umap_erase_def delete_conv)

lemma umap_ok_put [simp]: "umap_ok m \<Longrightarrow> umap_ok (umap_put k v m)"
  by (simp add: umap_ok_def umap_put_def distinct_update)

lemma umap_ok_erase [simp]: "umap_ok m \<Longrightarrow> umap_ok (umap_erase k m)"
  by (simp add: umap_ok_def umap_erase_def distinct_delete)

lemma umap_ok_Nil [simp]: "umap_ok []"
  by (simp add: umap_ok_def)

lemma umap_contains_iff: "umap_contains m k \<longleftrightarrow> k \<in> fst ` set m"
  by (simp add: umap_contains_def dom_map_of_conv_image_fst [symmetric] domIff)

lemma set_umap_iff: "umap_ok m \<Longrightarrow> (k, v) \<in> set m \<longleftrightarrow> umap_find m k = Some v"
  by (simp add: umap_ok_def)

lemma set_uset_insert [simp]: "set (uset_insert x xs) = insert x (set xs)"
  by (auto simp: uset_insert_def)

lemma set_uset_erase [simp]: "set (uset_erase x xs) = set xs - {x}"
  by (simp add: uset_erase_def)

lemma distinct_uset_insert [simp]: "distinct xs \<Longrightarrow> distinct (uset_insert x xs)"
  by (simp add: uset_insert_def)

lemma distinct_uset_erase [simp]: "distinct xs \<Longrightarrow> distinct (uset_erase x xs)"
  by (simp add: uset_erase_def distinct_removeAll)

text \<open>Sizes: an update at a new key adds one entry, at an old key none.\<close>

lemma length_put:
  "length (umap_put k v m) = (if umap_contains m k then length m else Suc (length m))"
  by (induction m) (auto simp: umap_put_def umap_contains_def)

lemma length_erase_le: "length (umap_erase k m) \<le> length m"
  by (simp add: umap_erase_def length_delete_le)

text \<open>The values of a map, in iteration order, and counting those with a property.\<close>

definition umap_count :: "('v \<Rightarrow> bool) \<Rightarrow> ('k, 'v) umap \<Rightarrow> nat" where
  "umap_count P m = length (filter (P \<circ> snd) m)"

lemma umap_count_erase_le: "umap_count P (umap_erase k m) \<le> umap_count P m"
  unfolding umap_count_def umap_erase_def
  by (induction m) (auto split: if_splits)

lemma umap_count_put_new:
  "umap_find m k = None \<Longrightarrow>
   umap_count P (umap_put k v m) = umap_count P m + (if P v then 1 else 0)"
  unfolding umap_count_def umap_put_def
  by (induction m) (auto split: if_splits)

lemma umap_count_put_old:
  "umap_find m k = Some w \<Longrightarrow>
   umap_count P (umap_put k v m) + (if P w then 1 else 0) =
   umap_count P m + (if P v then 1 else 0)"
  unfolding umap_count_def umap_put_def
  by (induction m) (auto split: if_splits)

lemma umap_count_zero_iff:
  "umap_count P m = 0 \<longleftrightarrow> (\<forall>(k, v) \<in> set m. \<not> P v)"
  by (auto simp: umap_count_def filter_empty_conv)

section \<open>Decimal numbers\<close>

text \<open>\<open>std::to_string\<close> on an unsigned integer.\<close>

definition digit_char :: "nat \<Rightarrow> char" where
  "digit_char d = char_of (48 + d)"

fun to_string :: "nat \<Rightarrow> string" where
  "to_string n = (if n < 10 then [digit_char n] else to_string (n div 10) @ [digit_char (n mod 10)])"

declare to_string.simps [simp del]

text \<open>Reading digits back.\<close>

definition is_digit :: "char \<Rightarrow> bool" where
  "is_digit c \<longleftrightarrow> 48 \<le> (of_char c :: nat) \<and> (of_char c :: nat) \<le> 57"

definition digits_value :: "string \<Rightarrow> int" where
  "digits_value = foldl (\<lambda>v c. 10 * v + (of_char c - 48)) 0"

lemma digit_char_code:
  assumes "d < 10"
  shows "(of_char (digit_char d) :: nat) = 48 + d" and "(of_char (digit_char d) :: int) = 48 + int d"
proof -
  show nat: "(of_char (digit_char d) :: nat) = 48 + d"
    using assms by (simp add: digit_char_def)
  show "(of_char (digit_char d) :: int) = 48 + int d"
    using nat by (metis of_nat_add of_nat_numeral of_nat_of_char)
qed

lemma to_string_nonempty: "to_string n \<noteq> []"
  by (subst to_string.simps) simp

lemma to_string_digits: "\<forall>c \<in> set (to_string n). is_digit c"
proof (induction n rule: to_string.induct)
  case (1 n)
  then show ?case by (subst to_string.simps) (auto simp: is_digit_def digit_char_code)
qed

lemma digits_value_to_string: "digits_value (to_string n) = int n"
proof (induction n rule: to_string.induct)
  case (1 n)
  have last: "digits_value (ds @ [c]) = 10 * digits_value ds + (of_char c - 48)" for ds c
    by (simp add: digits_value_def)
  have single: "digits_value [c] = of_char c - 48" for c by (simp add: digits_value_def)
  have "10 * int (n div 10) + int (n mod 10) = int n" by presburger
  with 1 show ?case by (subst to_string.simps) (simp add: last digit_char_code single)
qed

section \<open>Folds over handlers\<close>

text \<open>A loop over a container that applies one state-changing call per element.\<close>

lemma fold_keeps:
  assumes "\<And>x s. x \<in> set xs \<Longrightarrow> P s \<Longrightarrow> P (f x s)" and "P s"
  shows "P (fold f xs s)"
  using assms by (induction xs arbitrary: s) auto

lemma fold_frame:
  assumes "\<And>x s. g (f x s) = g s"
  shows "g (fold f xs s) = g s"
  using assms by (induction xs arbitrary: s) auto

end
