(* ===== verification/RoomProto.thy ===== *)
theory RoomProto
  imports Prelude
begin

text \<open>
  The messages of \<open>src/proto/room.proto\<close>. An \<open>Envelope\<close> is the value of its \<open>oneof\<close>, with
  \<open>PayloadNotSet\<close> for an envelope that carries none. A message is its fields in the order
  of the file; a field the code never sets has the proto3 default.
\<close>

datatype room_state = ROOM_WAITING | ROOM_IN_GAME

datatype player_info = PlayerInfo string string bool bool

datatype room_info = RoomInfo string string string u32 room_state "player_info list"

datatype room_summary = RoomSummary string string string u32 u32 room_state

datatype reject_reason = UNKNOWN | ROOM_FULL | ROOM_NOT_FOUND | NOT_HOST | NOT_ALL_READY
  | RATE_LIMITED | DUPLICATE_PLAYER | ALREADY_IN_ROOM | INVALID_REQUEST | ROOM_CLOSED
  | GAME_SERVER_BUSY

datatype envelope =
    PayloadNotSet
  | CreateRoom string string string u32
  | JoinRoom string string string
  | LeaveRoom
  | ToggleReady
  | StartGame
  | RoomListRequest u32 u32
  | RoomHeartbeat
  | CreateRoomResponse bool room_info string
  | JoinRoomResponse bool room_info string
  | RoomListResponse "room_summary list" u32
  | RoomUpdate room_info
  | GameStart string string string u32
  | Reject reject_reason string
  | TokenValidateRequest string
  | TokenValidateResponse bool string string
  | SlotReleased string string
  | GameServerHeartbeat string u32

end
