(* ===== verification/Room.thy ===== *)
theory Room
  imports RoomProto
begin

text \<open>
  \<open>Room\<close> of \<open>src/src/room/room/Room.h\<close> and \<open>Room.cpp\<close>: the state of one room and the
  operations on its player list. A member function that mutates the room returns the new
  room, paired with its result if it has one.
\<close>

record player_data =
  pd_player_id :: string
  pd_player_name :: string
  pd_is_ready :: bool
  pd_is_host :: bool

record room =
  r_room_id :: string
  r_room_name :: string
  r_host_id :: string
  r_host_name :: string
  r_max_players :: u32
  r_session_id :: string
  r_state :: room_state
  r_players :: "player_data list"

definition Room_new :: "string \<Rightarrow> string \<Rightarrow> string \<Rightarrow> string \<Rightarrow> u32 \<Rightarrow> room" where
  "Room_new room_id room_name host_id host_name max_players =
     \<lparr>r_room_id = room_id, r_room_name = room_name, r_host_id = host_id,
      r_host_name = host_name, r_max_players = max_players, r_session_id = [],
      r_state = ROOM_WAITING,
      r_players = [\<lparr>pd_player_id = host_id, pd_player_name = host_name,
                    pd_is_ready = False, pd_is_host = True\<rparr>]\<rparr>"

definition isFull :: "room \<Rightarrow> bool" where
  "isFull r \<longleftrightarrow> length (r_players r) \<ge> unat (r_max_players r)"

definition isHost :: "string \<Rightarrow> room \<Rightarrow> bool" where
  "isHost player_id r \<longleftrightarrow> player_id = r_host_id r"

definition hasPlayer :: "string \<Rightarrow> room \<Rightarrow> bool" where
  "hasPlayer player_id r = list_ex (\<lambda>player. pd_player_id player = player_id) (r_players r)"

definition playerCount :: "room \<Rightarrow> u32" where
  "playerCount r = of_nat (length (r_players r))"

definition playerIds :: "room \<Rightarrow> string list" where
  "playerIds r = map pd_player_id (r_players r)"

fun all_ready :: "player_data list \<Rightarrow> bool" where
  "all_ready [] = True"
| "all_ready (player # players) =
     (if \<not> pd_is_host player \<and> \<not> pd_is_ready player then False else all_ready players)"

definition canStart :: "room \<Rightarrow> bool" where
  "canStart r = all_ready (r_players r)"

definition addPlayer :: "string \<Rightarrow> string \<Rightarrow> room \<Rightarrow> bool \<times> room" where
  "addPlayer player_id player_name r =
     (if isFull r \<or> hasPlayer player_id r \<or> r_state r \<noteq> ROOM_WAITING then (False, r)
      else (True, r\<lparr>r_players := r_players r @
              [\<lparr>pd_player_id = player_id, pd_player_name = player_name,
                pd_is_ready = False, pd_is_host = False\<rparr>]\<rparr>))"

text \<open>\<open>std::find_if\<close> followed by \<open>erase(it)\<close>, or by an update through the iterator: the
  first player with the identifier.\<close>

fun erase_player :: "string \<Rightarrow> player_data list \<Rightarrow> player_data list" where
  "erase_player p [] = []"
| "erase_player p (x # xs) = (if pd_player_id x = p then xs else x # erase_player p xs)"

fun flip_ready :: "string \<Rightarrow> player_data list \<Rightarrow> player_data list" where
  "flip_ready p [] = []"
| "flip_ready p (x # xs) =
     (if pd_player_id x = p then x\<lparr>pd_is_ready := \<not> pd_is_ready x\<rparr> # xs else x # flip_ready p xs)"

definition removePlayer :: "string \<Rightarrow> room \<Rightarrow> bool \<times> room" where
  "removePlayer player_id r =
     (if hasPlayer player_id r then (True, r\<lparr>r_players := erase_player player_id (r_players r)\<rparr>)
      else (False, r))"

definition toggleReady :: "string \<Rightarrow> room \<Rightarrow> room" where
  "toggleReady player_id r =
     (if player_id = r_host_id r then r
      else r\<lparr>r_players := flip_ready player_id (r_players r)\<rparr>)"

definition setState :: "room_state \<Rightarrow> room \<Rightarrow> room" where
  "setState st r = r\<lparr>r_state := st\<rparr>"

definition setSessionId :: "string \<Rightarrow> room \<Rightarrow> room" where
  "setSessionId session_id r = r\<lparr>r_session_id := session_id\<rparr>"

definition toRoomInfo :: "room \<Rightarrow> room_info" where
  "toRoomInfo r = RoomInfo (r_room_id r) (r_room_name r) (r_host_id r) (r_max_players r) (r_state r)
     (map (\<lambda>player. PlayerInfo (pd_player_id player) (pd_player_name player)
        (pd_is_ready player) (pd_is_host player)) (r_players r))"

definition toRoomSummary :: "room \<Rightarrow> room_summary" where
  "toRoomSummary r = RoomSummary (r_room_id r) (r_room_name r) (r_host_name r) (playerCount r)
     (r_max_players r) (r_state r)"

section \<open>Lemmas\<close>

lemma hasPlayer_iff [simp]: "hasPlayer p r \<longleftrightarrow> p \<in> set (playerIds r)"
  by (auto simp: hasPlayer_def playerIds_def list_ex_iff)

lemma erase_player_ids: "map pd_player_id (erase_player p xs) = remove1 p (map pd_player_id xs)"
  by (induction xs) auto

lemma flip_ready_ids [simp]: "map pd_player_id (flip_ready p xs) = map pd_player_id xs"
  by (induction xs) auto

lemma flip_ready_flip_ready [simp]: "flip_ready p (flip_ready p xs) = xs"
  by (induction xs) auto

lemma erase_player_absent: "p \<notin> pd_player_id ` set xs \<Longrightarrow> erase_player p xs = xs"
  by (induction xs) auto

lemma erase_player_append:
  "p \<notin> pd_player_id ` set xs \<Longrightarrow> pd_player_id x = p \<Longrightarrow> erase_player p (xs @ [x]) = xs"
  by (induction xs) auto

lemma set_erase_player: "set (erase_player p xs) \<subseteq> set xs"
  by (induction xs) auto

lemma flip_ready_hosts: "map pd_is_host (flip_ready p xs) = map pd_is_host xs"
  by (induction xs) auto

lemma in_flip_ready:
  "x \<in> set (flip_ready p xs) \<Longrightarrow>
   \<exists>y \<in> set xs. pd_player_id y = pd_player_id x \<and> pd_is_host y = pd_is_host x"
  by (induction xs) (auto split: if_splits)

lemma all_ready_iff: "all_ready xs \<longleftrightarrow> (\<forall>x \<in> set xs. pd_is_host x \<or> pd_is_ready x)"
  by (induction xs) auto

lemma playerIds_new [simp]: "playerIds (Room_new i n h hn m) = [h]"
  by (simp add: Room_new_def playerIds_def)

lemma playerIds_removePlayer [simp]:
  "playerIds (snd (removePlayer p r)) = remove1 p (playerIds r)"
  by (auto simp: removePlayer_def playerIds_def erase_player_ids remove1_idem)

lemma playerIds_toggleReady [simp]: "playerIds (toggleReady p r) = playerIds r"
  by (simp add: toggleReady_def playerIds_def)

lemma playerIds_setState [simp]: "playerIds (setState st r) = playerIds r"
  by (simp add: setState_def playerIds_def)

lemma playerIds_setSessionId [simp]: "playerIds (setSessionId s r) = playerIds r"
  by (simp add: setSessionId_def playerIds_def)

lemma playerIds_addPlayer:
  "playerIds (snd (addPlayer p n r)) =
     (if fst (addPlayer p n r) then playerIds r @ [p] else playerIds r)"
  by (simp add: addPlayer_def playerIds_def)

lemma addPlayer_result: "fst (addPlayer p n r) \<longleftrightarrow>
    \<not> isFull r \<and> p \<notin> set (playerIds r) \<and> r_state r = ROOM_WAITING"
  by (auto simp: addPlayer_def)

lemma room_fields [simp]:
  "r_room_id (snd (addPlayer p n r)) = r_room_id r"
  "r_room_id (snd (removePlayer p r)) = r_room_id r"
  "r_room_id (toggleReady p r) = r_room_id r"
  "r_host_id (snd (addPlayer p n r)) = r_host_id r"
  "r_host_id (snd (removePlayer p r)) = r_host_id r"
  "r_host_id (toggleReady p r) = r_host_id r"
  "r_state (snd (addPlayer p n r)) = r_state r"
  "r_state (snd (removePlayer p r)) = r_state r"
  "r_state (toggleReady p r) = r_state r"
  "r_session_id (snd (addPlayer p n r)) = r_session_id r"
  "r_session_id (snd (removePlayer p r)) = r_session_id r"
  "r_session_id (toggleReady p r) = r_session_id r"
  "r_max_players (snd (addPlayer p n r)) = r_max_players r"
  "r_max_players (snd (removePlayer p r)) = r_max_players r"
  "r_max_players (toggleReady p r) = r_max_players r"
  by (simp_all add: addPlayer_def removePlayer_def toggleReady_def)

section \<open>Well-formed rooms\<close>

text \<open>
  What every operation keeps: no player twice, never more players than the room admits,
  only the creator carries the host flag, and a session identifier exactly once the game
  has begun.
\<close>

definition room_wf :: "room \<Rightarrow> bool" where
  "room_wf r \<longleftrightarrow> distinct (playerIds r) \<and> length (r_players r) \<le> unat (r_max_players r) \<and>
     (\<forall>x \<in> set (r_players r). pd_is_host x \<longrightarrow> pd_player_id x = r_host_id r) \<and>
     (r_state r = ROOM_IN_GAME \<longleftrightarrow> r_session_id r \<noteq> [])"

lemma length_playerIds: "length (playerIds r) = length (r_players r)"
  by (simp add: playerIds_def)

lemma Room_new_wf: "1 \<le> max_players \<Longrightarrow> room_wf (Room_new i n h hn max_players)"
proof -
  assume "1 \<le> max_players"
  then have "1 \<le> unat max_players" by (simp add: word_le_nat_alt)
  then show ?thesis by (simp add: room_wf_def Room_new_def playerIds_def)
qed

lemma addPlayer_wf: "room_wf r \<Longrightarrow> room_wf (snd (addPlayer p n r))"
  by (auto simp: room_wf_def addPlayer_def isFull_def playerIds_def)

lemma removePlayer_wf:
  assumes "room_wf r"
  shows "room_wf (snd (removePlayer p r))"
proof -
  have "length (r_players (snd (removePlayer p r))) \<le> length (r_players r)"
    by (simp only: length_playerIds [symmetric] playerIds_removePlayer) (simp add: length_remove1)
  moreover have "set (r_players (snd (removePlayer p r))) \<subseteq> set (r_players r)"
    using set_erase_player by (auto simp: removePlayer_def)
  ultimately show ?thesis
    using assms by (auto simp: room_wf_def distinct_remove1)
qed

lemma toggleReady_wf:
  assumes "room_wf r"
  shows "room_wf (toggleReady p r)"
proof -
  have "length (r_players (toggleReady p r)) = length (r_players r)"
    by (simp only: length_playerIds [symmetric] playerIds_toggleReady)
  moreover have "\<forall>x \<in> set (r_players (toggleReady p r)). pd_is_host x \<longrightarrow> pd_player_id x = r_host_id r"
  proof (intro ballI impI)
    fix x
    assume "x \<in> set (r_players (toggleReady p r))" "pd_is_host x"
    then obtain y where "y \<in> set (r_players r)" "pd_player_id y = pd_player_id x" "pd_is_host y"
      using in_flip_ready [of x p "r_players r"] by (auto simp: toggleReady_def split: if_splits)
    then show "pd_player_id x = r_host_id r" using assms by (auto simp: room_wf_def)
  qed
  ultimately show ?thesis
    using assms by (simp add: room_wf_def)
qed

lemma start_wf:
  "room_wf r \<Longrightarrow> session_id \<noteq> [] \<Longrightarrow> room_wf (setSessionId session_id (setState ROOM_IN_GAME r))"
  by (simp add: room_wf_def setSessionId_def setState_def playerIds_def)

text \<open>\<open>playerCount\<close> is a \<open>uint32_t\<close>; a well-formed room is too small for it to wrap.\<close>

lemma playerCount_exact:
  assumes "room_wf r"
  shows "unat (playerCount r) = length (playerIds r)"
proof -
  have "length (r_players r) < 2 ^ 32"
    using assms unsigned_less [of "r_max_players r", where 'a = nat]
    by (auto simp: room_wf_def elim: le_less_trans)
  then show ?thesis by (simp add: playerCount_def playerIds_def unat_of_nat)
qed

lemma playerCount_zero_iff:
  assumes "room_wf r"
  shows "playerCount r = 0 \<longleftrightarrow> playerIds r = []"
  using playerCount_exact [OF assms] by (metis length_0_conv unat_0 unat_eq_zero)

lemmas room_wf_intros = Room_new_wf addPlayer_wf removePlayer_wf toggleReady_wf start_wf

text \<open>Leaving undoes joining: a player that \<open>addPlayer\<close> accepted and \<open>removePlayer\<close>
  takes out again leaves the room exactly as it was.\<close>

theorem add_remove_player:
  assumes "addPlayer p n r = (True, r')"
  shows "removePlayer p r' = (True, r)"
proof -
  from assms have new: "p \<notin> pd_player_id ` set (r_players r)"
    and r': "r' = r\<lparr>r_players := r_players r @ [\<lparr>pd_player_id = p, pd_player_name = n,
        pd_is_ready = False, pd_is_host = False\<rparr>]\<rparr>"
    by (auto simp: addPlayer_def playerIds_def split: if_splits)
  then show ?thesis
    by (simp add: removePlayer_def playerIds_def erase_player_append)
qed

definition demo_room :: room where
  "demo_room = Room_new ''room-1'' ''TestRoom'' ''host-1'' ''HostName'' 4"

theorem add_remove_player_witness:
  "removePlayer ''p2'' (snd (addPlayer ''p2'' ''Player2'' demo_room)) = (True, demo_room)"
proof -
  have "addPlayer ''p2'' ''Player2'' demo_room = (True, snd (addPlayer ''p2'' ''Player2'' demo_room))"
    by (simp add: addPlayer_def demo_room_def isFull_def playerIds_def Room_new_def)
  then show ?thesis by (rule add_remove_player)
qed

text \<open>\<open>canStart\<close> on a well-formed room asks exactly that every player other than the
  host is ready, and a player who toggles is the one whose readiness changes: a second
  toggle restores the room.\<close>

theorem canStart_and_toggle:
  assumes "room_wf r" and "\<forall>x \<in> set (r_players r). pd_player_id x = r_host_id r \<longrightarrow> pd_is_host x"
  shows "(canStart r \<longleftrightarrow> (\<forall>x \<in> set (r_players r). pd_player_id x \<noteq> r_host_id r \<longrightarrow> pd_is_ready x)) \<and>
         toggleReady p (toggleReady p r) = r"
  using assms by (auto simp: canStart_def all_ready_iff room_wf_def toggleReady_def)

theorem canStart_and_toggle_witness:
  "\<not> canStart (snd (addPlayer ''p2'' ''Player2'' demo_room)) \<and>
   toggleReady ''p2'' (toggleReady ''p2'' (snd (addPlayer ''p2'' ''Player2'' demo_room)))
     = snd (addPlayer ''p2'' ''Player2'' demo_room)"
proof -
  let ?r = "snd (addPlayer ''p2'' ''Player2'' demo_room)"
  have "room_wf ?r" by (simp add: demo_room_def room_wf_intros)
  moreover have r: "r_players ?r = [\<lparr>pd_player_id = ''host-1'', pd_player_name = ''HostName'',
      pd_is_ready = False, pd_is_host = True\<rparr>, \<lparr>pd_player_id = ''p2'', pd_player_name = ''Player2'',
      pd_is_ready = False, pd_is_host = False\<rparr>]" "r_host_id ?r = ''host-1''"
    by (simp_all add: addPlayer_def demo_room_def isFull_def playerIds_def Room_new_def)
  ultimately show ?thesis using canStart_and_toggle [of ?r "''p2''"] by simp
qed

end
