(* ===== verification/Codec.thy ===== *)
theory Codec
  imports Prelude
begin

text \<open>
  The wire framing of \<open>src/src/common/protocol/Codec.h\<close>: four bytes of little-endian
  length, then a serialized protobuf message. A \<open>Codec<ProtoMessage>\<close> object is its
  buffer. Protobuf itself is not part of the repository: \<open>SerializeAsString\<close> and
  \<open>ParseFromArray\<close> are the two functions of the record \<open>proto\<close>, a parameter of every
  definition that encodes or decodes.

  The theory also holds the loop that every session class runs on the bytes it reads,
  \<open>while (auto envelope = codec_.tryDecode()) processMessage(*envelope)\<close>, with the
  message handler as a parameter.
\<close>

record 'm proto =
  SerializeAsString :: "'m \<Rightarrow> byte list"
  ParseFromArray :: "byte list \<Rightarrow> 'm option"

text \<open>What the protobuf documentation promises for one message: it parses back.\<close>

definition proto_ok :: "'m proto \<Rightarrow> 'm \<Rightarrow> bool" where
  "proto_ok P m = (ParseFromArray P (SerializeAsString P m) = Some m)"

section \<open>Frames\<close>

definition MAX_MESSAGE_SIZE :: u32 where
  "MAX_MESSAGE_SIZE = 1024 * 1024"

definition encode_length :: "u32 \<Rightarrow> byte list" where
  "encode_length len =
     [ucast len, ucast (drop_bit 8 len), ucast (drop_bit 16 len), ucast (drop_bit 24 len)]"

definition decode_length :: "byte list \<Rightarrow> u32" where
  "decode_length b =
     ucast (b ! 0) OR push_bit 8 (ucast (b ! 1)) OR
     push_bit 16 (ucast (b ! 2)) OR push_bit 24 (ucast (b ! 3))"

definition encode :: "'m proto \<Rightarrow> 'm \<Rightarrow> byte list" where
  "encode P m =
     (let serialized = SerializeAsString P m;
          len = (of_nat (length serialized) :: u32)
      in encode_length len @ take (unat len) serialized)"

definition feed :: "byte list \<Rightarrow> byte list \<Rightarrow> byte list" where
  "feed buffer data = buffer @ data"

definition tryDecode :: "'m proto \<Rightarrow> byte list \<Rightarrow> 'm option \<times> byte list" where
  "tryDecode P buffer =
     (if length buffer < 4 then (None, buffer)
      else let len = decode_length buffer in
        if len > MAX_MESSAGE_SIZE then (None, [])
        else if length buffer < unat (4 + len) then (None, buffer)
        else case ParseFromArray P (take (unat len) (drop 4 buffer)) of
            None \<Rightarrow> (None, drop (unat (4 + len)) buffer)
          | Some message \<Rightarrow> (Some message, drop (unat (4 + len)) buffer))"

section \<open>Length prefix\<close>

lemma length_encode_length [simp]: "length (encode_length len) = 4"
  by (simp add: encode_length_def)

lemma decode_encode_length [simp]: "decode_length (encode_length len @ rest) = len"
proof (rule bit_eqI)
  fix n
  assume "possible_bit TYPE(u32) n"
  then have "n < 32" by simp
  then consider "n < 8" | "8 \<le> n" "n < 16" | "16 \<le> n" "n < 24" | "24 \<le> n" "n < 32"
    by linarith
  then show "bit (decode_length (encode_length len @ rest)) n \<longleftrightarrow> bit len n"
    by cases (auto simp: decode_length_def encode_length_def bit_simps)
qed

lemma decode_length_append:
  assumes "4 \<le> length b"
  shows "decode_length (b @ rest) = decode_length b"
proof -
  from assms have "0 < length b" "1 < length b" "2 < length b" "3 < length b" by linarith+
  then show ?thesis by (simp only: decode_length_def nth_append if_True)
qed

lemma unat_4_plus:
  assumes "len \<le> MAX_MESSAGE_SIZE"
  shows "unat (4 + len) = 4 + unat len"
proof -
  from assms have "unat len \<le> unat MAX_MESSAGE_SIZE"
    by (simp add: word_le_nat_alt)
  then have "unat len \<le> 1048576" by (simp add: MAX_MESSAGE_SIZE_def)
  then show ?thesis by (simp add: unat_word_ariths)
qed

section \<open>One frame\<close>

text \<open>A message that a peer of this codec can receive: it parses back and fits.\<close>

definition frame_ok :: "'m proto \<Rightarrow> 'm \<Rightarrow> bool" where
  "frame_ok P m \<longleftrightarrow> proto_ok P m \<and> length (SerializeAsString P m) \<le> unat MAX_MESSAGE_SIZE"

lemma unat_frame_length:
  assumes "length (bs :: byte list) \<le> unat MAX_MESSAGE_SIZE"
  shows "unat (of_nat (length bs) :: u32) = length bs"
  using assms by (simp add: MAX_MESSAGE_SIZE_def unat_of_nat take_bit_eq_mod)

lemma frame_length_le_MAX:
  assumes "length (bs :: byte list) \<le> unat MAX_MESSAGE_SIZE"
  shows "(of_nat (length bs) :: u32) \<le> MAX_MESSAGE_SIZE"
  using assms unat_frame_length [OF assms] by (simp add: word_le_nat_alt)

lemma encode_frame:
  assumes "length (SerializeAsString P m) \<le> unat MAX_MESSAGE_SIZE"
  shows "encode P m = encode_length (of_nat (length (SerializeAsString P m))) @ SerializeAsString P m"
  using unat_frame_length [OF assms] by (simp add: encode_def Let_def)

lemma length_encode_ge: "4 \<le> length (encode P m)"
  by (simp add: encode_def Let_def)

lemma tryDecode_frame:
  assumes "frame_ok P m"
  shows "tryDecode P (encode P m @ rest) = (Some m, rest)"
proof -
  let ?ser = "SerializeAsString P m"
  let ?len = "of_nat (length ?ser) :: u32"
  from assms have fits: "length ?ser \<le> unat MAX_MESSAGE_SIZE" by (simp add: frame_ok_def)
  note len = unat_frame_length [OF fits] and le = frame_length_le_MAX [OF fits]
  have "decode_length (encode P m @ rest) = ?len"
    by (simp add: encode_frame [OF fits])
  moreover have "unat (4 + ?len) = 4 + length ?ser"
    using unat_4_plus [OF le] len by simp
  ultimately show ?thesis
    using assms le len
    by (simp add: tryDecode_def encode_frame [OF fits] frame_ok_def proto_ok_def
        linorder_not_less Let_def)
qed

text \<open>A strict prefix of a frame is kept in the buffer until the rest arrives.\<close>

lemma tryDecode_partial:
  assumes "frame_ok P m" and "encode P m = part @ missing" and "missing \<noteq> []"
  shows "tryDecode P part = (None, part)"
proof (cases "length part < 4")
  case True
  then show ?thesis by (simp add: tryDecode_def)
next
  case False
  let ?ser = "SerializeAsString P m"
  from assms(1) have fits: "length ?ser \<le> unat MAX_MESSAGE_SIZE" by (simp add: frame_ok_def)
  note len = unat_frame_length [OF fits] and le = frame_length_le_MAX [OF fits]
  have "decode_length part = decode_length (encode P m)"
    using False by (simp add: assms(2) decode_length_append)
  also have "\<dots> = of_nat (length ?ser)"
    by (simp add: encode_frame [OF fits])
  finally have dl: "decode_length part = of_nat (length ?ser)" .
  have "length part < length (encode P m)"
    using assms(2,3) by simp
  then have "length part < 4 + length ?ser"
    by (simp add: encode_frame [OF fits])
  then show ?thesis
    using False le len unat_4_plus [OF le]
    by (auto simp: tryDecode_def dl Let_def)
qed

lemma tryDecode_consumes:
  assumes "tryDecode P buffer = (r, buffer')"
  shows "(if r = None then 0 else 4) + length buffer' \<le> length buffer"
  using assms
  by (auto simp: tryDecode_def Let_def unat_4_plus linorder_not_less
      split: if_splits option.splits)

lemma tryDecode_Some_shorter:
  assumes "tryDecode P buffer = (Some m, buffer')"
  shows "length buffer' < length buffer"
  using assms
  by (auto simp: tryDecode_def Let_def unat_4_plus linorder_not_less
      split: if_splits option.splits)

section \<open>The read loop\<close>

function decode_loop ::
  "'m proto \<Rightarrow> ('m \<Rightarrow> 's \<Rightarrow> 's) \<Rightarrow> ('s \<Rightarrow> bool) \<Rightarrow> byte list \<Rightarrow> 's \<Rightarrow> byte list \<times> 's"
where
  "decode_loop P process closed buffer s =
     (case tryDecode P buffer of
        (None, buffer') \<Rightarrow> (buffer', s)
      | (Some m, buffer') \<Rightarrow>
          let s' = process m s
          in if closed s' then (buffer', s') else decode_loop P process closed buffer' s')"
  by pat_completeness auto
termination
  by (relation "measure (\<lambda>(P, process, closed, buffer, s). length buffer)")
    (auto dest!: sym [of "(_, _)"] tryDecode_Some_shorter)

declare decode_loop.simps [simp del]

lemma decode_loop_None:
  "tryDecode P buffer = (None, buffer') \<Longrightarrow> decode_loop P process closed buffer s = (buffer', s)"
  by (simp add: decode_loop.simps)

lemma decode_loop_Some:
  "tryDecode P buffer = (Some m, buffer') \<Longrightarrow>
   decode_loop P process closed buffer s =
     (if closed (process m s) then (buffer', process m s)
      else decode_loop P process closed buffer' (process m s))"
  by (subst decode_loop.simps) (simp add: Let_def)

text \<open>The messages the loop processes, in their order.\<close>

function loop_messages ::
  "'m proto \<Rightarrow> ('m \<Rightarrow> 's \<Rightarrow> 's) \<Rightarrow> ('s \<Rightarrow> bool) \<Rightarrow> byte list \<Rightarrow> 's \<Rightarrow> 'm list"
where
  "loop_messages P process closed buffer s =
     (case tryDecode P buffer of
        (None, buffer') \<Rightarrow> []
      | (Some m, buffer') \<Rightarrow>
          m # (let s' = process m s in if closed s' then [] else loop_messages P process closed buffer' s'))"
  by pat_completeness auto
termination
  by (relation "measure (\<lambda>(P, process, closed, buffer, s). length buffer)")
    (auto dest!: sym [of "(_, _)"] tryDecode_Some_shorter)

declare loop_messages.simps [simp del]

lemma decode_loop_messages:
  "snd (decode_loop P process closed buffer s) = fold process (loop_messages P process closed buffer s) s"
proof (induction buffer arbitrary: s rule: measure_induct_rule [where f = length])
  case (less buffer)
  obtain r buffer' where td: "tryDecode P buffer = (r, buffer')" by fastforce
  show ?case
  proof (cases r)
    case None
    with td show ?thesis by (simp add: decode_loop_None loop_messages.simps [of P process closed buffer])
  next
    case (Some m)
    with td have some: "tryDecode P buffer = (Some m, buffer')" by simp
    from less.IH [OF tryDecode_Some_shorter [OF some]] some show ?thesis
      by (simp add: decode_loop_Some loop_messages.simps [of P process closed buffer] Let_def)
  qed
qed

lemma decode_loop_keeps:
  assumes keeps: "\<And>m s. I s \<Longrightarrow> I (process m s)" and "I s"
  shows "I (snd (decode_loop P process closed buffer s))"
  using assms(2)
proof (induction buffer arbitrary: s rule: measure_induct_rule [where f = length])
  case (less buffer)
  obtain r buffer' where td: "tryDecode P buffer = (r, buffer')" by fastforce
  show ?case
  proof (cases r)
    case None
    with td less.prems show ?thesis by (simp add: decode_loop_None)
  next
    case (Some m)
    with td have some: "tryDecode P buffer = (Some m, buffer')" by simp
    have "I (process m s)" using less.prems by (rule keeps)
    with less.IH [OF tryDecode_Some_shorter [OF some]] show ?thesis
      by (simp add: decode_loop_Some [OF some])
  qed
qed

text \<open>C22. The read loop ends: on any buffer it handles finitely many messages, in the order they were
  decoded, and each of them has used up at least the four bytes of its length prefix; what it
  leaves in the buffer is no longer than what was not used.\<close>

theorem read_loop_terminates:
  "\<exists>ms rest. decode_loop P process closed buffer s = (rest, fold process ms s) \<and>
     4 * length ms + length rest \<le> length buffer"
proof (induction buffer arbitrary: s rule: measure_induct_rule [where f = length])
  case (less buffer)
  obtain r buffer' where td: "tryDecode P buffer = (r, buffer')" by fastforce
  show ?case
  proof (cases r)
    case None
    with td tryDecode_consumes [OF td] show ?thesis
      by (intro exI [of _ "[]"] exI [of _ buffer']) (simp add: decode_loop_None)
  next
    case (Some m)
    with td have some: "tryDecode P buffer = (Some m, buffer')" by simp
    have used: "4 + length buffer' \<le> length buffer" using tryDecode_consumes [OF some] by simp
    show ?thesis
    proof (cases "closed (process m s)")
      case True
      with used show ?thesis
        by (intro exI [of _ "[m]"] exI [of _ buffer']) (simp add: decode_loop_Some [OF some])
    next
      case False
      obtain ms rest where "decode_loop P process closed buffer' (process m s) = (rest, fold process ms (process m s))"
        "4 * length ms + length rest \<le> length buffer'"
        using less.IH [OF tryDecode_Some_shorter [OF some]] by blast
      with used False show ?thesis
        by (intro exI [of _ "m # ms"] exI [of _ rest]) (simp add: decode_loop_Some [OF some])
    qed
  qed
qed

text \<open>
  What the session classes rely on: the loop keeps whatever the processing of one message
  keeps. \<open>open_loop\<close> is for invariants that hold only while the connection is open;
  \<open>message_loop\<close> is for those that do not depend on it.
\<close>

locale open_loop =
  fixes P :: "'m proto" and process :: "'m \<Rightarrow> 's \<Rightarrow> 's" and closed :: "'s \<Rightarrow> bool" and I :: "'s \<Rightarrow> bool"
  assumes process_open: "\<not> closed s \<Longrightarrow> I s \<Longrightarrow> I (process m s)"
begin

lemma open_loop_keeps:
  assumes "\<not> closed s" and "I s"
  shows "I (snd (decode_loop P process closed buffer s))"
  using assms
proof (induction buffer arbitrary: s rule: measure_induct_rule [where f = length])
  case (less buffer)
  obtain r buffer' where td: "tryDecode P buffer = (r, buffer')" by fastforce
  show ?case
  proof (cases r)
    case None
    with td less.prems show ?thesis by (simp add: decode_loop_None)
  next
    case (Some m)
    with td have some: "tryDecode P buffer = (Some m, buffer')" by simp
    have "I (process m s)" using less.prems by (rule process_open)
    with less.IH [OF tryDecode_Some_shorter [OF some]] show ?thesis
      by (simp add: decode_loop_Some [OF some])
  qed
qed

end

locale message_loop =
  fixes P :: "'m proto" and process :: "'m \<Rightarrow> 's \<Rightarrow> 's" and closed :: "'s \<Rightarrow> bool" and I :: "'s \<Rightarrow> bool"
  assumes process_keeps: "I s \<Longrightarrow> I (process m s)"
begin

lemma loop_keeps: "I s \<Longrightarrow> I (snd (decode_loop P process closed buffer s))"
  by (rule decode_loop_keeps [of I process, OF process_keeps])

end

sublocale message_loop \<subseteq> open_loop
  by unfold_locales (rule process_keeps)

text \<open>A loop whose messages never close the connection runs until the buffer is exhausted.\<close>

lemma decode_loop_never_closed:
  assumes keep: "\<And>m t. closed (process m t) = closed t" and "\<not> closed s"
  shows "decode_loop P process closed buffer s = decode_loop P process (\<lambda>_. False) buffer s"
  using assms(2)
proof (induction buffer arbitrary: s rule: measure_induct_rule [where f = length])
  case (less buffer)
  obtain r buffer' where td: "tryDecode P buffer = (r, buffer')" by fastforce
  show ?case
  proof (cases r)
    case None
    with td show ?thesis by (simp add: decode_loop_None)
  next
    case (Some m)
    with td have some: "tryDecode P buffer = (Some m, buffer')" by simp
    have "\<not> closed (process m s)" using less.prems by (simp add: keep)
    with less.IH [OF tryDecode_Some_shorter [OF some]] show ?thesis
      by (simp add: decode_loop_Some [OF some])
  qed
qed

section \<open>Streams\<close>

definition frames :: "'m proto \<Rightarrow> 'm list \<Rightarrow> byte list" where
  "frames P ms = concat (map (encode P) ms)"

text \<open>
  A connection that receives its bytes in chunks: each chunk is fed and the loop run.
  The chunks are whatever \<open>async_read_some\<close> delivers.
\<close>

fun read_chunks ::
  "'m proto \<Rightarrow> ('m \<Rightarrow> 's \<Rightarrow> 's) \<Rightarrow> byte list list \<Rightarrow> byte list \<Rightarrow> 's \<Rightarrow> byte list \<times> 's"
where
  "read_chunks P process [] buffer s = (buffer, s)"
| "read_chunks P process (c # cs) buffer s =
     (case decode_loop P process (\<lambda>_. False) (feed buffer c) s of
        (buffer', s') \<Rightarrow> read_chunks P process cs buffer' s')"

text \<open>What may be left in the buffer while a stream of frames is still arriving.\<close>

definition partial_of :: "'m proto \<Rightarrow> 'm list \<Rightarrow> byte list \<Rightarrow> bool" where
  "partial_of P ms part \<longleftrightarrow>
     (case ms of [] \<Rightarrow> part = [] | m # _ \<Rightarrow> \<exists>missing. encode P m = part @ missing \<and> missing \<noteq> [])"

lemma tryDecode_partial_of:
  assumes "partial_of P ms part" and "\<forall>m \<in> set ms. frame_ok P m"
  shows "tryDecode P part = (None, part)"
  using assms tryDecode_partial [of P _ part]
  by (cases ms) (auto simp: partial_of_def tryDecode_def)

lemma decode_loop_frames:
  assumes "\<forall>m \<in> set (ms @ ms'). frame_ok P m" and "partial_of P ms' part"
  shows "decode_loop P process (\<lambda>_. False) (frames P ms @ part) s = (part, fold process ms s)"
  using assms
proof (induction ms arbitrary: s)
  case Nil
  then have "tryDecode P part = (None, part)"
    by (auto intro: tryDecode_partial_of)
  then show ?case by (simp add: frames_def decode_loop_None)
next
  case (Cons m ms)
  then have "tryDecode P (frames P (m # ms) @ part) = (Some m, frames P ms @ part)"
    by (simp add: frames_def tryDecode_frame)
  with Cons show ?case by (simp add: decode_loop_Some)
qed

text \<open>A loop whose messages may close the connection processes a prefix of the frames: all of
  them, unless it closes earlier.\<close>

lemma decode_loop_until:
  assumes "\<forall>m \<in> set (ms @ ms'). frame_ok P m" and "partial_of P ms' part"
  shows "\<exists>k \<le> length ms. snd (decode_loop P process closed (frames P ms @ part) s) = fold process (take k ms) s \<and>
    (k = length ms \<or> closed (fold process (take k ms) s))"
  using assms
proof (induction ms arbitrary: s)
  case Nil
  then have "tryDecode P part = (None, part)"
    by (auto intro: tryDecode_partial_of)
  then show ?case by (simp add: frames_def decode_loop_None)
next
  case (Cons m ms)
  then have some: "tryDecode P (frames P (m # ms) @ part) = (Some m, frames P ms @ part)"
    by (simp add: frames_def tryDecode_frame)
  show ?case
  proof (cases "closed (process m s)")
    case True
    then show ?thesis by (intro exI [of _ 1]) (simp add: decode_loop_Some [OF some])
  next
    case False
    from Cons obtain k where "k \<le> length ms"
      "snd (decode_loop P process closed (frames P ms @ part) (process m s)) = fold process (take k ms) (process m s)"
      "k = length ms \<or> closed (fold process (take k ms) (process m s))" by auto
    with False show ?thesis by (intro exI [of _ "Suc k"]) (simp add: decode_loop_Some [OF some])
  qed
qed

lemma prefix_of_frames:
  assumes "p @ q = frames P ms"
  shows "\<exists>ms1 ms2 part. ms = ms1 @ ms2 \<and> p = frames P ms1 @ part \<and> partial_of P ms2 part
           \<and> part @ q = frames P ms2"
  using assms
proof (induction ms arbitrary: p)
  case Nil
  then show ?case by (auto simp: frames_def partial_of_def)
next
  case (Cons m ms)
  show ?case
  proof (cases "length p < length (encode P m)")
    case True
    with Cons.prems obtain missing where "p @ missing = encode P m"
      by (auto simp: frames_def append_eq_append_conv2)
    then have missing: "encode P m = p @ missing" by (rule sym)
    with True have "partial_of P (m # ms) p" by (auto simp: partial_of_def)
    with Cons.prems show ?thesis
      by (intro exI [of _ "[]"] exI [of _ "m # ms"] exI [of _ p]) (auto simp: frames_def)
  next
    case False
    define p' where "p' = drop (length (encode P m)) p"
    have whole: "p @ q = encode P m @ frames P ms"
      using Cons.prems by (simp add: frames_def)
    have "take (length (encode P m)) p = encode P m"
      using arg_cong [OF whole, of "take (length (encode P m))"] False by simp
    then have p': "p = encode P m @ p'"
      unfolding p'_def by (metis append_take_drop_id)
    have "p' @ q = frames P ms"
      using whole by (simp add: p')
    from Cons.IH [OF this] obtain ms1 ms2 part where
      "ms = ms1 @ ms2" "p' = frames P ms1 @ part" "partial_of P ms2 part" "part @ q = frames P ms2"
      by blast
    then show ?thesis
      by (intro exI [of _ "m # ms1"] exI [of _ ms2] exI [of _ part]) (simp add: p' frames_def)
  qed
qed

lemma partial_of_all: "partial_of P ms (frames P ms) \<Longrightarrow> ms = []"
  by (cases ms) (auto simp: partial_of_def frames_def)

lemma read_chunks_frames:
  assumes "part @ concat chunks = frames P ms" and "partial_of P ms part"
    and "\<forall>m \<in> set ms. frame_ok P m"
  shows "read_chunks P process chunks part s = ([], fold process ms s)"
  using assms
proof (induction chunks arbitrary: part ms s)
  case Nil
  then show ?case using partial_of_all [of P ms] by (simp add: partial_of_def)
next
  case (Cons c chunks)
  then have "(part @ c) @ concat chunks = frames P ms" by simp
  then obtain ms1 ms2 part' where split: "ms = ms1 @ ms2" "part @ c = frames P ms1 @ part'"
      "partial_of P ms2 part'" "part' @ concat chunks = frames P ms2"
    using prefix_of_frames by blast
  with Cons.prems(3) have "decode_loop P process (\<lambda>_. False) (part @ c) s = (part', fold process ms1 s)"
    by (metis decode_loop_frames)
  with Cons.IH [OF split(4,3)] Cons.prems(3) split(1) show ?case
    by (simp add: feed_def)
qed

text \<open>C23. A stream of encoded messages, cut into chunks at arbitrary places, is delivered
  to the handler message by message, in order, with nothing left in the buffer.\<close>

theorem codec_stream_roundtrip:
  assumes "concat chunks = concat (map (encode P) ms)"
    and "\<forall>m \<in> set ms. frame_ok P m"
  shows "read_chunks P process chunks [] s = ([], fold process ms s)"
proof -
  have "partial_of P ms []"
  proof (cases ms)
    case (Cons m ms')
    then show ?thesis using length_encode_ge [of P m] by (cases "encode P m") (auto simp: partial_of_def)
  qed (simp add: partial_of_def)
  with assms show ?thesis
    by (intro read_chunks_frames) (simp_all add: frames_def)
qed

section \<open>Frames that are not delivered\<close>

lemma tryDecode_oversized:
  assumes "len > MAX_MESSAGE_SIZE"
  shows "tryDecode P (encode_length len @ rest) = (None, [])"
  using assms by (simp add: tryDecode_def)

lemma tryDecode_malformed:
  assumes "length bad \<le> unat MAX_MESSAGE_SIZE" and "ParseFromArray P bad = None"
  shows "tryDecode P (encode_length (of_nat (length bad)) @ bad @ rest) = (None, rest)"
  using assms unat_frame_length [OF assms(1)] frame_length_le_MAX [OF assms(1)]
    unat_4_plus [OF frame_length_le_MAX [OF assms(1)]]
  by (auto simp: tryDecode_def Let_def)

text \<open>Two message formats to evaluate on: bytes as they are, and one that rejects a byte.\<close>

definition raw_proto :: "byte list proto" where
  "raw_proto = \<lparr>SerializeAsString = id, ParseFromArray = Some\<rparr>"

definition picky_proto :: "byte list proto" where
  "picky_proto = \<lparr>SerializeAsString = id, ParseFromArray = (\<lambda>b. if b = [255] then None else Some b)\<rparr>"

lemma raw_frame_ok: "length m \<le> unat MAX_MESSAGE_SIZE \<Longrightarrow> frame_ok raw_proto m"
  by (simp add: frame_ok_def proto_ok_def raw_proto_def)

theorem codec_stream_roundtrip_witness:
  "read_chunks raw_proto (\<lambda>m s. s @ [m]) [[1, 0, 0], [0, 7, 2, 0], [0, 0, 8, 9]] [] []
     = ([], [[7], [8, 9]])"
proof -
  have ok: "\<forall>m \<in> set [[7], [8, 9]]. frame_ok raw_proto m"
    by (simp add: raw_frame_ok MAX_MESSAGE_SIZE_def)
  have eq: "concat [[1, 0, 0], [0, 7, 2, 0], [0, 0, 8, 9]]
      = concat (map (encode raw_proto) [[7], [8, 9]])"
    by (simp add: encode_def encode_length_def raw_proto_def)
  show ?thesis
    using codec_stream_roundtrip [OF eq ok, of "\<lambda>m s. s @ [m]" "[]"]
    by (simp del: read_chunks.simps)
qed

text \<open>C39. A frame whose payload does not parse is skipped, but the read loop stops at it:
  a complete frame behind it stays in the buffer, undelivered, until the loop runs again.\<close>

theorem codec_malformed_frame_stalls:
  assumes "length bad \<le> unat MAX_MESSAGE_SIZE" and "ParseFromArray P bad = None"
    and "frame_ok P m"
  shows "decode_loop P process closed
           (encode_length (of_nat (length bad)) @ bad @ encode P m) s = (encode P m, s) \<and>
         decode_loop P process (\<lambda>_. False) (encode P m) s = ([], process m s)"
proof
  show "decode_loop P process closed
      (encode_length (of_nat (length bad)) @ bad @ encode P m) s = (encode P m, s)"
    using assms(1,2) by (intro decode_loop_None tryDecode_malformed)
  have "decode_loop P process (\<lambda>_. False) (frames P [m] @ []) s = ([], fold process [m] s)"
    using assms(3) by (intro decode_loop_frames [where ms' = "[]"]) (simp_all add: partial_of_def)
  then show "decode_loop P process (\<lambda>_. False) (encode P m) s = ([], process m s)"
    by (simp add: frames_def)
qed

theorem codec_malformed_frame_stalls_witness:
  "decode_loop picky_proto (\<lambda>m s. s @ [m]) (\<lambda>_. False) [1, 0, 0, 0, 255, 1, 0, 0, 0, 7] []
     = ([1, 0, 0, 0, 7], []) \<and>
   decode_loop picky_proto (\<lambda>m s. s @ [m]) (\<lambda>_. False) [1, 0, 0, 0, 7] [] = ([], [[7]])"
  using codec_malformed_frame_stalls
    [of "[255]" picky_proto "[7]" "\<lambda>m s. s @ [m]" "\<lambda>_. False" "[] :: byte list list"]
  by (simp add: picky_proto_def frame_ok_def proto_ok_def MAX_MESSAGE_SIZE_def encode_def
      encode_length_def)

text \<open>A length prefix above \<open>MAX_MESSAGE_SIZE\<close> discards the whole buffer, whatever
  follows it, and the codec decodes the next frame it is fed.\<close>

theorem codec_oversized_prefix_recovers:
  assumes "len > MAX_MESSAGE_SIZE" and "frame_ok P m"
  shows "decode_loop P process closed (encode_length len @ rest) s = ([], s) \<and>
         tryDecode P (feed [] (encode P m)) = (Some m, [])"
  using decode_loop_None [OF tryDecode_oversized [OF assms(1)]] tryDecode_frame [OF assms(2), of "[]"]
  by (simp add: feed_def)

theorem codec_oversized_prefix_recovers_witness:
  "decode_loop raw_proto (\<lambda>m s. s @ [m]) (\<lambda>_. False) (encode_length 1048577 @ [1, 2, 3]) []
     = ([], []) \<and>
   tryDecode raw_proto (feed [] (encode raw_proto [7])) = (Some [7], [])"
  using codec_oversized_prefix_recovers
    [of 1048577 raw_proto "[7]" "\<lambda>m s. s @ [m]" "\<lambda>_. False" "[1, 2, 3]" "[]"]
  by (simp add: raw_frame_ok MAX_MESSAGE_SIZE_def)

text \<open>\<open>encode\<close> has no size limit of its own: a message that serializes to more than
  \<open>MAX_MESSAGE_SIZE\<close> bytes is sent, and the receiving codec drops it together with
  everything that follows it in the buffer.\<close>

theorem encode_oversized_is_dropped:
  assumes "unat MAX_MESSAGE_SIZE < length (SerializeAsString P m)"
    and "length (SerializeAsString P m) < 2 ^ 32"
  shows "tryDecode P (encode P m @ rest) = (None, [])"
proof -
  let ?len = "of_nat (length (SerializeAsString P m)) :: u32"
  have "unat ?len = length (SerializeAsString P m)"
    using assms(2) by (simp add: unat_of_nat take_bit_eq_mod)
  then have "?len > MAX_MESSAGE_SIZE" using assms(1) by (simp add: word_less_nat_alt)
  then show ?thesis by (simp add: encode_def Let_def tryDecode_oversized)
qed

theorem encode_oversized_is_dropped_witness:
  "tryDecode raw_proto (encode raw_proto (replicate 1048577 0) @ encode raw_proto [7]) = (None, [])"
  by (rule encode_oversized_is_dropped) (simp_all add: raw_proto_def MAX_MESSAGE_SIZE_def)

end
