(* ===== verification/WritePump.thy ===== *)
theory WritePump
  imports Prelude
begin

text \<open>
  Every connection of the two servers writes through a queue: \<open>send\<close> appends a frame and
  starts an \<open>async_write\<close> only if the queue was empty; the completion handler removes the
  front and starts the next write. The classes each have their own copy of that code. The
  locale states the contract they share, over the queue, the number of writes that are
  outstanding at the socket and the frames written so far; each class interprets it with
  its own operations.
\<close>

datatype pump_op = Push "byte list" | Written

definition pump_step ::
  "('s \<Rightarrow> nat) \<Rightarrow> (byte list \<Rightarrow> 's \<Rightarrow> 's) \<Rightarrow> ('s \<Rightarrow> 's) \<Rightarrow> pump_op \<Rightarrow> 's \<Rightarrow> 's" where
  "pump_step writes push written act s =
     (case act of Push b \<Rightarrow> push b s | Written \<Rightarrow> if 0 < writes s then written s else s)"

fun pushed :: "pump_op list \<Rightarrow> byte list list" where
  "pushed [] = []"
| "pushed (Push b # acts) = b # pushed acts"
| "pushed (Written # acts) = pushed acts"

locale write_pump =
  fixes queue :: "'s \<Rightarrow> byte list list"
    and writes :: "'s \<Rightarrow> nat"
    and wire :: "'s \<Rightarrow> byte list list"
    and accepts :: "'s \<Rightarrow> bool"
    and push :: "byte list \<Rightarrow> 's \<Rightarrow> 's"
    and written :: "'s \<Rightarrow> 's"
  assumes push_queue: "accepts s \<Longrightarrow> queue (push b s) = queue s @ [b]"
    and push_writes: "accepts s \<Longrightarrow> writes (push b s) = writes s + (if queue s = [] then 1 else 0)"
    and push_wire: "accepts s \<Longrightarrow> wire (push b s) = wire s"
    and push_accepts: "accepts s \<Longrightarrow> accepts (push b s)"
    and written_queue: "accepts s \<Longrightarrow> queue s = f # fs \<Longrightarrow> queue (written s) = fs"
    and written_wire: "accepts s \<Longrightarrow> queue s = f # fs \<Longrightarrow> wire (written s) = wire s @ [f]"
    and written_writes: "accepts s \<Longrightarrow> queue s = f # fs \<Longrightarrow> 0 < writes s \<Longrightarrow>
      writes (written s) = writes s - 1 + (if fs = [] then 0 else 1)"
    and written_accepts: "accepts s \<Longrightarrow> queue s = f # fs \<Longrightarrow> accepts (written s)"
begin

definition pump_ok :: "'s \<Rightarrow> bool" where
  "pump_ok s \<longleftrightarrow> accepts s \<and> writes s = (if queue s = [] then 0 else 1)"

lemma push_ok: "pump_ok s \<Longrightarrow> pump_ok (push b s)"
  by (auto simp: pump_ok_def push_queue push_writes push_accepts)

lemma written_ok:
  assumes "pump_ok s" and "0 < writes s"
  shows "pump_ok (written s)"
proof -
  from assms obtain f fs where q: "queue s = f # fs"
    by (cases "queue s") (auto simp: pump_ok_def)
  with assms show ?thesis
    by (auto simp: pump_ok_def written_queue written_writes written_accepts)
qed

lemma pump_fifo:
  assumes "pump_ok s"
  shows "pump_ok (fold (pump_step writes push written) acts s) \<and>
    wire (fold (pump_step writes push written) acts s) @
      queue (fold (pump_step writes push written) acts s) = wire s @ queue s @ pushed acts"
  using assms
proof (induction acts arbitrary: s)
  case (Cons act acts)
  show ?case
  proof (cases act)
    case (Push b)
    with Cons.IH [OF push_ok [OF Cons.prems]] Cons.prems show ?thesis
      by (simp add: pump_step_def pump_ok_def push_queue push_wire)
  next
    case Written
    show ?thesis
    proof (cases "queue s")
      case Nil
      then have "writes s = 0" using Cons.prems by (simp add: pump_ok_def)
      with Written Cons.IH [OF Cons.prems] show ?thesis by (simp add: pump_step_def)
    next
      case q: (Cons f fs)
      then have "0 < writes s" using Cons.prems by (simp add: pump_ok_def)
      with Written Cons.IH [OF written_ok [OF Cons.prems]] Cons.prems q show ?thesis
        by (simp add: pump_step_def pump_ok_def written_queue written_wire)
    qed
  qed
qed simp

text \<open>At most one write is outstanding, and the frames leave in the order they were sent.\<close>

lemma pump_in_order:
  assumes "pump_ok s"
  shows "writes (fold (pump_step writes push written) acts s) \<le> 1 \<and>
    (\<exists>rest. wire s @ queue s @ pushed acts =
       wire (fold (pump_step writes push written) acts s) @ rest)"
proof -
  note f = pump_fifo [OF assms, of acts]
  have "writes (fold (pump_step writes push written) acts s) \<le> 1"
    using f by (simp add: pump_ok_def)
  moreover have "wire s @ queue s @ pushed acts = wire (fold (pump_step writes push written) acts s) @
      queue (fold (pump_step writes push written) acts s)"
    using f by (rule conjE) (erule sym)
  ultimately show ?thesis by blast
qed

end

end
