(* ===== verification/ClientSession.thy ===== *)
theory ClientSession
  imports Codec RoomProto WritePump
begin

text \<open>
  The state of a \<open>ClientSession\<close> object (\<open>src/src/room/server/ClientSession.h\<close>) and its
  write path. What the class asks of the room manager is in \<open>RoomSessions\<close>, since the
  manager in turn sends through the session.

  Beside the members of the class, the record holds what Boost.Asio keeps for it: whether
  a read and a heartbeat wait are outstanding, how many writes are, and the frames written
  so far.
\<close>

record client_session =
  cs_player_id :: string
  cs_remote_ip :: string
  cs_closed :: bool
  cs_buffer :: "byte list"
  cs_write_queue :: "byte list list"
  cs_reading :: bool
  cs_heartbeat :: bool
  cs_writes :: nat
  cs_wire :: "byte list list"

definition ClientSession_new :: client_session where
  "ClientSession_new = \<lparr>cs_player_id = [], cs_remote_ip = [], cs_closed = False, cs_buffer = [],
     cs_write_queue = [], cs_reading = False, cs_heartbeat = False, cs_writes = 0, cs_wire = []\<rparr>"

definition setPlayerId :: "string \<Rightarrow> client_session \<Rightarrow> client_session" where
  "setPlayerId player_id c = c\<lparr>cs_player_id := player_id\<rparr>"

definition ClientSession_doWrite :: "client_session \<Rightarrow> client_session" where
  "ClientSession_doWrite c =
     (if cs_write_queue c = [] then c else c\<lparr>cs_writes := Suc (cs_writes c)\<rparr>)"

text \<open>The queue half of \<open>send\<close>, on an encoded frame.\<close>

definition ClientSession_push :: "byte list \<Rightarrow> client_session \<Rightarrow> client_session" where
  "ClientSession_push frame c =
     (let was_idle = (cs_write_queue c = []);
          c1 = c\<lparr>cs_write_queue := cs_write_queue c @ [frame]\<rparr>
      in if was_idle then ClientSession_doWrite c1 else c1)"

definition ClientSession_send :: "envelope proto \<Rightarrow> envelope \<Rightarrow> client_session \<Rightarrow> client_session" where
  "ClientSession_send P e c = ClientSession_push (encode P e) c"

text \<open>The completion handler of \<open>async_write\<close> without an error. A write is outstanding only
  while its frame is at the front of the queue, so the first case does not arise.\<close>

definition ClientSession_written :: "client_session \<Rightarrow> client_session" where
  "ClientSession_written c =
     (case cs_write_queue c of
        [] \<Rightarrow> c\<lparr>cs_writes := cs_writes c - 1\<rparr>
      | f # fs \<Rightarrow>
          let c1 = c\<lparr>cs_writes := cs_writes c - 1, cs_wire := cs_wire c @ [f], cs_write_queue := fs\<rparr>
          in if fs \<noteq> [] then ClientSession_doWrite c1 else c1)"

interpretation cs_pump: write_pump cs_write_queue cs_writes cs_wire "\<lambda>_. True"
  ClientSession_push ClientSession_written
  by unfold_locales
    (auto simp: ClientSession_push_def ClientSession_doWrite_def ClientSession_written_def Let_def)

lemma ClientSession_push_fields [simp]:
  "cs_player_id (ClientSession_push f c) = cs_player_id c"
  "cs_closed (ClientSession_push f c) = cs_closed c"
  "cs_remote_ip (ClientSession_push f c) = cs_remote_ip c"
  "cs_buffer (ClientSession_push f c) = cs_buffer c"
  "cs_write_queue (ClientSession_push f c) = cs_write_queue c @ [f]"
  by (simp_all add: ClientSession_push_def ClientSession_doWrite_def Let_def)

lemma ClientSession_written_fields [simp]:
  "cs_player_id (ClientSession_written c) = cs_player_id c"
  "cs_closed (ClientSession_written c) = cs_closed c"
  by (simp_all add: ClientSession_written_def ClientSession_doWrite_def Let_def split: list.splits)

end
