(* ===== verification/GameServerSession.thy ===== *)
theory GameServerSession
  imports Codec RoomProto WritePump
begin

text \<open>
  The state of a \<open>GameServerSession\<close> object (\<open>src/src/room/internal/GameServerSession.h\<close>),
  the room server's end of a game server connection, and its write path. The handlers of
  its messages are in \<open>RoomSessions\<close>.
\<close>

record game_session =
  gs_server_id :: string
  gs_closed :: bool
  gs_buffer :: "byte list"
  gs_write_queue :: "byte list list"
  gs_reading :: bool
  gs_writes :: nat
  gs_wire :: "byte list list"

definition GameServerSession_new :: game_session where
  "GameServerSession_new = \<lparr>gs_server_id = [], gs_closed = False, gs_buffer = [],
     gs_write_queue = [], gs_reading = False, gs_writes = 0, gs_wire = []\<rparr>"

definition GameServerSession_doWrite :: "game_session \<Rightarrow> game_session" where
  "GameServerSession_doWrite g =
     (if gs_write_queue g = [] then g else g\<lparr>gs_writes := Suc (gs_writes g)\<rparr>)"

definition GameServerSession_push :: "byte list \<Rightarrow> game_session \<Rightarrow> game_session" where
  "GameServerSession_push frame g =
     (let was_idle = (gs_write_queue g = []);
          g1 = g\<lparr>gs_write_queue := gs_write_queue g @ [frame]\<rparr>
      in if was_idle then GameServerSession_doWrite g1 else g1)"

definition GameServerSession_send :: "envelope proto \<Rightarrow> envelope \<Rightarrow> game_session \<Rightarrow> game_session" where
  "GameServerSession_send P e g = GameServerSession_push (encode P e) g"

definition GameServerSession_written :: "game_session \<Rightarrow> game_session" where
  "GameServerSession_written g =
     (case gs_write_queue g of
        [] \<Rightarrow> g\<lparr>gs_writes := gs_writes g - 1\<rparr>
      | f # fs \<Rightarrow>
          let g1 = g\<lparr>gs_writes := gs_writes g - 1, gs_wire := gs_wire g @ [f], gs_write_queue := fs\<rparr>
          in if fs \<noteq> [] then GameServerSession_doWrite g1 else g1)"

interpretation gs_pump: write_pump gs_write_queue gs_writes gs_wire "\<lambda>_. True"
  GameServerSession_push GameServerSession_written
  by unfold_locales
    (auto simp: GameServerSession_push_def GameServerSession_doWrite_def
      GameServerSession_written_def Let_def)

lemma GameServerSession_push_fields [simp]:
  "gs_server_id (GameServerSession_push f g) = gs_server_id g"
  "gs_closed (GameServerSession_push f g) = gs_closed g"
  "gs_write_queue (GameServerSession_push f g) = gs_write_queue g @ [f]"
  by (simp_all add: GameServerSession_push_def GameServerSession_doWrite_def Let_def)

end
