(* ===== verification/ChatProto.thy ===== *)
theory ChatProto
  imports Prelude
begin

text \<open>
  The messages of \<open>src/proto/chat.proto\<close>, in the style of the room messages. An enum field
  of proto3 is open: a value outside the declared ones arrives as a number and is kept, so
  \<open>CHANNEL_OTHER\<close> stands for those.
\<close>

datatype chat_channel = CHANNEL_UNKNOWN | CHANNEL_LOBBY | CHANNEL_ALL | CHANNEL_WHISPER
  | CHANNEL_OTHER int

datatype chat_error_code = CHAT_UNKNOWN | NOT_AUTHENTICATED | CHAT_RATE_LIMITED | INVALID_CHANNEL
  | MESSAGE_TOO_LONG | PLAYER_NOT_FOUND | CHANNEL_NOT_JOINED

record chat_receive =
  rc_channel :: chat_channel
  rc_sender_id :: string
  rc_sender_name :: string
  rc_content :: string
  rc_timestamp :: "64 word"

datatype chat_envelope =
    ChatPayloadNotSet
  | ChatAuth string string string  \<comment> \<open>player_id, session_id, player_name\<close>
  | ChatSend chat_channel string string  \<comment> \<open>channel, content, whisper_target\<close>
  | JoinChannel chat_channel
  | LeaveChannel chat_channel
  | ChatHeartbeat
  | ChatAuthResult bool string
  | ChatReceive chat_receive
  | SystemMessage chat_channel string "64 word"
  | ChatError chat_error_code string
  | SessionCreated string "(string \<times> string) list"
  | SessionEnded string

end
