(* ===== verification/ChatServerChannel.thy ===== *)
theory ChatServerChannel
  imports Codec ChatProto WritePump
begin

text \<open>
  \<open>ChatServerChannel\<close> of \<open>src/src/room/internal/ChatServerChannel.cpp\<close>: the room server's
  outgoing connection to the chat server, with reconnection every five seconds. Beside the
  members of the class the record counts the asynchronous operations that are outstanding
  (resolve, connect, reconnect wait, read, write), since their handlers may run in any
  order. A wait that was cancelled still delivers its handler, with an error.

  Removing the front of an empty \<open>std::deque\<close> is undefined; the write handler returns an
  option, \<open>None\<close> for that case.
\<close>

record chat_link =
  cc_connected :: bool
  cc_stopped :: bool
  cc_write_queue :: "byte list list"
  cc_resolves :: nat
  cc_connects :: nat
  cc_waits :: nat
  cc_cancelled :: nat
  cc_reads :: nat
  cc_writes :: nat
  cc_wire :: "byte list list"

definition ChatServerChannel_new :: chat_link where
  "ChatServerChannel_new = \<lparr>cc_connected = False, cc_stopped = False, cc_write_queue = [],
     cc_resolves = 0, cc_connects = 0, cc_waits = 0, cc_cancelled = 0, cc_reads = 0, cc_writes = 0,
     cc_wire = []\<rparr>"

section \<open>Sending\<close>

definition cc_doWrite :: "chat_link \<Rightarrow> chat_link" where
  "cc_doWrite c =
     (if cc_write_queue c = [] \<or> \<not> cc_connected c then c else c\<lparr>cc_writes := Suc (cc_writes c)\<rparr>)"

definition cc_push :: "byte list \<Rightarrow> chat_link \<Rightarrow> chat_link" where
  "cc_push frame c =
     (let was_idle = (cc_write_queue c = []);
          c1 = c\<lparr>cc_write_queue := cc_write_queue c @ [frame]\<rparr>
      in if was_idle then cc_doWrite c1 else c1)"

definition cc_send :: "chat_envelope proto \<Rightarrow> chat_envelope \<Rightarrow> chat_link \<Rightarrow> chat_link" where
  "cc_send P e c = cc_push (encode P e) c"

definition sendSessionCreated ::
  "chat_envelope proto \<Rightarrow> string \<Rightarrow> (string \<times> string) list \<Rightarrow> chat_link \<Rightarrow> chat_link" where
  "sendSessionCreated P session_id players c =
     (if cc_connected c then cc_send P (SessionCreated session_id players) c else c)"

definition sendSessionEnded :: "chat_envelope proto \<Rightarrow> string \<Rightarrow> chat_link \<Rightarrow> chat_link" where
  "sendSessionEnded P session_id c =
     (if cc_connected c then cc_send P (SessionEnded session_id) c else c)"

section \<open>Connection management\<close>

definition cc_close :: "chat_link \<Rightarrow> chat_link" where
  "cc_close c = (if \<not> cc_connected c then c else c\<lparr>cc_connected := False, cc_write_queue := []\<rparr>)"

definition cc_doResolveAndConnect :: "chat_link \<Rightarrow> chat_link" where
  "cc_doResolveAndConnect c = (if cc_stopped c then c else c\<lparr>cc_resolves := Suc (cc_resolves c)\<rparr>)"

definition cc_start :: "chat_link \<Rightarrow> chat_link" where
  "cc_start c = cc_doResolveAndConnect c"

definition cc_stop :: "chat_link \<Rightarrow> chat_link" where
  "cc_stop c = cc_close (c\<lparr>cc_stopped := True, cc_cancelled := cc_cancelled c + cc_waits c, cc_waits := 0\<rparr>)"

definition cc_doConnect :: "chat_link \<Rightarrow> chat_link" where
  "cc_doConnect c = (if cc_stopped c then c else c\<lparr>cc_connects := Suc (cc_connects c)\<rparr>)"

definition cc_scheduleReconnect :: "chat_link \<Rightarrow> chat_link" where
  "cc_scheduleReconnect c =
     (if cc_stopped c then c
      else c\<lparr>cc_cancelled := cc_cancelled c + cc_waits c, cc_waits := 1\<rparr>)"

definition cc_doRead :: "chat_link \<Rightarrow> chat_link" where
  "cc_doRead c = c\<lparr>cc_reads := Suc (cc_reads c)\<rparr>"

text \<open>The completion handlers; the flag is the error code (\<open>True\<close>: an error).\<close>

definition cc_onResolved :: "bool \<Rightarrow> chat_link \<Rightarrow> chat_link" where
  "cc_onResolved ec c =
     (let c1 = c\<lparr>cc_resolves := cc_resolves c - 1\<rparr>
      in if ec then cc_scheduleReconnect c1 else cc_doConnect c1)"

definition cc_onConnected :: "bool \<Rightarrow> chat_link \<Rightarrow> chat_link" where
  "cc_onConnected ec c =
     (let c1 = c\<lparr>cc_connects := cc_connects c - 1\<rparr>
      in if ec then cc_scheduleReconnect c1 else cc_doRead (c1\<lparr>cc_connected := True\<rparr>))"

definition cc_onReconnectTimer :: "chat_link \<Rightarrow> chat_link" where
  "cc_onReconnectTimer c =
     (let c1 = c\<lparr>cc_waits := cc_waits c - 1\<rparr>
      in if cc_stopped c1 then c1 else cc_doResolveAndConnect c1)"

definition cc_onReconnectCancelled :: "chat_link \<Rightarrow> chat_link" where
  "cc_onReconnectCancelled c = c\<lparr>cc_cancelled := cc_cancelled c - 1\<rparr>"

definition cc_onRead :: "bool \<Rightarrow> chat_link \<Rightarrow> chat_link" where
  "cc_onRead ec c =
     (let c1 = c\<lparr>cc_reads := cc_reads c - 1\<rparr>
      in if ec then cc_scheduleReconnect (cc_close c1) else cc_doRead c1)"

definition cc_onWritten :: "bool \<Rightarrow> chat_link \<Rightarrow> chat_link option" where
  "cc_onWritten ec c =
     (let c1 = c\<lparr>cc_writes := cc_writes c - 1\<rparr>
      in if ec then Some (cc_scheduleReconnect (cc_close c1))
         else case cc_write_queue c1 of
             [] \<Rightarrow> None
           | f # fs \<Rightarrow>
               let c2 = c1\<lparr>cc_wire := cc_wire c1 @ [f], cc_write_queue := fs\<rparr>
               in Some (if fs \<noteq> [] then cc_doWrite c2 else c2))"

text \<open>The write path of a connected link, as a total function for the shared contract.\<close>

definition cc_written :: "chat_link \<Rightarrow> chat_link" where
  "cc_written c = (case cc_onWritten False c of Some c' \<Rightarrow> c' | None \<Rightarrow> c)"

interpretation cc_pump: write_pump cc_write_queue cc_writes cc_wire cc_connected cc_push cc_written
  by unfold_locales
    (auto simp: cc_push_def cc_doWrite_def cc_written_def cc_onWritten_def Let_def)

section \<open>Runs\<close>

text \<open>The handlers of the link: one runs only if its operation is outstanding. A step of the
  link is one of its handlers or a call of its owner.\<close>

inductive cc_handler :: "chat_link \<Rightarrow> chat_link \<Rightarrow> bool" where
  resolved: "0 < cc_resolves c \<Longrightarrow> cc_handler c (cc_onResolved ec c)"
| connected: "0 < cc_connects c \<Longrightarrow> cc_handler c (cc_onConnected ec c)"
| timer: "0 < cc_waits c \<Longrightarrow> cc_handler c (cc_onReconnectTimer c)"
| cancelled: "0 < cc_cancelled c \<Longrightarrow> cc_handler c (cc_onReconnectCancelled c)"
| reading: "0 < cc_reads c \<Longrightarrow> cc_handler c (cc_onRead ec c)"
| wrote: "0 < cc_writes c \<Longrightarrow> cc_onWritten ec c = Some c' \<Longrightarrow> cc_handler c c'"

inductive cc_step :: "chat_link \<Rightarrow> chat_link \<Rightarrow> bool" where
  handler: "cc_handler c c' \<Longrightarrow> cc_step c c'"
| created: "cc_step c (sendSessionCreated P session_id players c)"
| ended: "cc_step c (sendSessionEnded P session_id c)"
| stopped: "cc_step c (cc_stop c)"

inductive cc_reachable :: "chat_link \<Rightarrow> bool" where
  cc_init: "cc_reachable (cc_start ChatServerChannel_new)"
| cc_next: "cc_reachable c \<Longrightarrow> cc_step c c' \<Longrightarrow> cc_reachable c'"

lemmas cc_defs = cc_close_def cc_doResolveAndConnect_def cc_start_def cc_stop_def cc_doConnect_def
  cc_scheduleReconnect_def cc_doRead_def cc_onResolved_def cc_onConnected_def
  cc_onReconnectTimer_def cc_onReconnectCancelled_def cc_onRead_def cc_onWritten_def
  cc_doWrite_def cc_push_def cc_send_def sendSessionCreated_def sendSessionEnded_def

text \<open>
  What the handlers keep: while the link is not connected nothing is queued, and the link
  never gives up: unless it was stopped it is connected or has a resolve, a connect, a
  reconnect wait or a read outstanding that leads there.
\<close>

definition cc_inv :: "chat_link \<Rightarrow> bool" where
  "cc_inv c \<longleftrightarrow>
     (\<not> cc_connected c \<longrightarrow> cc_write_queue c = []) \<and> cc_waits c \<le> 1 \<and>
     (cc_connected c \<longrightarrow> 0 < cc_reads c) \<and>
     (\<not> cc_stopped c \<longrightarrow> cc_connected c \<or> 0 < cc_resolves c + cc_connects c + cc_waits c)"

lemma cc_handler_inv: "cc_handler c c' \<Longrightarrow> cc_inv c \<Longrightarrow> cc_inv c'"
  by (induction rule: cc_handler.induct)
    (auto simp: cc_inv_def cc_defs Let_def split: if_splits list.splits)

lemma cc_step_inv: "cc_step c c' \<Longrightarrow> cc_inv c \<Longrightarrow> cc_inv c'"
proof (induction rule: cc_step.induct)
  case (handler c c')
  then show ?case by (rule cc_handler_inv)
qed (auto simp: cc_inv_def cc_defs Let_def split: if_splits list.splits)

lemma cc_reachable_inv: "cc_reachable c \<Longrightarrow> cc_inv c"
proof (induction rule: cc_reachable.induct)
  case cc_init
  show ?case by (simp add: cc_inv_def cc_defs ChatServerChannel_new_def)
qed (rule cc_step_inv)

text \<open>C25. Until it is stopped the link keeps trying: in every reachable state it is connected
  with a read outstanding that will notice a broken connection, or a resolve, a connect or
  a reconnect wait is outstanding. Nothing waits in the queue of a link that is not
  connected, so no frame of an old connection is sent on a new one.\<close>

theorem chat_link_keeps_trying:
  assumes "cc_reachable c"
  shows "(cc_stopped c \<or> (cc_connected c \<and> 0 < cc_reads c) \<or>
          0 < cc_resolves c + cc_connects c + cc_waits c) \<and>
         (cc_connected c \<or> cc_write_queue c = [])"
  using cc_reachable_inv [OF assms] by (auto simp: cc_inv_def)

text \<open>A link that is connecting, and one that is connected with a frame being written.\<close>

lemma cc_reachable_connecting: "cc_reachable (ChatServerChannel_new\<lparr>cc_connects := 1\<rparr>)"
proof -
  have "cc_reachable (cc_onResolved False (cc_start ChatServerChannel_new))"
    by (rule cc_next [OF cc_init handler [OF resolved]]) (simp add: cc_defs ChatServerChannel_new_def)
  then show ?thesis by (simp add: cc_defs ChatServerChannel_new_def)
qed

lemma cc_reachable_connected:
  "cc_reachable (ChatServerChannel_new\<lparr>cc_connected := True, cc_reads := 1\<rparr>)"
proof -
  have "cc_reachable (cc_onConnected False (ChatServerChannel_new\<lparr>cc_connects := 1\<rparr>))"
    by (rule cc_next [OF cc_reachable_connecting handler [OF connected]]) simp
  then show ?thesis by (simp add: cc_defs ChatServerChannel_new_def)
qed

theorem chat_link_keeps_trying_witness:
  "\<exists>c. cc_reachable c \<and> \<not> cc_stopped c \<and> \<not> cc_connected c \<and>
     0 < cc_resolves c + cc_connects c + cc_waits c"
proof -
  let ?c = "ChatServerChannel_new\<lparr>cc_connects := 1\<rparr>"
  have "\<not> cc_stopped ?c \<and> \<not> cc_connected ?c" by (simp add: ChatServerChannel_new_def)
  with chat_link_keeps_trying [OF cc_reachable_connecting] cc_reachable_connecting show ?thesis by blast
qed

text \<open>\<open>stop\<close> does not stop a link that is just connecting: \<open>close\<close> returns early because
  the link is not connected yet, the connect handler does not look at \<open>stopped_\<close>, and the
  stopped link ends up connected with a read outstanding, which keeps \<open>io_context::run\<close>
  from returning.\<close>

theorem stopped_link_can_connect:
  "\<exists>c. cc_reachable c \<and> cc_stopped c \<and> cc_connected c \<and> 0 < cc_reads c"
proof -
  let ?c = "ChatServerChannel_new\<lparr>cc_connects := 1\<rparr>"
  have "cc_reachable (cc_stop ?c)"
    by (rule cc_next [OF cc_reachable_connecting stopped])
  then have "cc_reachable (cc_onConnected False (cc_stop ?c))"
    by (rule cc_next) (rule handler [OF connected], simp add: cc_defs ChatServerChannel_new_def)
  moreover have "cc_stopped (cc_onConnected False (cc_stop ?c)) \<and>
      cc_connected (cc_onConnected False (cc_stop ?c)) \<and> 0 < cc_reads (cc_onConnected False (cc_stop ?c))"
    by (simp add: cc_defs ChatServerChannel_new_def)
  ultimately show ?thesis by blast
qed

text \<open>The write handler can run on an empty queue: if the handler of a read error runs
  between the completion of a write and the handler of that write, \<open>close\<close> has cleared the
  queue and \<open>pop_front\<close> is undefined.\<close>

theorem write_handler_can_find_empty_queue:
  "\<exists>c. cc_reachable c \<and> 0 < cc_writes c \<and> cc_onWritten False c = None"
proof -
  let ?c = "ChatServerChannel_new\<lparr>cc_connected := True, cc_reads := 1\<rparr>"
  let ?P = "\<lparr>SerializeAsString = (\<lambda>_. []), ParseFromArray = (\<lambda>_. None)\<rparr> :: chat_envelope proto"
  let ?c1 = "sendSessionEnded ?P [] ?c"
  have "cc_reachable ?c1" by (rule cc_next [OF cc_reachable_connected ended])
  then have "cc_reachable (cc_onRead True ?c1)"
    by (rule cc_next) (rule handler [OF reading], simp add: cc_defs ChatServerChannel_new_def Let_def)
  moreover have "0 < cc_writes (cc_onRead True ?c1) \<and> cc_onWritten False (cc_onRead True ?c1) = None"
    by (simp add: cc_defs ChatServerChannel_new_def Let_def)
  ultimately show ?thesis by blast
qed

end
