(* ===== verification/Redis.thy ===== *)
theory Redis
  imports Prelude
begin

text \<open>
  \<open>RedisClient\<close> of \<open>src/src/common/redis/RedisClient.cpp\<close>. The Redis server and the
  redis-plus-plus client are not part of the repository: the record \<open>redis_api\<close> holds the
  commands of \<open>sw::redis::Redis\<close> the code calls, over an arbitrary server state, each
  returning a value (\<open>Inr\<close>) or throwing (\<open>Inl\<close>) and the state it leaves behind. Every
  definition that talks to Redis takes such a record.

  What the code relies on is stated as named predicates over a view of the server state
  (a string keyspace, counters with their time to live, lists); the theorems that need
  one have it as a hypothesis. A command that throws may or may not have run.
\<close>

type_synonym ('r, 'a) redis_op = "'r \<Rightarrow> (exn + 'a) \<times> 'r"

record 'r redis_api =
  sw_get :: "string \<Rightarrow> ('r, string option) redis_op"
  sw_set :: "string \<Rightarrow> string \<Rightarrow> ('r, bool) redis_op"
  sw_setex :: "string \<Rightarrow> int \<Rightarrow> string \<Rightarrow> ('r, unit) redis_op"
  sw_del :: "string \<Rightarrow> ('r, int) redis_op"
  sw_incr :: "string \<Rightarrow> ('r, int) redis_op"
  sw_expire :: "string \<Rightarrow> int \<Rightarrow> ('r, bool) redis_op"
  sw_sadd :: "string \<Rightarrow> string \<Rightarrow> ('r, int) redis_op"
  sw_srem :: "string \<Rightarrow> string \<Rightarrow> ('r, int) redis_op"
  sw_scard :: "string \<Rightarrow> ('r, int) redis_op"
  sw_exists :: "string \<Rightarrow> ('r, int) redis_op"
  sw_hset :: "string \<Rightarrow> string \<Rightarrow> string \<Rightarrow> ('r, int) redis_op"
  sw_hget :: "string \<Rightarrow> string \<Rightarrow> ('r, string option) redis_op"
  sw_hgetall :: "string \<Rightarrow> ('r, (string \<times> string) list) redis_op"
  sw_hdel :: "string \<Rightarrow> string \<Rightarrow> ('r, int) redis_op"
  sw_lpush :: "string \<Rightarrow> string \<Rightarrow> ('r, int) redis_op"
  sw_ltrim :: "string \<Rightarrow> int \<Rightarrow> int \<Rightarrow> ('r, unit) redis_op"
  sw_lrange :: "string \<Rightarrow> int \<Rightarrow> int \<Rightarrow> ('r, string list) redis_op"

section \<open>Sequencing commands that may throw\<close>

definition rreturn :: "'a \<Rightarrow> ('r, 'a) redis_op" where
  "rreturn x r = (Inr x, r)"

definition rbind :: "('r, 'a) redis_op \<Rightarrow> ('a \<Rightarrow> ('r, 'b) redis_op) \<Rightarrow> ('r, 'b) redis_op" where
  "rbind m f r = (case m r of (Inl e, r') \<Rightarrow> (Inl e, r') | (Inr x, r') \<Rightarrow> f x r')"

definition rmap :: "('a \<Rightarrow> 'b) \<Rightarrow> ('r, 'a) redis_op \<Rightarrow> ('r, 'b) redis_op" where
  "rmap f m = rbind m (\<lambda>x. rreturn (f x))"

text \<open>\<open>try { ... } catch (const std::exception&) { log }\<close>: the exception ends here.\<close>

definition rtry :: "('r, 'a) redis_op \<Rightarrow> 'r \<Rightarrow> 'r" where
  "rtry m r = snd (m r)"

lemma rbind_Inr [simp]: "m r = (Inr x, r') \<Longrightarrow> rbind m f r = f x r'"
  by (simp add: rbind_def)

lemma rbind_Inl [simp]: "m r = (Inl e, r') \<Longrightarrow> rbind m f r = (Inl e, r')"
  by (simp add: rbind_def)

lemma rbind_InrE:
  assumes "rbind m f r = (Inr y, r'')"
  obtains x r' where "m r = (Inr x, r')" "f x r' = (Inr y, r'')"
  using assms by (auto simp: rbind_def split: prod.splits sum.splits)

lemma rmap_Inr [simp]: "m r = (Inr x, r') \<Longrightarrow> rmap f m r = (Inr (f x), r')"
  by (simp add: rmap_def rreturn_def)

lemma rmap_Inl [simp]: "m r = (Inl e, r') \<Longrightarrow> rmap f m r = (Inl e, r')"
  by (simp add: rmap_def)

section \<open>RedisClient\<close>

definition RedisClient_get :: "'r redis_api \<Rightarrow> string \<Rightarrow> ('r, string option) redis_op" where
  "RedisClient_get R key = rbind (sw_get R key)
     (\<lambda>result. case result of Some v \<Rightarrow> rreturn (Some v) | None \<Rightarrow> rreturn None)"

definition RedisClient_set :: "'r redis_api \<Rightarrow> string \<Rightarrow> string \<Rightarrow> ('r, unit) redis_op" where
  "RedisClient_set R key value = rmap (\<lambda>_. ()) (sw_set R key value)"

definition RedisClient_setex :: "'r redis_api \<Rightarrow> string \<Rightarrow> string \<Rightarrow> int \<Rightarrow> ('r, unit) redis_op" where
  "RedisClient_setex R key value ttl = sw_setex R key ttl value"

definition RedisClient_del :: "'r redis_api \<Rightarrow> string \<Rightarrow> ('r, bool) redis_op" where
  "RedisClient_del R key = rmap (\<lambda>n. n > 0) (sw_del R key)"

definition RedisClient_incr :: "'r redis_api \<Rightarrow> string \<Rightarrow> ('r, int) redis_op" where
  "RedisClient_incr R key = sw_incr R key"

definition RedisClient_expire :: "'r redis_api \<Rightarrow> string \<Rightarrow> int \<Rightarrow> ('r, bool) redis_op" where
  "RedisClient_expire R key ttl = sw_expire R key ttl"

definition RedisClient_sadd :: "'r redis_api \<Rightarrow> string \<Rightarrow> string \<Rightarrow> ('r, int) redis_op" where
  "RedisClient_sadd R key member = sw_sadd R key member"

definition RedisClient_srem :: "'r redis_api \<Rightarrow> string \<Rightarrow> string \<Rightarrow> ('r, int) redis_op" where
  "RedisClient_srem R key member = sw_srem R key member"

definition RedisClient_scard :: "'r redis_api \<Rightarrow> string \<Rightarrow> ('r, int) redis_op" where
  "RedisClient_scard R key = sw_scard R key"

definition RedisClient_exists :: "'r redis_api \<Rightarrow> string \<Rightarrow> ('r, bool) redis_op" where
  "RedisClient_exists R key = rmap (\<lambda>n. n > 0) (sw_exists R key)"

definition RedisClient_hset ::
  "'r redis_api \<Rightarrow> string \<Rightarrow> string \<Rightarrow> string \<Rightarrow> ('r, unit) redis_op" where
  "RedisClient_hset R key field value = rmap (\<lambda>_. ()) (sw_hset R key field value)"

definition RedisClient_hget ::
  "'r redis_api \<Rightarrow> string \<Rightarrow> string \<Rightarrow> ('r, string option) redis_op" where
  "RedisClient_hget R key field = rbind (sw_hget R key field)
     (\<lambda>result. case result of Some v \<Rightarrow> rreturn (Some v) | None \<Rightarrow> rreturn None)"

text \<open>\<open>std::inserter\<close> into an \<open>unordered_map\<close> keeps the first entry of a key.\<close>

definition RedisClient_hgetall ::
  "'r redis_api \<Rightarrow> string \<Rightarrow> ('r, (string, string) umap) redis_op" where
  "RedisClient_hgetall R key = rmap
     (foldl (\<lambda>m (f, v). if umap_contains m f then m else umap_put f v m) []) (sw_hgetall R key)"

definition RedisClient_hdel :: "'r redis_api \<Rightarrow> string \<Rightarrow> string \<Rightarrow> ('r, bool) redis_op" where
  "RedisClient_hdel R key field = rmap (\<lambda>n. n > 0) (sw_hdel R key field)"

definition RedisClient_lpush :: "'r redis_api \<Rightarrow> string \<Rightarrow> string \<Rightarrow> ('r, int) redis_op" where
  "RedisClient_lpush R key value = sw_lpush R key value"

definition RedisClient_ltrim :: "'r redis_api \<Rightarrow> string \<Rightarrow> int \<Rightarrow> int \<Rightarrow> ('r, unit) redis_op" where
  "RedisClient_ltrim R key start stop = sw_ltrim R key start stop"

definition RedisClient_lrange ::
  "'r redis_api \<Rightarrow> string \<Rightarrow> int \<Rightarrow> int \<Rightarrow> ('r, string list) redis_op" where
  "RedisClient_lrange R key start stop = sw_lrange R key start stop"

lemmas RedisClient_defs =
  RedisClient_get_def RedisClient_set_def RedisClient_setex_def RedisClient_del_def
  RedisClient_incr_def RedisClient_expire_def RedisClient_sadd_def RedisClient_srem_def
  RedisClient_scard_def RedisClient_exists_def RedisClient_hset_def RedisClient_hget_def
  RedisClient_hgetall_def RedisClient_hdel_def RedisClient_lpush_def RedisClient_ltrim_def
  RedisClient_lrange_def

section \<open>What the code relies on\<close>

text \<open>The string commands, over the keyspace \<open>kv\<close> of the server state.\<close>

definition redis_strings :: "'r redis_api \<Rightarrow> ('r \<Rightarrow> string \<Rightarrow> string option) \<Rightarrow> bool" where
  "redis_strings R kv \<longleftrightarrow>
     (\<forall>k ttl v r r'. sw_setex R k ttl v r = (Inr (), r') \<longrightarrow> kv r' = (kv r)(k \<mapsto> v)) \<and>
     (\<forall>k x r r'. sw_get R k r = (Inr x, r') \<longrightarrow> x = kv r k \<and> kv r' = kv r) \<and>
     (\<forall>k n r r'. sw_del R k r = (Inr n, r') \<longrightarrow> kv r' = (kv r)(k := None))"

text \<open>
  \<open>INCR\<close> and \<open>EXPIRE\<close>, over the counters and times to live: a missing key counts from
  0 and gets no time to live, an existing one keeps it. \<open>EXPIRE\<close> with a positive time answers
  whether it set it: it does for a key that exists, as one that was counted up does, and leaves
  a missing key missing (a time that is not positive would delete the key). A command that
  throws is not constrained.
\<close>

definition redis_counters ::
  "'r redis_api \<Rightarrow> ('r \<Rightarrow> string \<Rightarrow> int) \<Rightarrow> ('r \<Rightarrow> string \<Rightarrow> int option) \<Rightarrow> bool" where
  "redis_counters R cnt ttl \<longleftrightarrow>
     (\<forall>k n r r'. sw_incr R k r = (Inr n, r') \<longrightarrow>
        n = cnt r k + 1 \<and> cnt r' = (cnt r)(k := n) \<and> ttl r' = ttl r) \<and>
     (\<forall>k t b r r'. sw_expire R k t r = (Inr b, r') \<longrightarrow> 0 < t \<longrightarrow>
        cnt r' = cnt r \<and> ttl r' = (if b then (ttl r)(k \<mapsto> t) else ttl r) \<and> (cnt r k \<noteq> 0 \<longrightarrow> b))"

text \<open>The list commands with non-negative indices, over the lists \<open>ls\<close> of the server state.\<close>

definition redis_lists :: "'r redis_api \<Rightarrow> ('r \<Rightarrow> string \<Rightarrow> string list) \<Rightarrow> bool" where
  "redis_lists R ls \<longleftrightarrow>
     (\<forall>k v n r r'. sw_lpush R k v r = (Inr n, r') \<longrightarrow> ls r' = (ls r)(k := v # ls r k)) \<and>
     (\<forall>k n r r'. sw_ltrim R k 0 (int n - 1) r = (Inr (), r') \<longrightarrow>
        0 < n \<longrightarrow> ls r' = (ls r)(k := take n (ls r k))) \<and>
     (\<forall>k n x r r'. sw_lrange R k 0 (int n - 1) r = (Inr x, r') \<longrightarrow>
        0 < n \<longrightarrow> x = take n (ls r k) \<and> ls r' = ls r) \<and>
     (\<forall>k t b r r'. sw_expire R k t r = (Inr b, r') \<longrightarrow> 0 < t \<longrightarrow> ls r' = ls r)"

lemma redis_stringsD:
  assumes "redis_strings R kv"
  shows "sw_setex R k t v r = (Inr u, r') \<Longrightarrow> kv r' = (kv r)(k \<mapsto> v)"
    and "sw_get R k r = (Inr x, r') \<Longrightarrow> x = kv r k \<and> kv r' = kv r"
    and "sw_del R k r = (Inr n, r') \<Longrightarrow> kv r' = (kv r)(k := None)"
  using assms unfolding redis_strings_def by (metis old.unit.exhaust)+

lemma redis_countersD:
  assumes "redis_counters R cnt ttl"
  shows "sw_incr R k r = (Inr n, r') \<Longrightarrow> n = cnt r k + 1 \<and> cnt r' = (cnt r)(k := n) \<and> ttl r' = ttl r"
    and "sw_expire R k t r = (Inr b, r') \<Longrightarrow> 0 < t \<Longrightarrow> cnt r k \<noteq> 0 \<Longrightarrow>
      cnt r' = cnt r \<and> ttl r' = (ttl r)(k \<mapsto> t)"
  using assms unfolding redis_counters_def by (blast, metis)

lemma redis_listsD:
  assumes "redis_lists R ls"
  shows "sw_lpush R k v r = (Inr m, r') \<Longrightarrow> ls r' = (ls r)(k := v # ls r k)"
    and "sw_ltrim R k 0 (int n - 1) r = (Inr (), r') \<Longrightarrow> 0 < n \<Longrightarrow> ls r' = (ls r)(k := take n (ls r k))"
    and "sw_lrange R k 0 (int n - 1) r = (Inr x, r') \<Longrightarrow> 0 < n \<Longrightarrow> x = take n (ls r k) \<and> ls r' = ls r"
    and "sw_expire R k t r = (Inr b, r') \<Longrightarrow> 0 < t \<Longrightarrow> ls r' = ls r"
  using assms unfolding redis_lists_def by blast+

end
