(* ===== verification/RedisServer.thy ===== *)
theory RedisServer
  imports Redis
begin

text \<open>
  A Redis server in memory that behaves as the commands are documented, to evaluate the
  definitions on and to show that the laws of \<open>Redis\<close> hold of such a server. There is one
  keyspace: a key holds a string, a set, a hash or a list, a command on a key of another type
  throws \<open>WRONGTYPE\<close>, a container that becomes empty is removed, \<open>SETEX\<close> wants a positive time,
  \<open>EXPIRE\<close> answers 0 for a missing key, and \<open>INCR\<close> works on the decimal text of a 64-bit number.
\<close>

datatype mem_value = RString string | RSet "string list" | RHash "(string, string) umap" | RList "string list"

record mem =
  mem_keys :: "(string, mem_value) umap"
  mem_ttl :: "(string, int) umap"

definition mem_empty :: mem where
  "mem_empty = \<lparr>mem_keys = [], mem_ttl = []\<rparr>"

section \<open>Numbers as text\<close>

definition show_int :: "int \<Rightarrow> string" where
  "show_int n = (if n < 0 then CHR ''-'' # to_string (nat (- n)) else to_string (nat n))"

definition is_int64 :: "int \<Rightarrow> bool" where
  "is_int64 n \<longleftrightarrow> - (2 ^ 63) \<le> n \<and> n < 2 ^ 63"

definition read_int :: "string \<Rightarrow> int option" where
  "read_int s =
     (let negative = (s \<noteq> [] \<and> hd s = CHR ''-'');
          ds = (if negative then tl s else s);
          v = (if negative then - digits_value ds else digits_value ds)
      in if ds = [] \<or> \<not> list_all is_digit ds \<or> \<not> is_int64 v \<or> (hd ds = CHR ''0'' \<and> s \<noteq> ''0'') then None
         else Some v)"

lemma to_string_leading_zero: "hd (to_string n) = CHR ''0'' \<Longrightarrow> n = 0"
proof (induction n rule: to_string.induct)
  case (1 n)
  have digit: "digit_char d = CHR ''0'' \<Longrightarrow> d < 10 \<Longrightarrow> d = 0" for d
    using digit_char_code(1) [of d] by auto
  show ?case
  proof (cases "n < 10")
    case True
    then show ?thesis using 1(2) digit [of n] by (simp add: to_string.simps [of n])
  next
    case False
    then have "hd (to_string (n div 10)) = CHR ''0''"
      using 1(2) to_string_nonempty [of "n div 10"] by (simp add: to_string.simps [of n])
    then have "n div 10 = 0" using 1(1) False by blast
    with False show ?thesis by simp
  qed
qed

lemma read_show: "is_int64 n \<Longrightarrow> read_int (show_int n) = Some n"
proof -
  assume n: "is_int64 n"
  have digits: "list_all is_digit (to_string m)" for m
    using to_string_digits [of m] by (simp add: list_all_iff)
  have minus: "hd (to_string m) \<noteq> CHR ''-''" for m
    using to_string_digits [of m] to_string_nonempty [of m]
    by (cases "to_string m") (auto simp: is_digit_def)
  have zero: "hd (to_string m) = CHR ''0'' \<Longrightarrow> to_string m = ''0'' \<and> m = 0" for m
    using to_string_leading_zero [of m] by (auto simp: to_string.simps [of 0] digit_char_def)
  show ?thesis
  proof (cases "n < 0")
    case True
    then have "hd (to_string (nat (- n))) \<noteq> CHR ''0''" using zero [of "nat (- n)"] by auto
    then show ?thesis using True n digits to_string_nonempty
      by (simp add: read_int_def show_int_def Let_def digits_value_to_string)
  next
    case False
    then show ?thesis using n digits minus zero [of "nat n"] to_string_nonempty
      by (auto simp: read_int_def show_int_def Let_def digits_value_to_string)
  qed
qed

section \<open>Commands\<close>

definition wrongtype :: "mem \<Rightarrow> (exn + 'a) \<times> mem" where
  "wrongtype r = (Inl ''WRONGTYPE Operation against a key holding the wrong kind of value'', r)"

definition mem_put :: "string \<Rightarrow> mem_value \<Rightarrow> mem \<Rightarrow> mem" where
  "mem_put k v r = r\<lparr>mem_keys := umap_put k v (mem_keys r)\<rparr>"

definition mem_remove :: "string \<Rightarrow> mem \<Rightarrow> mem" where
  "mem_remove k r = r\<lparr>mem_keys := umap_erase k (mem_keys r), mem_ttl := umap_erase k (mem_ttl r)\<rparr>"

text \<open>A container is kept as long as it is not empty.\<close>

definition mem_keep :: "string \<Rightarrow> 'a list \<Rightarrow> mem_value \<Rightarrow> mem \<Rightarrow> mem" where
  "mem_keep k xs v r = (if xs = [] then mem_remove k r else mem_put k v r)"

text \<open>The part of a list between two indices; a negative index counts from the end.\<close>

definition mem_range :: "int \<Rightarrow> int \<Rightarrow> 'a list \<Rightarrow> 'a list" where
  "mem_range a b xs =
     (let n = int (length xs);
          a' = max 0 (if a < 0 then n + a else a);
          b' = (if b < 0 then n + b else b)
      in take (nat (b' + 1 - a')) (drop (nat a') xs))"

definition mem_redis :: "mem redis_api" where
  "mem_redis = \<lparr>
     sw_get = (\<lambda>k r. case umap_find (mem_keys r) k of
         None \<Rightarrow> (Inr None, r) | Some (RString v) \<Rightarrow> (Inr (Some v), r) | _ \<Rightarrow> wrongtype r),
     sw_set = (\<lambda>k v r. (Inr True, mem_put k (RString v) (mem_remove k r))),
     sw_setex = (\<lambda>k t v r. if t \<le> 0 then (Inl ''ERR invalid expire time in 'setex' command'', r)
         else (Inr (), (mem_put k (RString v) r)\<lparr>mem_ttl := umap_put k t (mem_ttl r)\<rparr>)),
     sw_del = (\<lambda>k r. (Inr (if umap_contains (mem_keys r) k then 1 else 0), mem_remove k r)),
     sw_incr = (\<lambda>k r. case umap_find (mem_keys r) k of
         None \<Rightarrow> (Inr 1, mem_put k (RString (show_int 1)) r)
       | Some (RString v) \<Rightarrow> (case read_int v of
             None \<Rightarrow> (Inl ''ERR value is not an integer or out of range'', r)
           | Some n \<Rightarrow> if is_int64 (n + 1) then (Inr (n + 1), mem_put k (RString (show_int (n + 1))) r)
               else (Inl ''ERR increment or decrement would overflow'', r))
       | _ \<Rightarrow> wrongtype r),
     sw_expire = (\<lambda>k t r. if \<not> umap_contains (mem_keys r) k then (Inr False, r)
         else if t \<le> 0 then (Inr True, mem_remove k r)
         else (Inr True, r\<lparr>mem_ttl := umap_put k t (mem_ttl r)\<rparr>)),
     sw_sadd = (\<lambda>k x r. case umap_find (mem_keys r) k of
         None \<Rightarrow> (Inr 1, mem_put k (RSet [x]) r)
       | Some (RSet xs) \<Rightarrow> (Inr (if x \<in> set xs then 0 else 1), mem_put k (RSet (uset_insert x xs)) r)
       | _ \<Rightarrow> wrongtype r),
     sw_srem = (\<lambda>k x r. case umap_find (mem_keys r) k of
         None \<Rightarrow> (Inr 0, r)
       | Some (RSet xs) \<Rightarrow> (Inr (if x \<in> set xs then 1 else 0),
           mem_keep k (uset_erase x xs) (RSet (uset_erase x xs)) r)
       | _ \<Rightarrow> wrongtype r),
     sw_scard = (\<lambda>k r. case umap_find (mem_keys r) k of
         None \<Rightarrow> (Inr 0, r) | Some (RSet xs) \<Rightarrow> (Inr (int (length xs)), r) | _ \<Rightarrow> wrongtype r),
     sw_exists = (\<lambda>k r. (Inr (if umap_contains (mem_keys r) k then 1 else 0), r)),
     sw_hset = (\<lambda>k f v r. case umap_find (mem_keys r) k of
         None \<Rightarrow> (Inr 1, mem_put k (RHash [(f, v)]) r)
       | Some (RHash h) \<Rightarrow> (Inr (if umap_contains h f then 0 else 1), mem_put k (RHash (umap_put f v h)) r)
       | _ \<Rightarrow> wrongtype r),
     sw_hget = (\<lambda>k f r. case umap_find (mem_keys r) k of
         None \<Rightarrow> (Inr None, r) | Some (RHash h) \<Rightarrow> (Inr (umap_find h f), r) | _ \<Rightarrow> wrongtype r),
     sw_hgetall = (\<lambda>k r. case umap_find (mem_keys r) k of
         None \<Rightarrow> (Inr [], r) | Some (RHash h) \<Rightarrow> (Inr h, r) | _ \<Rightarrow> wrongtype r),
     sw_hdel = (\<lambda>k f r. case umap_find (mem_keys r) k of
         None \<Rightarrow> (Inr 0, r)
       | Some (RHash h) \<Rightarrow> (Inr (if umap_contains h f then 1 else 0),
           mem_keep k (umap_erase f h) (RHash (umap_erase f h)) r)
       | _ \<Rightarrow> wrongtype r),
     sw_lpush = (\<lambda>k v r. case umap_find (mem_keys r) k of
         None \<Rightarrow> (Inr 1, mem_put k (RList [v]) r)
       | Some (RList xs) \<Rightarrow> (Inr (int (length xs) + 1), mem_put k (RList (v # xs)) r)
       | _ \<Rightarrow> wrongtype r),
     sw_ltrim = (\<lambda>k a b r. case umap_find (mem_keys r) k of
         None \<Rightarrow> (Inr (), r)
       | Some (RList xs) \<Rightarrow> (Inr (), mem_keep k (mem_range a b xs) (RList (mem_range a b xs)) r)
       | _ \<Rightarrow> wrongtype r),
     sw_lrange = (\<lambda>k a b r. case umap_find (mem_keys r) k of
         None \<Rightarrow> (Inr [], r) | Some (RList xs) \<Rightarrow> (Inr (mem_range a b xs), r) | _ \<Rightarrow> wrongtype r)\<rparr>"

lemmas mem_defs = wrongtype_def mem_put_def mem_remove_def mem_keep_def

section \<open>The laws\<close>

definition mem_string :: "mem \<Rightarrow> string \<Rightarrow> string option" where
  "mem_string r k = (case umap_find (mem_keys r) k of Some (RString v) \<Rightarrow> Some v | _ \<Rightarrow> None)"

definition mem_count :: "mem \<Rightarrow> string \<Rightarrow> int" where
  "mem_count r k = (case mem_string r k of None \<Rightarrow> 0 | Some v \<Rightarrow> (case read_int v of None \<Rightarrow> 0 | Some n \<Rightarrow> n))"

definition mem_list :: "mem \<Rightarrow> string \<Rightarrow> string list" where
  "mem_list r k = (case umap_find (mem_keys r) k of Some (RList xs) \<Rightarrow> xs | _ \<Rightarrow> [])"

text \<open>Where a key is missing or holds a string (a list), no command on strings (on lists) throws.\<close>

definition holds_string :: "mem \<Rightarrow> string \<Rightarrow> bool" where
  "holds_string r k \<longleftrightarrow> (case umap_find (mem_keys r) k of None \<Rightarrow> True | Some (RString _) \<Rightarrow> True | _ \<Rightarrow> False)"

definition holds_list :: "mem \<Rightarrow> string \<Rightarrow> bool" where
  "holds_list r k \<longleftrightarrow> (case umap_find (mem_keys r) k of None \<Rightarrow> True | Some (RList _) \<Rightarrow> True | _ \<Rightarrow> False)"

lemma mem_views_put [simp]:
  "mem_string (mem_put k (RString v) r) = (mem_string r)(k \<mapsto> v)"
  "mem_list (mem_put k (RList xs) r) = (mem_list r)(k := xs)"
  "mem_string (mem_remove k r) = (mem_string r)(k := None)"
  "mem_list (mem_remove k r) = (mem_list r)(k := [])"
  "mem_string (r\<lparr>mem_ttl := t\<rparr>) = mem_string r"
  "mem_list (r\<lparr>mem_ttl := t\<rparr>) = mem_list r"
  by (auto simp: mem_string_def mem_list_def mem_put_def mem_remove_def fun_eq_iff)

lemma mem_setex: "sw_setex mem_redis k t v r = (Inr (), r') \<Longrightarrow> mem_string r' = (mem_string r)(k \<mapsto> v)"
  by (auto simp: mem_redis_def split: if_splits)

lemma mem_get: "sw_get mem_redis k r = (Inr x, r') \<Longrightarrow> x = mem_string r k \<and> r' = r"
  by (auto simp: mem_redis_def wrongtype_def mem_string_def split: option.splits mem_value.splits)

lemma mem_del: "sw_del mem_redis k r = (Inr n, r') \<Longrightarrow> mem_string r' = (mem_string r)(k := None)"
  by (auto simp: mem_redis_def)

lemma mem_redis_strings: "redis_strings mem_redis mem_string"
  unfolding redis_strings_def using mem_setex mem_get mem_del by blast

lemma mem_count_put: "is_int64 n \<Longrightarrow> mem_count (mem_put k (RString (show_int n)) r) = (mem_count r)(k := n)"
  by (rule ext) (simp add: mem_count_def read_show)

lemma mem_incr:
  assumes "sw_incr mem_redis k r = (Inr n, r')"
  shows "n = mem_count r k + 1 \<and> is_int64 n \<and> r' = mem_put k (RString (show_int n)) r"
proof (cases "umap_find (mem_keys r) k")
  case None
  then have "mem_count r k = 0" by (simp add: mem_count_def mem_string_def)
  with None show ?thesis using assms by (simp add: mem_redis_def is_int64_def)
next
  case (Some x)
  then obtain v where x: "x = RString v" using assms by (cases x) (auto simp: mem_redis_def wrongtype_def)
  with Some obtain m where m: "read_int v = Some m"
    using assms by (cases "read_int v") (auto simp: mem_redis_def)
  have "mem_count r k = m" using Some x m by (simp add: mem_count_def mem_string_def)
  with Some x m show ?thesis using assms by (auto simp: mem_redis_def split: if_splits)
qed

lemma mem_expire_counter:
  assumes "sw_expire mem_redis k t r = (Inr b, r')" and "0 < t"
  shows "mem_string r' = mem_string r" and "b \<longleftrightarrow> umap_find (mem_keys r) k \<noteq> None"
    and "umap_find (mem_ttl r') = (if b then (umap_find (mem_ttl r))(k \<mapsto> t) else umap_find (mem_ttl r))"
  using assms by (auto simp: mem_redis_def umap_contains_def fun_eq_iff split: if_splits)

lemma mem_redis_counters: "redis_counters mem_redis mem_count (\<lambda>r. umap_find (mem_ttl r))"
  unfolding redis_counters_def
proof (intro conjI allI impI)
  fix k n r r'
  assume "sw_incr mem_redis k r = (Inr n, r')"
  from mem_incr [OF this]
  show "n = mem_count r k + 1" and "mem_count r' = (mem_count r)(k := n)"
    and "umap_find (mem_ttl r') = umap_find (mem_ttl r)"
    by (auto simp: mem_count_put mem_put_def [of k _ r, THEN arg_cong, of mem_ttl])
next
  fix k t b r r'
  assume "sw_expire mem_redis k t r = (Inr b, r')" and "0 < t"
  note e = mem_expire_counter [OF this]
  show "mem_count r' = mem_count r" using e(1) by (simp add: mem_count_def fun_eq_iff)
  show "umap_find (mem_ttl r') = (if b then (umap_find (mem_ttl r))(k \<mapsto> t) else umap_find (mem_ttl r))"
    by (rule e(3))
  assume "mem_count r k \<noteq> 0"
  then show b using e(2) by (auto simp: mem_count_def mem_string_def)
qed

lemma mem_range_first: "0 < n \<Longrightarrow> mem_range 0 (int n - 1) xs = take n xs"
  by (simp add: mem_range_def)

lemma mem_lpush: "sw_lpush mem_redis k v r = (Inr n, r') \<Longrightarrow> mem_list r' = (mem_list r)(k := v # mem_list r k)"
  by (auto simp: mem_redis_def wrongtype_def mem_list_def [of r] split: option.splits mem_value.splits)

lemma mem_list_keep: "mem_list (mem_keep k xs (RList xs) r) = (mem_list r)(k := xs)"
  by (simp add: mem_keep_def)

lemma mem_ltrim:
  assumes "sw_ltrim mem_redis k a b r = (Inr (), r')"
  shows "mem_list r' = (mem_list r)(k := mem_range a b (mem_list r k))"
proof (cases "umap_find (mem_keys r) k")
  case None
  then have "mem_list r k = []" and "r' = r" using assms by (auto simp: mem_redis_def mem_list_def)
  then show ?thesis by (simp add: mem_range_def Let_def fun_upd_idem)
next
  case (Some x)
  then obtain xs where x: "x = RList xs" using assms by (cases x) (auto simp: mem_redis_def wrongtype_def)
  then have "mem_list r k = xs" and "r' = mem_keep k (mem_range a b xs) (RList (mem_range a b xs)) r"
    using assms Some by (auto simp: mem_redis_def mem_list_def)
  then show ?thesis by (simp add: mem_list_keep)
qed

lemma mem_lrange: "sw_lrange mem_redis k a b r = (Inr x, r') \<Longrightarrow> x = mem_range a b (mem_list r k) \<and> r' = r"
  by (auto simp: mem_redis_def wrongtype_def mem_list_def mem_range_def split: option.splits mem_value.splits)

lemma mem_expire: "sw_expire mem_redis k t r = (Inr b, r') \<Longrightarrow> 0 < t \<Longrightarrow> mem_list r' = mem_list r"
  by (auto simp: mem_redis_def split: if_splits)

lemma mem_list_commands:
  assumes "holds_list r k"
  shows "\<exists>n r'. sw_lpush mem_redis k v r = (Inr n, r') \<and> holds_list r' k"
    and "\<exists>r'. sw_ltrim mem_redis k a b r = (Inr (), r') \<and> holds_list r' k"
    and "\<exists>x r'. sw_lrange mem_redis k a b r = (Inr x, r') \<and> holds_list r' k"
    and "\<exists>x r'. sw_expire mem_redis k t r = (Inr x, r') \<and> holds_list r' k"
proof -
  have kinds: "umap_find (mem_keys r) k = None \<or> (\<exists>xs. umap_find (mem_keys r) k = Some (RList xs))"
    using assms by (auto simp: holds_list_def split: option.splits mem_value.splits)
  then show "\<exists>n r'. sw_lpush mem_redis k v r = (Inr n, r') \<and> holds_list r' k"
    by (auto simp: mem_redis_def mem_put_def holds_list_def)
  from kinds show "\<exists>r'. sw_ltrim mem_redis k a b r = (Inr (), r') \<and> holds_list r' k"
    by (auto simp: mem_redis_def mem_put_def mem_remove_def mem_keep_def holds_list_def)
  from kinds show "\<exists>x r'. sw_lrange mem_redis k a b r = (Inr x, r') \<and> holds_list r' k"
    by (auto simp: mem_redis_def holds_list_def)
  from kinds show "\<exists>x r'. sw_expire mem_redis k t r = (Inr x, r') \<and> holds_list r' k"
    by (auto simp: mem_redis_def mem_remove_def holds_list_def)
qed

lemma mem_redis_lists: "redis_lists mem_redis mem_list"
proof -
  have "x = take n (mem_list r k) \<and> mem_list r' = mem_list r"
    if "sw_lrange mem_redis k 0 (int n - 1) r = (Inr x, r')" and "0 < n" for k n x r r'
    using mem_lrange [OF that(1)] mem_range_first [OF that(2)] by metis
  moreover have "mem_list r' = (mem_list r)(k := take n (mem_list r k))"
    if "sw_ltrim mem_redis k 0 (int n - 1) r = (Inr (), r')" and "0 < n" for k n r r'
    using mem_ltrim [OF that(1)] mem_range_first [OF that(2)] by metis
  ultimately show ?thesis unfolding redis_lists_def using mem_lpush mem_expire by blast
qed

text \<open>The same server with \<open>EXPIRE\<close> failing, as when the connection is lost in between.\<close>

definition mem_redis_no_expire :: "mem redis_api" where
  "mem_redis_no_expire = mem_redis\<lparr>sw_expire := (\<lambda>k t r. (Inl ''Connection reset by peer'', r))\<rparr>"

lemma mem_redis_no_expire_counters: "redis_counters mem_redis_no_expire mem_count (\<lambda>r. umap_find (mem_ttl r))"
  using mem_redis_counters by (auto simp: redis_counters_def mem_redis_no_expire_def)

end
