(* ===== verification/Uuid.thy ===== *)
theory Uuid
  imports Prelude
begin

text \<open>
  \<open>generateUuid\<close> of \<open>src/src/common/util/UuidGenerator.cpp\<close>: four 32-bit draws of the
  thread's generator, two of them masked to carry the version and variant of RFC 4122,
  printed with \<open>snprintf\<close>. The generator is its sequence of draws and the number of
  draws taken so far; nothing is assumed about the values.
\<close>

record rng =
  draws :: "nat \<Rightarrow> u32"
  drawn :: nat

section \<open>Hexadecimal printing\<close>

definition hex_digit :: "nat \<Rightarrow> char" where
  "hex_digit d = (if d < 10 then char_of (48 + d) else char_of (87 + d))"

fun hex :: "nat \<Rightarrow> string" where
  "hex n = (if n < 16 then [hex_digit n] else hex (n div 16) @ [hex_digit (n mod 16)])"

declare hex.simps [simp del]

text \<open>The conversion \<open>%0Nx\<close>: at least \<open>N\<close> digits, padded with zeros on the left.\<close>

definition format_0x :: "nat \<Rightarrow> u32 \<Rightarrow> string" where
  "format_0x w x = (let s = hex (unat x) in replicate (w - length s) (CHR ''0'') @ s)"

text \<open>The same digits computed on integers, for evaluation.\<close>

function hex_int :: "int \<Rightarrow> string" where
  "hex_int n = (if n < 16 then [hex_digit (nat n)] else hex_int (n div 16) @ [hex_digit (nat (n mod 16))])"
  by pat_completeness auto
termination
  by (relation "measure nat") auto

declare hex_int.simps [simp del]

lemma hex_int_eq: "0 \<le> n \<Longrightarrow> hex_int n = hex (nat n)"
proof (induction n rule: hex_int.induct)
  case (1 n)
  then show ?case
    by (subst hex_int.simps, subst hex.simps) (auto simp: nat_div_distrib nat_mod_distrib nat_less_iff)
qed

lemma format_0x_code [code]:
  "format_0x w x = (let s = hex_int (uint x) in replicate (w - length s) (CHR ''0'') @ s)"
  by (simp add: format_0x_def hex_int_eq nat_uint_eq)

definition uuid_string :: "u32 \<Rightarrow> u32 \<Rightarrow> u32 \<Rightarrow> u32 \<Rightarrow> string" where
  "uuid_string data0 data1 data2 data3 =
     take 36 (format_0x 8 data0 @ ''-'' @
       format_0x 4 (drop_bit 16 data1) @ ''-'' @
       format_0x 4 (data1 AND 0xFFFF) @ ''-'' @
       format_0x 4 (drop_bit 16 data2) @ ''-'' @
       format_0x 4 (data2 AND 0xFFFF) @
       format_0x 8 data3)"

definition version_mask :: "u32 \<Rightarrow> u32" where
  "version_mask d = (d AND 0xFFFF0FFF) OR 0x00004000"

definition variant_mask :: "u32 \<Rightarrow> u32" where
  "variant_mask d = (d AND 0x3FFFFFFF) OR 0x80000000"

definition generateUuid :: "rng \<Rightarrow> string \<times> rng" where
  "generateUuid g =
     (let d = (\<lambda>i. draws g (drawn g + i))
      in (uuid_string (d 0) (version_mask (d 1)) (variant_mask (d 2)) (d 3),
          g\<lparr>drawn := drawn g + 4\<rparr>))"

section \<open>Fixed-width digits\<close>

text \<open>The digits a number below \<open>16 ^ w\<close> is printed with.\<close>

fun hex_fixed :: "nat \<Rightarrow> nat \<Rightarrow> string" where
  "hex_fixed 0 n = []"
| "hex_fixed (Suc w) n = hex_fixed w (n div 16) @ [hex_digit (n mod 16)]"

lemma length_hex_fixed [simp]: "length (hex_fixed w n) = w"
  by (induction w arbitrary: n) auto

lemma hex_digit_0 [simp]: "hex_digit 0 = CHR ''0''"
  by code_simp

lemma hex_fixed_0: "hex_fixed w 0 = replicate w (CHR ''0'')"
  by (induction w) (auto simp: replicate_append_same)

lemma hex_padded:
  assumes "n < 16 ^ w" and "0 < w"
  shows "replicate (w - length (hex n)) (CHR ''0'') @ hex n = hex_fixed w n"
  using assms
proof (induction w arbitrary: n)
  case (Suc w)
  show ?case
  proof (cases "n < 16")
    case True
    then show ?thesis by (simp add: hex.simps [of n] hex_fixed_0)
  next
    case False
    with Suc.prems have "0 < w" by (cases w) auto
    moreover have "n div 16 < 16 ^ w" using Suc.prems by (simp add: less_mult_imp_div_less)
    ultimately show ?thesis
      using Suc.IH [of "n div 16"] False by (simp add: hex.simps [of n])
  qed
qed simp

lemma hex_digit_inj: "hex_digit a = hex_digit b \<Longrightarrow> a < 16 \<Longrightarrow> b < 16 \<Longrightarrow> a = b"
  by (auto simp: hex_digit_def split: if_splits)

lemma hex_fixed_inj:
  "hex_fixed w a = hex_fixed w b \<Longrightarrow> a < 16 ^ w \<Longrightarrow> b < 16 ^ w \<Longrightarrow> a = b"
proof (induction w arbitrary: a b)
  case (Suc w)
  from Suc.prems(1) have "hex_fixed w (a div 16) = hex_fixed w (b div 16)"
    and "hex_digit (a mod 16) = hex_digit (b mod 16)" by auto
  with Suc.IH [of "a div 16" "b div 16"] Suc.prems(2,3) have "a div 16 = b div 16" "a mod 16 = b mod 16"
    by (simp_all add: less_mult_imp_div_less hex_digit_inj)
  then show ?case by (metis div_mult_mod_eq)
qed simp

lemma format_8: "format_0x 8 x = hex_fixed 8 (unat x)"
proof -
  have "unat x < 16 ^ 8" using unsigned_less [of x, where 'a = nat] by simp
  then show ?thesis by (simp add: format_0x_def Let_def hex_padded)
qed

lemma format_4:
  assumes "unat x < 65536"
  shows "format_0x 4 x = hex_fixed 4 (unat x)"
  using assms by (simp add: format_0x_def Let_def hex_padded)

lemma unat_high: "unat (drop_bit 16 (x :: u32)) < 65536"
proof -
  have "unat x < 2 ^ 32" using unsigned_less [of x, where 'a = nat] by simp
  then have "unat x div 2 ^ 16 < 65536" by simp
  then show ?thesis by (simp only: unat_drop_bit_eq drop_bit_eq_div [where 'a = nat])
qed

lemma unat_low: "unat ((x :: u32) AND 0xFFFF) < 65536"
proof -
  have "x AND 0xFFFF \<le> 0xFFFF" by (rule word_and_le1)
  then show ?thesis by (simp add: word_le_nat_alt)
qed

lemma uuid_string_eq:
  "uuid_string a b c d =
     hex_fixed 8 (unat a) @ ''-'' @ hex_fixed 4 (unat (drop_bit 16 b)) @ ''-'' @
     hex_fixed 4 (unat (b AND 0xFFFF)) @ ''-'' @ hex_fixed 4 (unat (drop_bit 16 c)) @ ''-'' @
     hex_fixed 4 (unat (c AND 0xFFFF)) @ hex_fixed 8 (unat d)"
  by (simp add: uuid_string_def format_8 format_4 unat_high unat_low)

lemma length_uuid_string: "length (uuid_string a b c d) = 36"
  by (simp add: uuid_string_eq)

section \<open>Version and variant\<close>

lemma unat_div_drop_bit: "unat (x :: u32) div 2 ^ n = unat (drop_bit n x)"
  by (simp only: unat_drop_bit_eq drop_bit_eq_div [where 'a = nat])

lemma version_nibble: "unat (version_mask d AND 0xFFFF) div 2 ^ 12 = 4"
proof -
  have "version_mask d AND 0xFFFF = (d AND 0xFFF) OR 0x4000"
    by (simp add: version_mask_def bit.conj_disj_distrib2 and.assoc)
  then have "drop_bit 12 (version_mask d AND 0xFFFF) = (drop_bit 12 d AND drop_bit 12 0xFFF) OR drop_bit 12 0x4000"
    by (simp only: drop_bit_or drop_bit_and)
  also have "\<dots> = 4" by simp
  finally show ?thesis by (simp only: unat_div_drop_bit) simp
qed

lemma variant_nibble: "unat (drop_bit 16 (variant_mask d)) div 2 ^ 12 \<in> {8, 9, 10, 11}"
proof -
  let ?x = "drop_bit 28 d AND 3"
  have "drop_bit 12 (drop_bit 16 (variant_mask d)) = ?x OR 8"
    by (simp add: variant_mask_def drop_bit_or drop_bit_and drop_bit_drop_bit)
  moreover have "?x \<le> 3" by (rule word_and_le1)
  then have "unat ?x \<le> 3" by (simp add: word_le_nat_alt)
  then have "unat ?x = unat (0 :: u32) \<or> unat ?x = unat (1 :: u32) \<or>
      unat ?x = unat (2 :: u32) \<or> unat ?x = unat (3 :: u32)"
    by simp linarith
  then have "?x \<in> {0, 1, 2, 3}" by (simp only: word_unat_eq_iff [symmetric] insert_iff) blast
  then have "unat (?x OR 8) \<in> {8, 9, 10, 11}" by auto
  ultimately show ?thesis by (simp only: unat_div_drop_bit)
qed

section \<open>The identifiers\<close>

lemma hex_fixed_4: "hex_fixed 4 n =
    [hex_digit (n div 2 ^ 12 mod 16), hex_digit (n div 256 mod 16),
     hex_digit (n div 16 mod 16), hex_digit (n mod 16)]"
proof -
  have four: "(4 :: nat) = Suc (Suc (Suc (Suc 0)))" by simp
  show ?thesis by (subst four) (simp flip: div_mult2_eq)
qed

definition is_hex :: "char \<Rightarrow> bool" where
  "is_hex c \<longleftrightarrow> c \<in> set ''0123456789abcdef''"

lemma is_hex_digit: "d < 16 \<Longrightarrow> is_hex (hex_digit d)"
proof -
  assume "d < 16"
  then have "d \<in> set [0..<16]" by simp
  moreover have "\<forall>e \<in> set [0..<16]. is_hex (hex_digit e)"
    by code_simp
  ultimately show ?thesis by blast
qed

lemma is_hex_fixed: "\<forall>c \<in> set (hex_fixed w n). is_hex c"
  by (induction w arbitrary: n) (auto intro: is_hex_digit)

lemma is_hex_fixed_nth: "i < w \<Longrightarrow> is_hex (hex_fixed w n ! i)"
  using is_hex_fixed by (metis length_hex_fixed nth_mem)

lemma uuid_string_chars:
  "i < 36 \<Longrightarrow> if i \<in> {8, 13, 18, 23} then uuid_string a b c d ! i = CHR ''-''
    else is_hex (uuid_string a b c d ! i)"
  by (auto simp: uuid_string_eq nth_append nth_Cons' is_hex_fixed_nth)

lemma uuid_string_14: "uuid_string a b c d ! 14 = hex_digit (unat (b AND 0xFFFF) div 2 ^ 12 mod 16)"
  by (simp add: uuid_string_eq nth_append hex_fixed_4)

lemma uuid_string_19: "uuid_string a b c d ! 19 = hex_digit (unat (drop_bit 16 c) div 2 ^ 12 mod 16)"
  by (simp add: uuid_string_eq nth_append hex_fixed_4)

text \<open>C26. Every generated identifier has the shape of a version 4 UUID: 36 characters,
  hyphens at positions 8, 13, 18 and 23 and lower-case hexadecimal digits elsewhere, the
  digit \<open>4\<close> at position 14 and one of \<open>8\<close>, \<open>9\<close>, \<open>a\<close>, \<open>b\<close> at position 19.\<close>

theorem generateUuid_format:
  "let u = fst (generateUuid g) in
     length u = 36 \<and>
     (\<forall>i. 36 \<le> i \<or> (if i \<in> {8, 13, 18, 23} then u ! i = CHR ''-'' else is_hex (u ! i))) \<and>
     u ! 14 = CHR ''4'' \<and> u ! 19 \<in> {CHR ''8'', CHR ''9'', CHR ''a'', CHR ''b''}"
proof -
  have "hex_digit (unat (version_mask d AND 0xFFFF) div 2 ^ 12 mod 16) = CHR ''4''" for d
    by (simp only: version_nibble) code_simp
  moreover have "hex_digit (unat (drop_bit 16 (variant_mask d)) div 2 ^ 12 mod 16)
      \<in> {CHR ''8'', CHR ''9'', CHR ''a'', CHR ''b''}" for d
  proof -
    have "hex_digit ` (\<lambda>n. n mod 16) ` {8, 9, 10, 11} = {CHR ''8'', CHR ''9'', CHR ''a'', CHR ''b''}"
      by code_simp
    then show ?thesis using variant_nibble [of d] by blast
  qed
  ultimately show ?thesis
    using uuid_string_chars linorder_not_le
    by (simp only: generateUuid_def Let_def fst_conv length_uuid_string uuid_string_14 uuid_string_19)
      blast
qed

lemma hex_fixed_unat_inj:
  assumes "unat x < 16 ^ w" and "unat y < 16 ^ w"
  shows "hex_fixed w (unat x) = hex_fixed w (unat y) \<longleftrightarrow> x = (y :: u32)"
  using assms hex_fixed_inj by (auto simp: word_unat_eq_iff)

lemma split_halves:
  "(b :: u32) = b' \<longleftrightarrow> drop_bit 16 b = drop_bit 16 b' \<and> b AND 0xFFFF = b' AND 0xFFFF"
proof -
  have "push_bit 16 (drop_bit 16 x) + (x AND 0xFFFF) = x" for x :: u32
    using bits_ident [of 16 x] by (simp add: take_bit_eq_mask mask_eq_exp_minus_1)
  then show ?thesis by metis
qed

lemma uuid_string_inj:
  "uuid_string a b c d = uuid_string a' b' c' d' \<longleftrightarrow> a = a' \<and> b = b' \<and> c = c' \<and> d = d'"
proof -
  have lt8: "unat x < 16 ^ 8" for x :: u32
    using unsigned_less [of x, where 'a = nat] by simp
  have lt4: "unat (drop_bit 16 x) < 16 ^ 4" "unat (x AND 0xFFFF) < 16 ^ 4" for x :: u32
    using unat_high [of x] unat_low [of x] by simp_all
  show ?thesis
    by (auto simp: uuid_string_eq hex_fixed_unat_inj [OF lt8 lt8] hex_fixed_unat_inj [OF lt4(1) lt4(1)]
        hex_fixed_unat_inj [OF lt4(2) lt4(2)] split_halves [of b] split_halves [of c])
qed

lemma version_mask_eq_iff: "version_mask x = version_mask y \<longleftrightarrow> x AND 0xFFFF0FFF = y AND 0xFFFF0FFF"
proof -
  have "version_mask z AND 0xFFFF0FFF = z AND 0xFFFF0FFF" for z
    by (simp add: version_mask_def bit.conj_disj_distrib2 and.assoc)
  then show ?thesis by (metis version_mask_def)
qed

lemma variant_mask_eq_iff: "variant_mask x = variant_mask y \<longleftrightarrow> x AND 0x3FFFFFFF = y AND 0x3FFFFFFF"
proof -
  have "variant_mask z AND 0x3FFFFFFF = z AND 0x3FFFFFFF" for z
    by (simp add: variant_mask_def bit.conj_disj_distrib2 and.assoc)
  then show ?thesis by (metis variant_mask_def)
qed

text \<open>C27. Two identifiers are equal exactly if their draws agree in all 122 bits that the
  version and variant masks leave free: nothing is lost in masking or printing.\<close>

theorem generateUuid_eq_iff:
  "fst (generateUuid g) = fst (generateUuid h) \<longleftrightarrow>
     draws g (drawn g) = draws h (drawn h) \<and>
     draws g (drawn g + 1) AND 0xFFFF0FFF = draws h (drawn h + 1) AND 0xFFFF0FFF \<and>
     draws g (drawn g + 2) AND 0x3FFFFFFF = draws h (drawn h + 2) AND 0x3FFFFFFF \<and>
     draws g (drawn g + 3) = draws h (drawn h + 3)"
  by (simp add: generateUuid_def Let_def uuid_string_inj version_mask_eq_iff variant_mask_eq_iff)

section \<open>Identifiers drawn so far\<close>

text \<open>
  The identifiers a generator has produced. A run of a server is free of collisions as
  long as the identifiers it has drawn are pairwise distinct.
\<close>

definition uuid_at :: "(nat \<Rightarrow> u32) \<Rightarrow> nat \<Rightarrow> string" where
  "uuid_at ds i = fst (generateUuid \<lparr>draws = ds, drawn = i\<rparr>)"

definition issued :: "rng \<Rightarrow> string list" where
  "issued g = map (\<lambda>k. uuid_at (draws g) (drawn g mod 4 + 4 * k)) [0..<drawn g div 4]"

definition uuids_fresh :: "rng \<Rightarrow> bool" where
  "uuids_fresh g = distinct (issued g)"

lemma issued_generateUuid:
  "issued (snd (generateUuid g)) = issued g @ [fst (generateUuid g)]"
proof -
  have "draws (snd (generateUuid g)) = draws g" "drawn (snd (generateUuid g)) = drawn g + 4"
    by (simp_all add: generateUuid_def Let_def)
  moreover have "fst (generateUuid g) = uuid_at (draws g) (drawn g)"
    by (simp add: uuid_at_def generateUuid_def)
  moreover have "(drawn g + 4) div 4 = Suc (drawn g div 4)" by simp
  ultimately show ?thesis by (simp add: issued_def)
qed

lemma uuid_nonempty: "fst (generateUuid g) \<noteq> []"
proof -
  have "length (fst (generateUuid g)) = 36"
    by (simp add: generateUuid_def Let_def length_uuid_string)
  then show ?thesis by auto
qed

end
