(* ===== verification/SessionStore.thy ===== *)
theory SessionStore
  imports RedisServer Uuid
begin

text \<open>
  \<open>SessionStore\<close> of \<open>src/src/common/redis/SessionStore.cpp\<close>: one-time entry tokens,
  the set of active game sessions and the heartbeat keys of the game servers, all in
  Redis. The token value is a JSON object; nlohmann/json is not part of the repository,
  so building, dumping, parsing and reading a JSON value are the functions of the record
  \<open>json_api\<close>.
\<close>

datatype json = JNull | JBool bool | JNumber int | JString string
  | JArray "json list" | JObject "(string \<times> json) list"

record json_api =
  json_dump :: "json \<Rightarrow> exn + string"
  json_parse :: "string \<Rightarrow> exn + json"
  json_at :: "json \<Rightarrow> string \<Rightarrow> exn + json"
  json_get_string :: "json \<Rightarrow> exn + string"

record token_data =
  td_player_id :: string
  td_session_id :: string

record 'r session_store =
  ss_redis :: "'r redis_api"
  ss_json :: json_api
  ss_token_ttl :: int
  ss_heartbeat_ttl :: int

definition SessionStore_new ::
  "'r redis_api \<Rightarrow> json_api \<Rightarrow> int \<Rightarrow> int \<Rightarrow> 'r session_store" where
  "SessionStore_new R J token_ttl heartbeat_ttl =
     \<lparr>ss_redis = R, ss_json = J, ss_token_ttl = token_ttl, ss_heartbeat_ttl = heartbeat_ttl\<rparr>"

section \<open>Operations\<close>

definition token_key :: "string \<Rightarrow> string" where
  "token_key token = ''token:'' @ token"

definition token_json :: "string \<Rightarrow> string \<Rightarrow> json" where
  "token_json player_id session_id =
     JObject [(''player_id'', JString player_id), (''session_id'', JString session_id)]"

definition createToken ::
  "'r session_store \<Rightarrow> string \<Rightarrow> string \<Rightarrow> rng \<Rightarrow> 'r \<Rightarrow> (exn + string) \<times> rng \<times> 'r" where
  "createToken S player_id session_id g r =
     (let (token, g') = generateUuid g in
      case json_dump (ss_json S) (token_json player_id session_id) of
        Inl e \<Rightarrow> (Inl e, g', r)
      | Inr value \<Rightarrow>
          (case RedisClient_setex (ss_redis S) (token_key token) value (ss_token_ttl S) r of
             (Inl e, r') \<Rightarrow> (Inl e, g', r')
           | (Inr _, r') \<Rightarrow> (Inr token, g', r')))"

text \<open>The body of the \<open>try\<close> block of \<open>validateToken\<close>: any exception makes it \<open>None\<close>.\<close>

definition parse_token :: "json_api \<Rightarrow> string \<Rightarrow> token_data option" where
  "parse_token J text =
     (case json_parse J text of Inl _ \<Rightarrow> None | Inr j \<Rightarrow>
      (case json_at J j ''player_id'' of Inl _ \<Rightarrow> None | Inr jp \<Rightarrow>
      (case json_get_string J jp of Inl _ \<Rightarrow> None | Inr pid \<Rightarrow>
      (case json_at J j ''session_id'' of Inl _ \<Rightarrow> None | Inr js \<Rightarrow>
      (case json_get_string J js of Inl _ \<Rightarrow> None | Inr sid \<Rightarrow>
        Some \<lparr>td_player_id = pid, td_session_id = sid\<rparr>)))))"

definition validateToken :: "'r session_store \<Rightarrow> string \<Rightarrow> ('r, token_data option) redis_op" where
  "validateToken S token =
     (let key = token_key token in
      rbind (RedisClient_get (ss_redis S) key) (\<lambda>result.
        case result of
          None \<Rightarrow> rreturn None
        | Some text \<Rightarrow>
            rbind (RedisClient_del (ss_redis S) key) (\<lambda>_.
              rreturn (parse_token (ss_json S) text))))"

definition registerGameSession :: "'r session_store \<Rightarrow> string \<Rightarrow> ('r, int) redis_op" where
  "registerGameSession S session_id = RedisClient_sadd (ss_redis S) ''active_sessions'' session_id"

definition unregisterGameSession :: "'r session_store \<Rightarrow> string \<Rightarrow> ('r, int) redis_op" where
  "unregisterGameSession S session_id = RedisClient_srem (ss_redis S) ''active_sessions'' session_id"

definition game_server_key :: "string \<Rightarrow> string" where
  "game_server_key server_id = ''game_server:'' @ server_id"

definition updateGameServerHeartbeat :: "'r session_store \<Rightarrow> string \<Rightarrow> ('r, unit) redis_op" where
  "updateGameServerHeartbeat S server_id =
     RedisClient_setex (ss_redis S) (game_server_key server_id) ''alive'' (ss_heartbeat_ttl S)"

definition isGameServerAlive :: "'r session_store \<Rightarrow> string \<Rightarrow> ('r, bool) redis_op" where
  "isGameServerAlive S server_id = RedisClient_exists (ss_redis S) (game_server_key server_id)"

section \<open>Behaviour\<close>

text \<open>What nlohmann/json promises for the token of one player: it reads back.\<close>

definition token_json_ok :: "json_api \<Rightarrow> string \<Rightarrow> string \<Rightarrow> bool" where
  "token_json_ok J player_id session_id \<longleftrightarrow>
     (\<exists>txtv. json_dump J (token_json player_id session_id) = Inr txtv \<and>
        json_parse J txtv = Inr (token_json player_id session_id)) \<and>
     json_at J (token_json player_id session_id) ''player_id'' = Inr (JString player_id) \<and>
     json_at J (token_json player_id session_id) ''session_id'' = Inr (JString session_id) \<and>
     json_get_string J (JString player_id) = Inr player_id \<and>
     json_get_string J (JString session_id) = Inr session_id"

text \<open>
  Redis is up for the tokens, as long as its state satisfies \<open>up\<close>: the configured time to live is
  positive, as \<open>SETEX\<close> wants it, no token key holds anything but a string, so that \<open>SETEX\<close>, \<open>GET\<close>
  and \<open>DEL\<close> on such a key succeed, and this stays so after them and after a \<open>SADD\<close> to the set of
  active sessions, whether or not this one succeeds.
\<close>

definition tokens_up :: "'r session_store \<Rightarrow> ('r \<Rightarrow> bool) \<Rightarrow> bool" where
  "tokens_up S up \<longleftrightarrow> 0 < ss_token_ttl S \<and> (\<forall>r. up r \<longrightarrow>
     (\<forall>tok v. \<exists>r'. sw_setex (ss_redis S) (token_key tok) (ss_token_ttl S) v r = (Inr (), r') \<and> up r') \<and>
     (\<forall>tok. \<exists>x r'. sw_get (ss_redis S) (token_key tok) r = (Inr x, r') \<and> up r') \<and>
     (\<forall>tok. \<exists>n r'. sw_del (ss_redis S) (token_key tok) r = (Inr n, r') \<and> up r') \<and>
     (\<forall>i. up (snd (sw_sadd (ss_redis S) ''active_sessions'' i r))))"

lemma tokens_up_setexE:
  assumes "tokens_up S up" and "up r"
  obtains r' where "sw_setex (ss_redis S) (token_key tok) (ss_token_ttl S) v r = (Inr (), r')" "up r'"
  using assms unfolding tokens_up_def by blast

lemma tokens_up_getE:
  assumes "tokens_up S up" and "up r"
  obtains x r' where "sw_get (ss_redis S) (token_key tok) r = (Inr x, r')" "up r'"
  using assms unfolding tokens_up_def by blast

lemma tokens_up_delE:
  assumes "tokens_up S up" and "up r"
  obtains n r' where "sw_del (ss_redis S) (token_key tok) r = (Inr n, r')" "up r'"
  using assms unfolding tokens_up_def by blast

lemma tokens_up_register: "tokens_up S up \<Longrightarrow> up r \<Longrightarrow> up (snd (registerGameSession S i r))"
  by (simp add: tokens_up_def registerGameSession_def RedisClient_sadd_def)

lemma createToken_rng [simp]: "fst (snd (createToken S p s g r)) = snd (generateUuid g)"
  by (auto simp: createToken_def split: prod.splits sum.splits)

lemma createToken_value:
  assumes "createToken S p s g r = (res, g', r')"
  shows "g' = snd (generateUuid g)" and "res = Inr tok \<Longrightarrow> tok = fst (generateUuid g)"
  using assms by (auto simp: createToken_def split: prod.splits sum.splits)

lemma createToken_stored:
  assumes "redis_strings (ss_redis S) kv"
    and "createToken S p s g r = (Inr tok, g', r')"
  obtains txtv where "json_dump (ss_json S) (token_json p s) = Inr txtv"
    and "kv r' = (kv r)(token_key tok \<mapsto> txtv)"
  using assms
  by (fastforce simp: createToken_def RedisClient_setex_def redis_strings_def
      split: prod.splits sum.splits)

lemma validateToken_absent:
  assumes "redis_strings (ss_redis S) kv" and "kv r (token_key tok) = None"
    and "validateToken S tok r = (Inr res, r')"
  shows "res = None \<and> kv r' = kv r"
  using assms
  by (fastforce simp: validateToken_def RedisClient_defs redis_strings_def Let_def rreturn_def
      elim!: rbind_InrE)

lemma validateToken_present:
  assumes "redis_strings (ss_redis S) kv" and "kv r (token_key tok) = Some txtv"
    and "validateToken S tok r = (Inr res, r')"
  shows "res = parse_token (ss_json S) txtv \<and> kv r' = (kv r)(token_key tok := None)"
  using assms
  by (fastforce simp: validateToken_def RedisClient_defs redis_strings_def Let_def rreturn_def rmap_def
      elim!: rbind_InrE)

lemma parse_token_ok:
  assumes "token_json_ok J p s" and "json_dump J (token_json p s) = Inr txtv"
  shows "parse_token J txtv = Some \<lparr>td_player_id = p, td_session_id = s\<rparr>"
  using assms by (auto simp: token_json_ok_def parse_token_def)

text \<open>A token is good for one entry: if \<open>createToken\<close> returned it and its key is still
  there when the game server asks, \<open>validateToken\<close> answers with exactly the player and the
  session it was issued for, and a second validation finds nothing.\<close>

theorem token_valid_exactly_once:
  assumes "redis_strings (ss_redis S) kv" and "token_json_ok (ss_json S) p s"
    and "createToken S p s g r = (Inr tok, g', r1)"
    and "kv r2 (token_key tok) = kv r1 (token_key tok)"
    and "validateToken S tok r2 = (Inr first, r3)"
    and "kv r4 (token_key tok) = kv r3 (token_key tok)"
    and "validateToken S tok r4 = (Inr second, r5)"
  shows "first = Some \<lparr>td_player_id = p, td_session_id = s\<rparr> \<and> second = None"
proof -
  obtain txtv where dump: "json_dump (ss_json S) (token_json p s) = Inr txtv"
    and kv1: "kv r1 = (kv r)(token_key tok \<mapsto> txtv)"
    using createToken_stored [OF assms(1,3)] .
  have "kv r2 (token_key tok) = Some txtv" using assms(4) kv1 by simp
  from validateToken_present [OF assms(1) this assms(5)] assms(6)
  have f: "first = parse_token (ss_json S) txtv" and "kv r4 (token_key tok) = None" by simp_all
  with validateToken_absent [OF assms(1) _ assms(7)] parse_token_ok [OF assms(2) dump]
  show ?thesis by simp
qed

text \<open>A JSON library that writes and reads tokens, in a notation of its own, and a store over
  the server in memory.\<close>

definition toy_json :: json_api where
  "toy_json = \<lparr>
     json_dump = (\<lambda>j. case j of
         JObject [(_, JString p), (_, JString s)] \<Rightarrow> Inr (replicate (length p) (CHR ''1'') @ ''0'' @ p @ s)
       | _ \<Rightarrow> Inl ''type_error''),
     json_parse = (\<lambda>t. let n = length (takeWhile (\<lambda>c. c = CHR ''1'') t); rest = drop (Suc n) t
       in Inr (token_json (take n rest) (drop n rest))),
     json_at = (\<lambda>j k. case j of JObject kvs \<Rightarrow>
        (case map_of kvs k of Some v \<Rightarrow> Inr v | None \<Rightarrow> Inl ''out_of_range'') | _ \<Rightarrow> Inl ''type_error''),
     json_get_string = (\<lambda>j. case j of JString s \<Rightarrow> Inr s | _ \<Rightarrow> Inl ''type_error'')\<rparr>"

definition mem_store :: "mem session_store" where
  "mem_store = SessionStore_new mem_redis toy_json 60 90"

definition zero_rng :: rng where
  "zero_rng = \<lparr>draws = (\<lambda>i. of_nat i), drawn = 0\<rparr>"

lemma toy_json_ok: "token_json_ok toy_json p s"
proof -
  have "takeWhile (\<lambda>c. c = CHR ''1'') (replicate (length p) (CHR ''1'') @ ''0'' @ p @ s) =
      replicate (length p) (CHR ''1'')"
    by (simp add: takeWhile_append)
  then show ?thesis by (simp add: token_json_ok_def toy_json_def token_json_def Let_def)
qed

text \<open>The server in memory is up for the tokens where no token key holds a set, a hash or a list.\<close>

definition mem_up :: "mem \<Rightarrow> bool" where
  "mem_up r \<longleftrightarrow> (\<forall>tok. holds_string r (token_key tok))"

lemma mem_up_put:
  "mem_up r \<Longrightarrow> mem_up (mem_put k (RString v) r)"
  "mem_up r \<Longrightarrow> mem_up (mem_remove k r)"
  "mem_up r \<Longrightarrow> mem_up (r\<lparr>mem_ttl := t\<rparr>)"
  "mem_up r \<Longrightarrow> mem_up (mem_put ''active_sessions'' x r)"
  by (auto simp: mem_up_def holds_string_def mem_put_def mem_remove_def token_key_def)

lemma mem_up_empty: "mem_up mem_empty"
  by (simp add: mem_up_def holds_string_def mem_empty_def)

lemma mem_store_up: "tokens_up mem_store mem_up"
proof -
  have get: "\<exists>x. sw_get mem_redis (token_key tok) r = (Inr x, r)" if "mem_up r" for tok r
    using that [unfolded mem_up_def holds_string_def, rule_format, of tok]
    by (cases "umap_find (mem_keys r) (token_key tok)") (auto simp: mem_redis_def split: mem_value.splits)
  have sadd: "mem_up (snd (sw_sadd mem_redis ''active_sessions'' i r))" if "mem_up r" for i r
    using that by (auto simp: mem_redis_def wrongtype_def mem_up_put split: option.split mem_value.split)
  have setex: "\<exists>r'. sw_setex mem_redis (token_key tok) 60 v r = (Inr (), r') \<and> mem_up r'" if "mem_up r" for tok v r
    using that by (simp add: mem_redis_def mem_up_put)
  have del: "\<exists>n r'. sw_del mem_redis (token_key tok) r = (Inr n, r') \<and> mem_up r'" if "mem_up r" for tok r
    using that by (simp add: mem_redis_def mem_up_put)
  show ?thesis
    unfolding tokens_up_def mem_store_def SessionStore_new_def
    using get sadd setex del by simp blast
qed

lemma mem_store_create:
  assumes "mem_up r"
  obtains tok g' r' where "createToken mem_store p s g r = (Inr tok, g', r')" and "mem_up r'"
proof -
  obtain u g' where u: "generateUuid g = (u, g')" by fastforce
  obtain txtv where t: "json_dump (ss_json mem_store) (token_json p s) = Inr txtv"
    using toy_json_ok [of p s] by (auto simp: token_json_ok_def mem_store_def SessionStore_new_def)
  obtain r' where "sw_setex (ss_redis mem_store) (token_key u) (ss_token_ttl mem_store) txtv r = (Inr (), r')" "mem_up r'"
    using mem_store_up assms by (rule tokens_up_setexE)
  with that u t show ?thesis by (simp add: createToken_def RedisClient_setex_def)
qed

lemma mem_store_validate:
  assumes "mem_up r"
  obtains x r' where "validateToken mem_store tok r = (Inr x, r')" and "mem_up r'"
proof -
  obtain x r1 where get: "sw_get (ss_redis mem_store) (token_key tok) r = (Inr x, r1)" "mem_up r1"
    using mem_store_up assms by (rule tokens_up_getE)
  obtain n r2 where del: "sw_del (ss_redis mem_store) (token_key tok) r1 = (Inr n, r2)" "mem_up r2"
    using mem_store_up get(2) by (rule tokens_up_delE)
  show ?thesis
    by (cases x) (use that get del in \<open>simp_all add: validateToken_def RedisClient_defs Let_def rreturn_def\<close>)
qed

theorem token_valid_exactly_once_witness:
  "\<exists>tok g' r1 r3 r5. createToken mem_store ''p'' ''s'' zero_rng mem_empty = (Inr tok, g', r1) \<and>
     validateToken mem_store tok r1 = (Inr (Some \<lparr>td_player_id = ''p'', td_session_id = ''s''\<rparr>), r3) \<and>
     validateToken mem_store tok r3 = (Inr None, r5)"
proof -
  obtain tok g' r1 where c: "createToken mem_store ''p'' ''s'' zero_rng mem_empty = (Inr tok, g', r1)" "mem_up r1"
    using mem_store_create mem_up_empty by metis
  obtain x r3 where v: "validateToken mem_store tok r1 = (Inr x, r3)" "mem_up r3"
    using mem_store_validate c(2) by metis
  obtain y r5 where w: "validateToken mem_store tok r3 = (Inr y, r5)" "mem_up r5"
    using mem_store_validate v(2) by metis
  have "redis_strings (ss_redis mem_store) mem_string" and "token_json_ok (ss_json mem_store) ''p'' ''s''"
    by (simp_all add: mem_store_def SessionStore_new_def mem_redis_strings toy_json_ok)
  from token_valid_exactly_once [OF this c(1) refl v(1) refl w(1)] c(1) v(1) w(1) show ?thesis by blast
qed

end
