(* ===== verification/RateLimiter.thy ===== *)
theory RateLimiter
  imports RedisServer
begin

text \<open>
  \<open>RateLimiter\<close> of \<open>src/src/common/ratelimit/RateLimiter.cpp\<close>: a fixed window counter
  in Redis, \<open>INCR\<close> followed by \<open>EXPIRE\<close> on the first request of a window. The constructor
  takes an \<open>int\<close> and both \<open>main\<close> functions pass a \<open>uint32_t\<close>, so the limit is the signed
  reading of a 32-bit word.
\<close>

record 'r rate_limiter =
  rl_redis :: "'r redis_api"
  rl_max_requests :: int
  rl_window :: int
  rl_key_prefix :: string

definition RateLimiter_new ::
  "'r redis_api \<Rightarrow> u32 \<Rightarrow> int \<Rightarrow> string \<Rightarrow> 'r rate_limiter" where
  "RateLimiter_new R max_requests window key_prefix =
     \<lparr>rl_redis = R, rl_max_requests = sint max_requests, rl_window = window,
      rl_key_prefix = key_prefix\<rparr>"

definition allow :: "'r rate_limiter \<Rightarrow> string \<Rightarrow> ('r, bool) redis_op" where
  "allow L identifier =
     (let key = rl_key_prefix L @ identifier in
      rbind (RedisClient_incr (rl_redis L) key) (\<lambda>count.
        rbind (if count = 1 then rmap (\<lambda>_. ()) (RedisClient_expire (rl_redis L) key (rl_window L))
               else rreturn ())
          (\<lambda>_. rreturn (count \<le> rl_max_requests L))))"

section \<open>Behaviour\<close>

text \<open>
  Consecutive requests of one client within a window: no key expires in between. The
  results are \<open>None\<close> as soon as Redis throws.
\<close>

fun allow_calls :: "'r rate_limiter \<Rightarrow> string \<Rightarrow> nat \<Rightarrow> 'r \<Rightarrow> (bool list \<times> 'r) option" where
  "allow_calls L i 0 r = Some ([], r)"
| "allow_calls L i (Suc n) r =
     (case allow L i r of
        (Inl _, _) \<Rightarrow> None
      | (Inr b, r') \<Rightarrow> map_option (\<lambda>(bs, r''). (b # bs, r'')) (allow_calls L i n r'))"

lemma allow_counts:
  assumes "redis_counters (rl_redis L) cnt ttl" and "allow L i r = (Inr b, r')" and "0 < rl_window L"
  shows "b \<longleftrightarrow> cnt r (rl_key_prefix L @ i) + 1 \<le> rl_max_requests L"
    and "cnt r' = (cnt r)(rl_key_prefix L @ i := cnt r (rl_key_prefix L @ i) + 1)"
    and "cnt r (rl_key_prefix L @ i) = 0 \<Longrightarrow> ttl r' (rl_key_prefix L @ i) = Some (rl_window L)"
    and "cnt r (rl_key_prefix L @ i) \<noteq> 0 \<Longrightarrow> ttl r' = ttl r"
proof -
  let ?k = "rl_key_prefix L @ i"
  from assms(2) obtain n r1 where incr: "sw_incr (rl_redis L) ?k r = (Inr n, r1)"
    and rest: "rbind (if n = 1 then rmap (\<lambda>_. ()) (sw_expire (rl_redis L) ?k (rl_window L))
        else rreturn ()) (\<lambda>_. rreturn (n \<le> rl_max_requests L)) r1 = (Inr b, r')"
    unfolding allow_def Let_def RedisClient_incr_def RedisClient_expire_def by (rule rbind_InrE)
  from assms(1) incr have n: "n = cnt r ?k + 1" "cnt r1 = (cnt r)(?k := n)" "ttl r1 = ttl r"
    by (auto simp: redis_counters_def)
  from rest have b: "b = (n \<le> rl_max_requests L)"
    by (auto simp: rreturn_def elim!: rbind_InrE)
  have set: "cnt r' = cnt r1 \<and> ttl r' = (ttl r1)(?k \<mapsto> rl_window L)"
    if "n = 1" "sw_expire (rl_redis L) ?k (rl_window L) r1 = (Inr x, r')" for x
    using redis_countersD(2) [OF assms(1) that(2) assms(3)] n(2) that(1) by simp
  have r': "if n = 1 then \<exists>x. sw_expire (rl_redis L) ?k (rl_window L) r1 = (Inr x, r') else r' = r1"
    using rest by (auto simp: rreturn_def rmap_def elim!: rbind_InrE split: if_splits)
  show "b \<longleftrightarrow> cnt r ?k + 1 \<le> rl_max_requests L" using b n by simp
  show "cnt r' = (cnt r)(?k := cnt r ?k + 1)"
    using set r' n by (auto split: if_splits)
  show "cnt r ?k = 0 \<Longrightarrow> ttl r' ?k = Some (rl_window L)"
    using set r' n by auto
  show "cnt r ?k \<noteq> 0 \<Longrightarrow> ttl r' = ttl r"
    using r' n by simp
qed

lemma allow_calls_results:
  assumes "redis_counters (rl_redis L) cnt ttl" and "allow_calls L i n r = Some (bs, r')"
    and "0 \<le> cnt r (rl_key_prefix L @ i)" and "0 < rl_window L"
  shows "bs = map (\<lambda>j. cnt r (rl_key_prefix L @ i) + int j \<le> rl_max_requests L) [1..<Suc n]"
    and "cnt r' (rl_key_prefix L @ i) = cnt r (rl_key_prefix L @ i) + int n"
    and "cnt r (rl_key_prefix L @ i) \<noteq> 0 \<Longrightarrow>
         ttl r' (rl_key_prefix L @ i) = ttl r (rl_key_prefix L @ i)"
    and "cnt r (rl_key_prefix L @ i) = 0 \<Longrightarrow> 0 < n \<Longrightarrow>
         ttl r' (rl_key_prefix L @ i) = Some (rl_window L)"
proof -
  let ?k = "rl_key_prefix L @ i"
  have "bs = map (\<lambda>j. cnt r ?k + int j \<le> rl_max_requests L) [1..<Suc n] \<and>
      cnt r' ?k = cnt r ?k + int n \<and>
      (cnt r ?k \<noteq> 0 \<longrightarrow> ttl r' ?k = ttl r ?k) \<and>
      (cnt r ?k = 0 \<longrightarrow> 0 < n \<longrightarrow> ttl r' ?k = Some (rl_window L))"
    using assms(2,3)
  proof (induction n arbitrary: r bs)
    case (Suc n)
    then obtain b r1 bs' where one: "allow L i r = (Inr b, r1)" and bs: "bs = b # bs'"
      and rest: "allow_calls L i n r1 = Some (bs', r')"
      by (auto split: prod.splits sum.splits)
    note a = allow_counts [OF assms(1) one assms(4)]
    have cnt: "cnt r1 ?k = cnt r ?k + 1" using a(2) by simp
    have "[1..<Suc (Suc n)] = 1 # map Suc [1..<Suc n]"
      by (simp only: map_Suc_upt One_nat_def) (simp add: upt_conv_Cons del: upt_Suc)
    with Suc.IH [OF rest] Suc.prems(2) cnt a show ?case
      by (auto simp: bs algebra_simps simp del: upt_Suc)
  qed simp
  then show "bs = map (\<lambda>j. cnt r ?k + int j \<le> rl_max_requests L) [1..<Suc n]"
    "cnt r' ?k = cnt r ?k + int n" "cnt r ?k \<noteq> 0 \<Longrightarrow> ttl r' ?k = ttl r ?k"
    "cnt r ?k = 0 \<Longrightarrow> 0 < n \<Longrightarrow> ttl r' ?k = Some (rl_window L)"
    by blast+
qed

lemma count_allowed:
  "0 \<le> m \<Longrightarrow> length (filter id (map (\<lambda>j. int j \<le> m) [1..<Suc n])) = min n (nat m)"
  by (induction n) auto

text \<open>C24. Within a window a client gets its first \<open>max_requests\<close> requests and no more: of
  \<open>n\<close> consecutive calls starting from a fresh counter, the \<open>j\<close>-th is allowed exactly if
  \<open>j \<le> max_requests\<close>, so \<open>min n max_requests\<close> are allowed in all, and the window's
  time to live is set.\<close>

theorem rate_limit_window:
  assumes "redis_counters (rl_redis L) cnt ttl" and "0 \<le> rl_max_requests L"
    and "cnt r (rl_key_prefix L @ i) = 0" and "0 < n"
    and "allow_calls L i n r = Some (bs, r')" and "0 < rl_window L"
  shows "bs = map (\<lambda>j. int j \<le> rl_max_requests L) [1..<Suc n] \<and>
         length (filter id bs) = min n (nat (rl_max_requests L)) \<and>
         ttl r' (rl_key_prefix L @ i) = Some (rl_window L)"
proof -
  have "0 \<le> cnt r (rl_key_prefix L @ i)" using assms(3) by simp
  note res = allow_calls_results [OF assms(1,5) this assms(6)]
  have "bs = map (\<lambda>j. int j \<le> rl_max_requests L) [1..<Suc n]"
    using res(1) assms(3) by simp
  then show ?thesis
    using count_allowed [OF assms(2)] res(4) [OF assms(3,4)] by simp
qed

text \<open>A limiter over the server in memory, two requests per window.\<close>

definition mem_limiter :: "mem rate_limiter" where
  "mem_limiter = RateLimiter_new mem_redis 2 10 ''rate:''"

theorem rate_limit_window_witness:
  "\<exists>r'. allow_calls mem_limiter ''ip'' 3 mem_empty = Some ([True, True, False], r') \<and>
     umap_find (mem_ttl r') ''rate:ip'' = Some 10"
proof -
  obtain bs r' where run: "allow_calls mem_limiter ''ip'' 3 mem_empty = Some (bs, r')"
  proof -
    have "allow_calls mem_limiter ''ip'' 3 mem_empty \<noteq> None" by code_simp
    then show ?thesis using that by fast
  qed
  have "bs = map (\<lambda>j. int j \<le> 2) [1..<Suc 3] \<and> umap_find (mem_ttl r') ''rate:ip'' = Some 10"
    using rate_limit_window [OF _ _ _ _ run, of mem_count "\<lambda>r. umap_find (mem_ttl r)"]
      mem_redis_counters
    by (simp add: mem_limiter_def RateLimiter_new_def mem_count_def mem_string_def mem_empty_def)
  then show ?thesis using run by (simp add: upt_rec)
qed

text \<open>C40. If the \<open>EXPIRE\<close> of a window's first request throws, \<open>allow\<close> throws (the callers
  then let the request pass), and the counter is left at 1 without a time to live. No later
  call sets one, so the counter only grows: from the \<open>max_requests\<close>-th request on, the client
  is refused for good, not for one window.\<close>

theorem rate_limit_without_expiry:
  assumes "redis_counters (rl_redis L) cnt ttl"
    and "cnt r (rl_key_prefix L @ i) = 0" and "ttl r (rl_key_prefix L @ i) = None"
    and "sw_incr (rl_redis L) (rl_key_prefix L @ i) r = (Inr c, r1)"
    and "sw_expire (rl_redis L) (rl_key_prefix L @ i) (rl_window L) r1 = (Inl e, r1)"
    and "allow_calls L i n r1 = Some (bs, r')" and "0 < rl_window L"
  shows "allow L i r = (Inl e, r1) \<and> ttl r' (rl_key_prefix L @ i) = None \<and>
         bs = map (\<lambda>j. 1 + int j \<le> rl_max_requests L) [1..<Suc n]"
proof -
  let ?k = "rl_key_prefix L @ i"
  have one: "c = 1" "cnt r1 ?k = 1" "ttl r1 ?k = None"
    using redis_countersD(1) [OF assms(1,4)] assms(2,3) by simp_all
  have "allow L i r = (Inl e, r1)"
    using assms(4,5) one(1) by (simp add: allow_def Let_def RedisClient_defs)
  moreover have "0 \<le> cnt r1 ?k" "cnt r1 ?k \<noteq> 0" using one by simp_all
  note res = allow_calls_results [OF assms(1,6) this(1) assms(7)] this(2)
  ultimately show ?thesis using res(1) res(3) [OF res(5)] one by simp
qed

definition broken_limiter :: "mem rate_limiter" where
  "broken_limiter = RateLimiter_new mem_redis_no_expire 2 10 ''rate:''"

theorem rate_limit_without_expiry_witness:
  "\<exists>e r1 r'. allow broken_limiter ''ip'' mem_empty = (Inl e, r1) \<and>
     allow_calls broken_limiter ''ip'' 3 r1 = Some ([True, False, False], r') \<and>
     umap_find (mem_ttl r') ''rate:ip'' = None"
proof -
  let ?r1 = "mem_put ''rate:ip'' (RString ''1'') mem_empty"
  let ?e = "''Connection reset by peer''"
  obtain bs r' where run: "allow_calls broken_limiter ''ip'' 3 ?r1 = Some (bs, r')"
  proof -
    have "allow_calls broken_limiter ''ip'' 3 ?r1 \<noteq> None" by code_simp
    then show ?thesis using that by fast
  qed
  have one: "show_int 1 = ''1''" by code_simp
  have sel: "rl_redis broken_limiter = mem_redis_no_expire" "rl_key_prefix broken_limiter = ''rate:''"
    "rl_window broken_limiter = 10" "rl_max_requests broken_limiter = 2"
    by (simp_all add: broken_limiter_def RateLimiter_new_def)
  have incr: "sw_incr mem_redis_no_expire ''rate:ip'' mem_empty = (Inr 1, ?r1)"
    by (simp add: mem_redis_no_expire_def mem_redis_def mem_empty_def one)
  have "sw_expire mem_redis_no_expire ''rate:ip'' 10 ?r1 = (Inl ?e, ?r1)"
    by (simp add: mem_redis_no_expire_def)
  with incr have "allow broken_limiter ''ip'' mem_empty = (Inl ?e, ?r1) \<and>
      umap_find (mem_ttl r') ''rate:ip'' = None \<and> bs = map (\<lambda>j. 1 + int j \<le> 2) [1..<Suc 3]"
    using rate_limit_without_expiry [OF _ _ _ _ _ run, of mem_count "\<lambda>r. umap_find (mem_ttl r)" mem_empty 1 ?e]
      mem_redis_no_expire_counters
    by (simp add: sel mem_count_def mem_string_def mem_empty_def)
  then show ?thesis using run by (simp add: upt_rec)
qed

end
