(* ===== verification/RoomManager.thy ===== *)
theory RoomManager
  imports Room ClientSession GameServerSession ChatServerChannel SessionStore RateLimiter
begin

text \<open>
  \<open>RoomManager\<close> of \<open>src/src/room/room/RoomManager.cpp\<close>, the room server's state and its
  message handlers.

  The record \<open>room_server\<close> is the state of the process: the members of \<open>RoomManager\<close>, the
  session objects that are alive (a \<open>weak_ptr\<close> is an object identifier, and \<open>lock\<close> succeeds
  if the object is in the heap), the link to the chat server, the Redis server behind
  \<open>session_store_\<close> and the UUID generator. Object identifiers are never reused. The record
  \<open>room_env\<close> holds what the constructors fix: limits, addresses, which collaborators exist,
  and the protobuf functions.

  A handler is a function from state to state. \<open>rooms_\<close> holds \<open>shared_ptr\<close>s; a handler
  that changes a room stores the changed room back.
\<close>

record 'r room_env =
  e_max_rooms :: u32
  e_max_players_per_room :: u32
  e_session_store :: "'r session_store option"
  e_game_server_host :: string
  e_game_server_port :: u16
  e_chat_channel :: bool
  e_rate_limiter :: "'r rate_limiter option"
  e_heartbeat_timeout :: int
  e_room_proto :: "envelope proto"
  e_chat_proto :: "chat_envelope proto"

record 'r room_server =
  m_rooms :: "(string, room) umap"
  m_player_to_room :: "(string, string) umap"
  m_sessions :: "(string, nat) umap"
  m_lobby_sessions :: "(nat, nat) umap"
  m_lobby_pending :: bool
  m_lobby_waits :: nat
  m_lobby_cancelled :: nat
  m_clients :: "nat \<rightharpoonup> client_session"
  m_games :: "nat \<rightharpoonup> game_session"
  m_next :: nat
  m_chat :: chat_link
  m_redis :: 'r
  m_rng :: rng

definition RoomManager_new :: "'r \<Rightarrow> rng \<Rightarrow> 'r room_server" where
  "RoomManager_new r g = \<lparr>m_rooms = [], m_player_to_room = [], m_sessions = [], m_lobby_sessions = [],
     m_lobby_pending = False, m_lobby_waits = 0, m_lobby_cancelled = 0, m_clients = Map.empty,
     m_games = Map.empty, m_next = 0, m_chat = ChatServerChannel_new, m_redis = r, m_rng = g\<rparr>"

section \<open>Sessions\<close>

definition lock :: "'r room_server \<Rightarrow> nat \<Rightarrow> nat option" where
  "lock s w = (if m_clients s w \<noteq> None then Some w else None)"

definition upd_client :: "(client_session \<Rightarrow> client_session) \<Rightarrow> nat \<Rightarrow> 'r room_server \<Rightarrow> 'r room_server" where
  "upd_client f sid s =
     (case m_clients s sid of None \<Rightarrow> s | Some c \<Rightarrow> s\<lparr>m_clients := (m_clients s)(sid \<mapsto> f c)\<rparr>)"

definition session_send :: "'r room_env \<Rightarrow> envelope \<Rightarrow> nat \<Rightarrow> 'r room_server \<Rightarrow> 'r room_server" where
  "session_send E e sid s = upd_client (ClientSession_send (e_room_proto E) e) sid s"

definition session_playerId :: "nat \<Rightarrow> 'r room_server \<Rightarrow> string" where
  "session_playerId sid s = (case m_clients s sid of None \<Rightarrow> [] | Some c \<Rightarrow> cs_player_id c)"

definition registerSession :: "string \<Rightarrow> nat \<Rightarrow> 'r room_server \<Rightarrow> 'r room_server" where
  "registerSession player_id sid s = s\<lparr>m_sessions := umap_put player_id sid (m_sessions s)\<rparr>"

definition unregisterSession :: "string \<Rightarrow> 'r room_server \<Rightarrow> 'r room_server" where
  "unregisterSession player_id s = s\<lparr>m_sessions := umap_erase player_id (m_sessions s)\<rparr>"

definition addLobbySession :: "nat \<Rightarrow> 'r room_server \<Rightarrow> 'r room_server" where
  "addLobbySession sid s = s\<lparr>m_lobby_sessions := umap_put sid sid (m_lobby_sessions s)\<rparr>"

definition removeLobbySession :: "nat \<Rightarrow> 'r room_server \<Rightarrow> 'r room_server" where
  "removeLobbySession sid s = s\<lparr>m_lobby_sessions := umap_erase sid (m_lobby_sessions s)\<rparr>"

text \<open>\<open>if (sess_it != end) if (auto session = sess_it->second.lock()) addLobbySession(session)\<close>,
  which three handlers contain.\<close>

definition return_to_lobby :: "string \<Rightarrow> 'r room_server \<Rightarrow> 'r room_server" where
  "return_to_lobby player_id s =
     (case umap_find (m_sessions s) player_id of
        None \<Rightarrow> s
      | Some w \<Rightarrow> (case lock s w of None \<Rightarrow> s | Some sid \<Rightarrow> addLobbySession sid s))"

section \<open>Sending\<close>

definition sendTo :: "'r room_env \<Rightarrow> string \<Rightarrow> envelope \<Rightarrow> 'r room_server \<Rightarrow> 'r room_server" where
  "sendTo E player_id e s =
     (case umap_find (m_sessions s) player_id of
        None \<Rightarrow> s
      | Some w \<Rightarrow> (case lock s w of None \<Rightarrow> s | Some sid \<Rightarrow> session_send E e sid s))"

definition sendRejectTo ::
  "'r room_env \<Rightarrow> nat \<Rightarrow> reject_reason \<Rightarrow> string \<Rightarrow> 'r room_server \<Rightarrow> 'r room_server" where
  "sendRejectTo E sid reason msg s = session_send E (Reject reason msg) sid s"

definition broadcastToRoom :: "'r room_env \<Rightarrow> room \<Rightarrow> envelope \<Rightarrow> 'r room_server \<Rightarrow> 'r room_server" where
  "broadcastToRoom E room e s = fold (\<lambda>player_id. sendTo E player_id e) (playerIds room) s"

definition broadcastToRoom_except ::
  "'r room_env \<Rightarrow> room \<Rightarrow> envelope \<Rightarrow> string \<Rightarrow> 'r room_server \<Rightarrow> 'r room_server" where
  "broadcastToRoom_except E room e exclude_player_id s =
     fold (\<lambda>player_id s. if player_id \<noteq> exclude_player_id then sendTo E player_id e s else s)
       (playerIds room) s"

section \<open>Lobby broadcast\<close>

text \<open>\<open>expires_after\<close> cancels a wait that is outstanding; \<open>async_wait\<close> starts one.\<close>

definition notifyRoomListChanged :: "'r room_server \<Rightarrow> 'r room_server" where
  "notifyRoomListChanged s =
     (if m_lobby_sessions s = [] then s
      else if m_lobby_pending s then s
      else s\<lparr>m_lobby_pending := True,
             m_lobby_cancelled := m_lobby_cancelled s + m_lobby_waits s,
             m_lobby_waits := 1\<rparr>)"

definition kLobbyBroadcastPageSize :: u32 where
  "kLobbyBroadcastPageSize = 20"

definition waiting_rooms :: "'r room_server \<Rightarrow> room list" where
  "waiting_rooms s = filter (\<lambda>room. r_state room = ROOM_WAITING) (map snd (m_rooms s))"

definition broadcastRoomListToLobby :: "'r room_env \<Rightarrow> 'r room_server \<Rightarrow> 'r room_server" where
  "broadcastRoomListToLobby E s =
     (if m_lobby_sessions s = [] then s
      else
        let waiting = waiting_rooms s;
            total = (of_nat (length waiting) :: u32);
            count = min total kLobbyBroadcastPageSize;
            e = RoomListResponse (map (\<lambda>i. toRoomSummary (waiting ! i)) [0..<unat count]) total;
            expired = map fst (filter (\<lambda>(ptr, w). lock s w = None) (m_lobby_sessions s));
            s1 = fold (\<lambda>(ptr, w) s. case lock s w of None \<Rightarrow> s | Some sid \<Rightarrow> session_send E e sid s)
                   (m_lobby_sessions s) s
        in s1\<lparr>m_lobby_sessions := fold umap_erase expired (m_lobby_sessions s1)\<rparr>)"

text \<open>The handler of the lobby timer, with and without an error, and \<open>stop\<close>.\<close>

definition lobby_timer_fired :: "'r room_env \<Rightarrow> 'r room_server \<Rightarrow> 'r room_server" where
  "lobby_timer_fired E s =
     broadcastRoomListToLobby E (s\<lparr>m_lobby_waits := m_lobby_waits s - 1, m_lobby_pending := False\<rparr>)"

definition lobby_timer_cancelled :: "'r room_server \<Rightarrow> 'r room_server" where
  "lobby_timer_cancelled s =
     s\<lparr>m_lobby_cancelled := m_lobby_cancelled s - 1, m_lobby_pending := False\<rparr>"

definition RoomManager_stop :: "'r room_server \<Rightarrow> 'r room_server" where
  "RoomManager_stop s =
     s\<lparr>m_lobby_cancelled := m_lobby_cancelled s + m_lobby_waits s, m_lobby_waits := 0\<rparr>"

section \<open>Identifiers and the session store\<close>

definition next_uuid :: "'r room_server \<Rightarrow> string \<times> 'r room_server" where
  "next_uuid s = (case generateUuid (m_rng s) of (u, g) \<Rightarrow> (u, s\<lparr>m_rng := g\<rparr>))"

text \<open>\<open>if (session_store_) try { ... } catch (...) { log }\<close> around a call.\<close>

definition with_store ::
  "'r room_env \<Rightarrow> ('r session_store \<Rightarrow> ('r, 'a) redis_op) \<Rightarrow> 'r room_server \<Rightarrow> 'r room_server" where
  "with_store E f s =
     (case e_session_store E of None \<Rightarrow> s | Some S \<Rightarrow> s\<lparr>m_redis := rtry (f S) (m_redis s)\<rparr>)"

definition issue_token ::
  "'r room_env \<Rightarrow> string \<Rightarrow> string \<Rightarrow> 'r room_server \<Rightarrow> string \<times> 'r room_server" where
  "issue_token E pid session_id s =
     (case e_session_store E of
        None \<Rightarrow> next_uuid s
      | Some S \<Rightarrow>
          (case createToken S pid session_id (m_rng s) (m_redis s) of
             (Inr token, g, r) \<Rightarrow> (token, s\<lparr>m_rng := g, m_redis := r\<rparr>)
           | (Inl _, g, r) \<Rightarrow> next_uuid (s\<lparr>m_rng := g, m_redis := r\<rparr>)))"

section \<open>Handlers\<close>

text \<open>The first test of create and join: another live session registered this player.\<close>

definition duplicate_player :: "string \<Rightarrow> nat \<Rightarrow> 'r room_server \<Rightarrow> bool" where
  "duplicate_player player_id sid s =
     (case umap_find (m_sessions s) player_id of
        None \<Rightarrow> False
      | Some w \<Rightarrow> (case lock s w of None \<Rightarrow> False | Some existing \<Rightarrow> existing \<noteq> sid))"

definition set_session_player :: "string \<Rightarrow> nat \<Rightarrow> 'r room_server \<Rightarrow> 'r room_server" where
  "set_session_player player_id sid s = upd_client (setPlayerId player_id) sid s"

definition handleCreateRoom ::
  "'r room_env \<Rightarrow> string \<Rightarrow> string \<Rightarrow> string \<Rightarrow> u32 \<Rightarrow> nat \<Rightarrow> 'r room_server \<Rightarrow> 'r room_server" where
  "handleCreateRoom E player_id player_name room_name max_players sid s =
     (if duplicate_player player_id sid s then
        sendRejectTo E sid DUPLICATE_PLAYER ''Player ID already connected'' s
      else if session_playerId sid s \<noteq> [] \<and> session_playerId sid s \<noteq> player_id then
        sendRejectTo E sid INVALID_REQUEST ''Session already has a different player ID'' s
      else if umap_contains (m_player_to_room s) player_id then
        sendRejectTo E sid ALREADY_IN_ROOM ''Already in a room'' s
      else if length (m_rooms s) \<ge> unat (e_max_rooms E) then
        sendRejectTo E sid INVALID_REQUEST ''Maximum room count reached'' s
      else if max_players < 1 \<or> max_players > e_max_players_per_room E then
        sendRejectTo E sid INVALID_REQUEST
          (''Invalid max_players value (1-'' @ to_string (unat (e_max_players_per_room E)) @ '')'') s
      else
        let (room_id, s1) = next_uuid s;
            room = Room_new room_id room_name player_id player_name max_players;
            s2 = s1\<lparr>m_rooms := umap_put room_id room (m_rooms s1),
                    m_player_to_room := umap_put player_id room_id (m_player_to_room s1)\<rparr>;
            s3 = set_session_player player_id sid s2;
            s4 = registerSession player_id sid s3;
            s5 = removeLobbySession sid s4;
            s6 = session_send E (CreateRoomResponse True (toRoomInfo room) []) sid s5
        in notifyRoomListChanged s6)"

definition handleJoinRoom ::
  "'r room_env \<Rightarrow> string \<Rightarrow> string \<Rightarrow> string \<Rightarrow> nat \<Rightarrow> 'r room_server \<Rightarrow> 'r room_server" where
  "handleJoinRoom E player_id player_name room_id sid s =
     (if duplicate_player player_id sid s then
        sendRejectTo E sid DUPLICATE_PLAYER ''Player ID already connected'' s
      else if session_playerId sid s \<noteq> [] \<and> session_playerId sid s \<noteq> player_id then
        sendRejectTo E sid INVALID_REQUEST ''Session already has a different player ID'' s
      else if umap_contains (m_player_to_room s) player_id then
        sendRejectTo E sid ALREADY_IN_ROOM ''Already in a room'' s
      else case umap_find (m_rooms s) room_id of
          None \<Rightarrow> sendRejectTo E sid ROOM_NOT_FOUND ''Room not found'' s
        | Some room \<Rightarrow>
            if r_state room \<noteq> ROOM_WAITING then
              sendRejectTo E sid INVALID_REQUEST ''Room is already in game'' s
            else if isFull room then
              sendRejectTo E sid ROOM_FULL ''Room is full'' s
            else
              let room' = snd (addPlayer player_id player_name room);
                  s1 = s\<lparr>m_rooms := umap_put room_id room' (m_rooms s),
                         m_player_to_room := umap_put player_id room_id (m_player_to_room s)\<rparr>;
                  s2 = set_session_player player_id sid s1;
                  s3 = registerSession player_id sid s2;
                  s4 = removeLobbySession sid s3;
                  s5 = session_send E (JoinRoomResponse True (toRoomInfo room') []) sid s4;
                  s6 = broadcastToRoom_except E room' (RoomUpdate (toRoomInfo room')) player_id s5
              in notifyRoomListChanged s6)"

text \<open>The body of the loop that empties a room, in \<open>removeRoom\<close> and in
  \<open>handleGameServerDisconnect\<close>.\<close>

definition evict :: "string \<Rightarrow> 'r room_server \<Rightarrow> 'r room_server" where
  "evict player_id s =
     (let s' = return_to_lobby player_id s
      in s'\<lparr>m_player_to_room := umap_erase player_id (m_player_to_room s')\<rparr>)"

definition removeRoom :: "'r room_env \<Rightarrow> string \<Rightarrow> string \<Rightarrow> 'r room_server \<Rightarrow> 'r room_server" where
  "removeRoom E room_id exclude_player_id s =
     (case umap_find (m_rooms s) room_id of
        None \<Rightarrow> s
      | Some room \<Rightarrow>
          let s1 = broadcastToRoom_except E room (Reject ROOM_CLOSED ''Room closed by host'')
                     exclude_player_id s;
              s2 = fold evict (playerIds room) s1
          in s2\<lparr>m_rooms := umap_erase room_id (m_rooms s2)\<rparr>)"

definition handleLeaveRoom :: "'r room_env \<Rightarrow> string \<Rightarrow> 'r room_server \<Rightarrow> 'r room_server" where
  "handleLeaveRoom E player_id s =
     (case umap_find (m_player_to_room s) player_id of
        None \<Rightarrow> s
      | Some room_id \<Rightarrow>
          (case umap_find (m_rooms s) room_id of
             None \<Rightarrow> s\<lparr>m_player_to_room := umap_erase player_id (m_player_to_room s)\<rparr>
           | Some room \<Rightarrow>
               let was_host = isHost player_id room;
                   room' = snd (removePlayer player_id room);
                   s1 = s\<lparr>m_rooms := umap_put room_id room' (m_rooms s),
                          m_player_to_room := umap_erase player_id (m_player_to_room s)\<rparr>;
                   s2 = (if was_host then removeRoom E room_id player_id s1
                         else if playerCount room' > 0
                         then broadcastToRoom E room' (RoomUpdate (toRoomInfo room')) s1
                         else s1)
               in notifyRoomListChanged s2))"

definition handleToggleReady :: "'r room_env \<Rightarrow> string \<Rightarrow> 'r room_server \<Rightarrow> 'r room_server" where
  "handleToggleReady E player_id s =
     (case umap_find (m_player_to_room s) player_id of
        None \<Rightarrow> s
      | Some room_id \<Rightarrow>
          (case umap_find (m_rooms s) room_id of
             None \<Rightarrow> s
           | Some room \<Rightarrow>
               if isHost player_id room then s
               else
                 let room' = toggleReady player_id room;
                     s1 = s\<lparr>m_rooms := umap_put room_id room' (m_rooms s)\<rparr>
                 in broadcastToRoom E room' (RoomUpdate (toRoomInfo room')) s1))"

definition hasActiveGame :: "'r room_server \<Rightarrow> bool" where
  "hasActiveGame s = list_ex (\<lambda>(_, room). r_state room = ROOM_IN_GAME) (m_rooms s)"

text \<open>One round of the loop over the players of a starting room.\<close>

definition send_game_start ::
  "'r room_env \<Rightarrow> string \<Rightarrow> string \<Rightarrow> 'r room_server \<Rightarrow> 'r room_server" where
  "send_game_start E session_id pid s =
     (let (auth_token, s1) = issue_token E pid session_id s
      in sendTo E pid (GameStart session_id auth_token (e_game_server_host E)
           (ucast (e_game_server_port E))) s1)"

definition handleStartGame :: "'r room_env \<Rightarrow> string \<Rightarrow> 'r room_server \<Rightarrow> 'r room_server" where
  "handleStartGame E player_id s =
     (case umap_find (m_player_to_room s) player_id of
        None \<Rightarrow> s
      | Some room_id \<Rightarrow>
          (case umap_find (m_rooms s) room_id of
             None \<Rightarrow> s
           | Some room \<Rightarrow>
               if \<not> isHost player_id room then
                 sendTo E player_id (Reject NOT_HOST ''Only host can start the game'') s
               else if hasActiveGame s then
                 sendTo E player_id (Reject GAME_SERVER_BUSY ''Game server is currently in use'') s
               else if \<not> canStart room then
                 sendTo E player_id (Reject NOT_ALL_READY ''Not all players are ready'') s
               else
                 let (session_id, s1) = next_uuid s;
                     room' = setSessionId session_id (setState ROOM_IN_GAME room);
                     s2 = s1\<lparr>m_rooms := umap_put room_id room' (m_rooms s1)\<rparr>;
                     s3 = with_store E (\<lambda>S. registerGameSession S session_id) s2;
                     s4 = fold (send_game_start E session_id) (playerIds room') s3;
                     s5 = (if e_chat_channel E
                           then s4\<lparr>m_chat := sendSessionCreated (e_chat_proto E) session_id
                                  (map (\<lambda>player. (pd_player_id player, pd_player_name player))
                                    (r_players room')) (m_chat s4)\<rparr>
                           else s4)
                 in notifyRoomListChanged s5))"

text \<open>The loop of \<open>handleRoomListRequest\<close> runs \<open>i\<close> from \<open>offset\<close> while \<open>i < total\<close> and
  \<open>i < offset + page_size\<close>; both the product and the sum are taken in \<open>uint32_t\<close>.\<close>

definition room_list_page :: "u32 \<Rightarrow> u32 \<Rightarrow> room list \<Rightarrow> room_summary list" where
  "room_list_page page page_size waiting =
     (let total = (of_nat (length waiting) :: u32);
          offset = page * page_size
      in map (\<lambda>i. toRoomSummary (waiting ! i))
           [unat offset..<min (unat total) (unat (offset + page_size))])"

definition handleRoomListRequest ::
  "'r room_env \<Rightarrow> u32 \<Rightarrow> u32 \<Rightarrow> nat \<Rightarrow> 'r room_server \<Rightarrow> 'r room_server" where
  "handleRoomListRequest E page page_size0 sid s =
     (let page_size1 = (if page_size0 = 0 then 20 else page_size0);
          page_size = (if page_size1 > 100 then 100 else page_size1);
          waiting = waiting_rooms s
      in session_send E (RoomListResponse (room_list_page page page_size waiting)
           (of_nat (length waiting))) sid s)"

definition handleDisconnect :: "'r room_env \<Rightarrow> string \<Rightarrow> 'r room_server \<Rightarrow> 'r room_server" where
  "handleDisconnect E player_id s = unregisterSession player_id (handleLeaveRoom E player_id s)"

text \<open>What both ends of a game do: unregister the session and tell the chat server.\<close>

definition end_session :: "'r room_env \<Rightarrow> string \<Rightarrow> 'r room_server \<Rightarrow> 'r room_server" where
  "end_session E ended_session_id s =
     (let s1 = with_store E (\<lambda>S. unregisterGameSession S ended_session_id) s
      in if e_chat_channel E \<and> ended_session_id \<noteq> []
         then s1\<lparr>m_chat := sendSessionEnded (e_chat_proto E) ended_session_id (m_chat s1)\<rparr>
         else s1)"

definition handleSlotReleased ::
  "'r room_env \<Rightarrow> string \<Rightarrow> string \<Rightarrow> 'r room_server \<Rightarrow> 'r room_server" where
  "handleSlotReleased E player_id session_id s =
     (case umap_find (m_player_to_room s) player_id of
        None \<Rightarrow> s
      | Some room_id \<Rightarrow>
          (case umap_find (m_rooms s) room_id of
             None \<Rightarrow> s\<lparr>m_player_to_room := umap_erase player_id (m_player_to_room s),
                        m_sessions := umap_erase player_id (m_sessions s)\<rparr>
           | Some room \<Rightarrow>
               if session_id \<noteq> [] \<and> r_session_id room \<noteq> session_id then s
               else
                 let s1 = return_to_lobby player_id s;
                     room' = snd (removePlayer player_id room);
                     s2 = s1\<lparr>m_rooms := umap_put room_id room' (m_rooms s1),
                             m_player_to_room := umap_erase player_id (m_player_to_room s1),
                             m_sessions := umap_erase player_id (m_sessions s1)\<rparr>
                 in if playerCount room' = 0
                    then let s3 = end_session E (r_session_id room') s2
                         in s3\<lparr>m_rooms := umap_erase room_id (m_rooms s3)\<rparr>
                    else s2))"

definition close_game_room :: "'r room_env \<Rightarrow> string \<Rightarrow> 'r room_server \<Rightarrow> 'r room_server" where
  "close_game_room E room_id s =
     (case umap_find (m_rooms s) room_id of
        None \<Rightarrow> s
      | Some room \<Rightarrow>
          let s1 = broadcastToRoom E room (Reject ROOM_CLOSED ''Game server disconnected'') s;
              s2 = end_session E (r_session_id room) s1;
              s3 = fold evict (playerIds room) s2
          in s3\<lparr>m_rooms := umap_erase room_id (m_rooms s3)\<rparr>)"

definition handleGameServerDisconnect :: "'r room_env \<Rightarrow> 'r room_server \<Rightarrow> 'r room_server" where
  "handleGameServerDisconnect E s =
     (let in_game_room_ids = map fst (filter (\<lambda>(_, room). r_state room = ROOM_IN_GAME) (m_rooms s))
      in fold (close_game_room E) in_game_room_ids s)"

definition roomCount :: "'r room_server \<Rightarrow> nat" where
  "roomCount s = length (m_rooms s)"

end
