(* ===== verification/RoomInvariant.thy ===== *)
theory RoomInvariant
  imports RoomManager
begin

text \<open>
  The invariant of the room manager. The first half says what each operation of
  \<open>RoomManager\<close> leaves alone. The second half states the invariant over the components it
  concerns (the rooms and the player index; the session registry), so that one lemma per
  kind of change (create, join, leave, close, start) serves every handler that makes it.
\<close>

section \<open>What operations leave unchanged\<close>

text \<open>What the manager reads of a session object: its player identifier and whether it is
  closed. Sending changes neither.\<close>

definition cview :: "'r room_server \<Rightarrow> nat \<Rightarrow> (string \<times> bool) option" where
  "cview s sid = map_option (\<lambda>c. (cs_player_id c, cs_closed c)) (m_clients s sid)"

lemma cview_update [simp]:
  "cview (s\<lparr>m_rooms := a\<rparr>) = cview s"
  "cview (s\<lparr>m_player_to_room := b\<rparr>) = cview s"
  "cview (s\<lparr>m_sessions := c\<rparr>) = cview s"
  "cview (s\<lparr>m_lobby_sessions := d\<rparr>) = cview s"
  "cview (s\<lparr>m_lobby_pending := e\<rparr>) = cview s"
  "cview (s\<lparr>m_lobby_waits := f\<rparr>) = cview s"
  "cview (s\<lparr>m_lobby_cancelled := f\<rparr>) = cview s"
  "cview (s\<lparr>m_games := g\<rparr>) = cview s"
  "cview (s\<lparr>m_next := f\<rparr>) = cview s"
  "cview (s\<lparr>m_chat := h\<rparr>) = cview s"
  "cview (s\<lparr>m_redis := i\<rparr>) = cview s"
  "cview (s\<lparr>m_rng := j\<rparr>) = cview s"
  by (simp_all add: cview_def fun_eq_iff)

lemma lock_cview: "lock s w = (if cview s w \<noteq> None then Some w else None)"
  by (simp add: lock_def cview_def)

lemma session_send_frame [simp]:
  "m_rooms (session_send E e sid s) = m_rooms s"
  "m_player_to_room (session_send E e sid s) = m_player_to_room s"
  "m_sessions (session_send E e sid s) = m_sessions s"
  "m_lobby_sessions (session_send E e sid s) = m_lobby_sessions s"
  "m_lobby_pending (session_send E e sid s) = m_lobby_pending s"
  "m_lobby_waits (session_send E e sid s) = m_lobby_waits s"
  "m_lobby_cancelled (session_send E e sid s) = m_lobby_cancelled s"
  "m_games (session_send E e sid s) = m_games s"
  "m_next (session_send E e sid s) = m_next s"
  "m_chat (session_send E e sid s) = m_chat s"
  "m_redis (session_send E e sid s) = m_redis s"
  "m_rng (session_send E e sid s) = m_rng s"
  "cview (session_send E e sid s) = cview s"
  by (auto simp: session_send_def upd_client_def ClientSession_send_def cview_def fun_eq_iff
      split: option.split)

lemma set_session_player_frame [simp]:
  "m_rooms (set_session_player p sid s) = m_rooms s"
  "m_player_to_room (set_session_player p sid s) = m_player_to_room s"
  "m_sessions (set_session_player p sid s) = m_sessions s"
  "m_lobby_sessions (set_session_player p sid s) = m_lobby_sessions s"
  "m_lobby_pending (set_session_player p sid s) = m_lobby_pending s"
  "m_lobby_waits (set_session_player p sid s) = m_lobby_waits s"
  "m_lobby_cancelled (set_session_player p sid s) = m_lobby_cancelled s"
  "m_games (set_session_player p sid s) = m_games s"
  "m_next (set_session_player p sid s) = m_next s"
  "m_chat (set_session_player p sid s) = m_chat s"
  "m_redis (set_session_player p sid s) = m_redis s"
  "m_rng (set_session_player p sid s) = m_rng s"
  by (simp_all add: set_session_player_def upd_client_def split: option.split)

lemma cview_set_session_player:
  "cview s sid = Some (q, b) \<Longrightarrow> cview (set_session_player p sid s) = (cview s)(sid \<mapsto> (p, b))"
  by (auto simp: cview_def set_session_player_def upd_client_def setPlayerId_def fun_eq_iff)

lemma sendTo_frame [simp]:
  "m_rooms (sendTo E p e s) = m_rooms s"
  "m_player_to_room (sendTo E p e s) = m_player_to_room s"
  "m_sessions (sendTo E p e s) = m_sessions s"
  "m_lobby_sessions (sendTo E p e s) = m_lobby_sessions s"
  "m_lobby_pending (sendTo E p e s) = m_lobby_pending s"
  "m_lobby_waits (sendTo E p e s) = m_lobby_waits s"
  "m_lobby_cancelled (sendTo E p e s) = m_lobby_cancelled s"
  "m_games (sendTo E p e s) = m_games s"
  "m_next (sendTo E p e s) = m_next s"
  "m_chat (sendTo E p e s) = m_chat s"
  "m_redis (sendTo E p e s) = m_redis s"
  "m_rng (sendTo E p e s) = m_rng s"
  "cview (sendTo E p e s) = cview s"
  by (simp_all add: sendTo_def split: option.split)

lemma sendRejectTo_frame [simp]:
  "m_rooms (sendRejectTo E sid reason msg s) = m_rooms s"
  "m_player_to_room (sendRejectTo E sid reason msg s) = m_player_to_room s"
  "m_sessions (sendRejectTo E sid reason msg s) = m_sessions s"
  "m_lobby_sessions (sendRejectTo E sid reason msg s) = m_lobby_sessions s"
  "m_lobby_pending (sendRejectTo E sid reason msg s) = m_lobby_pending s"
  "m_lobby_waits (sendRejectTo E sid reason msg s) = m_lobby_waits s"
  "m_lobby_cancelled (sendRejectTo E sid reason msg s) = m_lobby_cancelled s"
  "m_games (sendRejectTo E sid reason msg s) = m_games s"
  "m_next (sendRejectTo E sid reason msg s) = m_next s"
  "m_chat (sendRejectTo E sid reason msg s) = m_chat s"
  "m_redis (sendRejectTo E sid reason msg s) = m_redis s"
  "m_rng (sendRejectTo E sid reason msg s) = m_rng s"
  "cview (sendRejectTo E sid reason msg s) = cview s"
  by (simp_all add: sendRejectTo_def)

lemma broadcastToRoom_frame [simp]:
  "m_rooms (broadcastToRoom E room e s) = m_rooms s"
  "m_player_to_room (broadcastToRoom E room e s) = m_player_to_room s"
  "m_sessions (broadcastToRoom E room e s) = m_sessions s"
  "m_lobby_sessions (broadcastToRoom E room e s) = m_lobby_sessions s"
  "m_lobby_pending (broadcastToRoom E room e s) = m_lobby_pending s"
  "m_lobby_waits (broadcastToRoom E room e s) = m_lobby_waits s"
  "m_lobby_cancelled (broadcastToRoom E room e s) = m_lobby_cancelled s"
  "m_games (broadcastToRoom E room e s) = m_games s"
  "m_next (broadcastToRoom E room e s) = m_next s"
  "m_chat (broadcastToRoom E room e s) = m_chat s"
  "m_redis (broadcastToRoom E room e s) = m_redis s"
  "m_rng (broadcastToRoom E room e s) = m_rng s"
  "cview (broadcastToRoom E room e s) = cview s"
  by (simp_all add: broadcastToRoom_def fold_frame)

lemma broadcastToRoom_except_frame [simp]:
  "m_rooms (broadcastToRoom_except E room e p s) = m_rooms s"
  "m_player_to_room (broadcastToRoom_except E room e p s) = m_player_to_room s"
  "m_sessions (broadcastToRoom_except E room e p s) = m_sessions s"
  "m_lobby_sessions (broadcastToRoom_except E room e p s) = m_lobby_sessions s"
  "m_lobby_pending (broadcastToRoom_except E room e p s) = m_lobby_pending s"
  "m_lobby_waits (broadcastToRoom_except E room e p s) = m_lobby_waits s"
  "m_lobby_cancelled (broadcastToRoom_except E room e p s) = m_lobby_cancelled s"
  "m_games (broadcastToRoom_except E room e p s) = m_games s"
  "m_next (broadcastToRoom_except E room e p s) = m_next s"
  "m_chat (broadcastToRoom_except E room e p s) = m_chat s"
  "m_redis (broadcastToRoom_except E room e p s) = m_redis s"
  "m_rng (broadcastToRoom_except E room e p s) = m_rng s"
  "cview (broadcastToRoom_except E room e p s) = cview s"
  by (simp_all add: broadcastToRoom_except_def fold_frame)

lemma notifyRoomListChanged_frame [simp]:
  "m_rooms (notifyRoomListChanged s) = m_rooms s"
  "m_player_to_room (notifyRoomListChanged s) = m_player_to_room s"
  "m_sessions (notifyRoomListChanged s) = m_sessions s"
  "m_lobby_sessions (notifyRoomListChanged s) = m_lobby_sessions s"
  "m_games (notifyRoomListChanged s) = m_games s"
  "m_next (notifyRoomListChanged s) = m_next s"
  "m_chat (notifyRoomListChanged s) = m_chat s"
  "m_redis (notifyRoomListChanged s) = m_redis s"
  "m_rng (notifyRoomListChanged s) = m_rng s"
  "m_clients (notifyRoomListChanged s) = m_clients s"
  "cview (notifyRoomListChanged s) = cview s"
  by (simp_all add: notifyRoomListChanged_def cview_def fun_eq_iff)

lemma return_to_lobby_frame [simp]:
  "m_rooms (return_to_lobby p s) = m_rooms s"
  "m_player_to_room (return_to_lobby p s) = m_player_to_room s"
  "m_sessions (return_to_lobby p s) = m_sessions s"
  "m_lobby_pending (return_to_lobby p s) = m_lobby_pending s"
  "m_lobby_waits (return_to_lobby p s) = m_lobby_waits s"
  "m_lobby_cancelled (return_to_lobby p s) = m_lobby_cancelled s"
  "m_games (return_to_lobby p s) = m_games s"
  "m_next (return_to_lobby p s) = m_next s"
  "m_chat (return_to_lobby p s) = m_chat s"
  "m_redis (return_to_lobby p s) = m_redis s"
  "m_rng (return_to_lobby p s) = m_rng s"
  "m_clients (return_to_lobby p s) = m_clients s"
  "cview (return_to_lobby p s) = cview s"
  by (simp_all add: return_to_lobby_def addLobbySession_def cview_def fun_eq_iff split: option.split)

lemma end_session_frame [simp]:
  "m_rooms (end_session E i s) = m_rooms s"
  "m_player_to_room (end_session E i s) = m_player_to_room s"
  "m_sessions (end_session E i s) = m_sessions s"
  "m_lobby_sessions (end_session E i s) = m_lobby_sessions s"
  "m_lobby_pending (end_session E i s) = m_lobby_pending s"
  "m_lobby_waits (end_session E i s) = m_lobby_waits s"
  "m_lobby_cancelled (end_session E i s) = m_lobby_cancelled s"
  "m_games (end_session E i s) = m_games s"
  "m_next (end_session E i s) = m_next s"
  "m_rng (end_session E i s) = m_rng s"
  "m_clients (end_session E i s) = m_clients s"
  "cview (end_session E i s) = cview s"
  by (simp_all add: end_session_def with_store_def cview_def fun_eq_iff Let_def split: option.split)

lemma with_store_frame [simp]:
  "m_rooms (with_store E f s) = m_rooms s"
  "m_player_to_room (with_store E f s) = m_player_to_room s"
  "m_sessions (with_store E f s) = m_sessions s"
  "m_lobby_sessions (with_store E f s) = m_lobby_sessions s"
  "m_lobby_pending (with_store E f s) = m_lobby_pending s"
  "m_lobby_waits (with_store E f s) = m_lobby_waits s"
  "m_lobby_cancelled (with_store E f s) = m_lobby_cancelled s"
  "m_games (with_store E f s) = m_games s"
  "m_next (with_store E f s) = m_next s"
  "m_chat (with_store E f s) = m_chat s"
  "m_rng (with_store E f s) = m_rng s"
  "m_clients (with_store E f s) = m_clients s"
  "cview (with_store E f s) = cview s"
  by (simp_all add: with_store_def cview_def fun_eq_iff split: option.split)

lemma next_uuid_frame [simp]:
  "m_rooms (snd (next_uuid s)) = m_rooms s"
  "m_player_to_room (snd (next_uuid s)) = m_player_to_room s"
  "m_sessions (snd (next_uuid s)) = m_sessions s"
  "m_lobby_sessions (snd (next_uuid s)) = m_lobby_sessions s"
  "m_lobby_pending (snd (next_uuid s)) = m_lobby_pending s"
  "m_lobby_waits (snd (next_uuid s)) = m_lobby_waits s"
  "m_lobby_cancelled (snd (next_uuid s)) = m_lobby_cancelled s"
  "m_games (snd (next_uuid s)) = m_games s"
  "m_next (snd (next_uuid s)) = m_next s"
  "m_chat (snd (next_uuid s)) = m_chat s"
  "m_redis (snd (next_uuid s)) = m_redis s"
  "m_clients (snd (next_uuid s)) = m_clients s"
  "m_rng (snd (next_uuid s)) = snd (generateUuid (m_rng s))"
  "fst (next_uuid s) = fst (generateUuid (m_rng s))"
  "cview (snd (next_uuid s)) = cview s"
  by (simp_all add: next_uuid_def cview_def fun_eq_iff split: prod.split)

lemma issue_token_frame [simp]:
  "m_rooms (snd (issue_token E p i s)) = m_rooms s"
  "m_player_to_room (snd (issue_token E p i s)) = m_player_to_room s"
  "m_sessions (snd (issue_token E p i s)) = m_sessions s"
  "m_lobby_sessions (snd (issue_token E p i s)) = m_lobby_sessions s"
  "m_lobby_pending (snd (issue_token E p i s)) = m_lobby_pending s"
  "m_lobby_waits (snd (issue_token E p i s)) = m_lobby_waits s"
  "m_lobby_cancelled (snd (issue_token E p i s)) = m_lobby_cancelled s"
  "m_games (snd (issue_token E p i s)) = m_games s"
  "m_next (snd (issue_token E p i s)) = m_next s"
  "m_chat (snd (issue_token E p i s)) = m_chat s"
  "cview (snd (issue_token E p i s)) = cview s"
  by (simp_all add: issue_token_def cview_def fun_eq_iff split: option.split prod.split sum.split)

lemma send_game_start_frame [simp]:
  "m_rooms (send_game_start E i p s) = m_rooms s"
  "m_player_to_room (send_game_start E i p s) = m_player_to_room s"
  "m_sessions (send_game_start E i p s) = m_sessions s"
  "m_lobby_sessions (send_game_start E i p s) = m_lobby_sessions s"
  "m_lobby_pending (send_game_start E i p s) = m_lobby_pending s"
  "m_lobby_waits (send_game_start E i p s) = m_lobby_waits s"
  "m_lobby_cancelled (send_game_start E i p s) = m_lobby_cancelled s"
  "m_games (send_game_start E i p s) = m_games s"
  "m_next (send_game_start E i p s) = m_next s"
  "m_chat (send_game_start E i p s) = m_chat s"
  "cview (send_game_start E i p s) = cview s"
  by (simp_all add: send_game_start_def case_prod_beta)

section \<open>The rooms and the player index\<close>

abbreviation in_game :: "room \<Rightarrow> bool" where
  "in_game r \<equiv> r_state r = ROOM_IN_GAME"

text \<open>
  \<open>rooms_\<close> and \<open>player_to_room_\<close> agree: a player is indexed under a room exactly if the
  room lists it; every room is well-formed, admits no more players than the server allows,
  and is stored under its own identifier, which the generator has issued; there are at most
  \<open>max_rooms\<close> rooms and at most one of them is in game.
\<close>

definition index_ok :: "(string, room) umap \<Rightarrow> (string, string) umap \<Rightarrow> bool" where
  "index_ok rooms p2r \<longleftrightarrow>
     (\<forall>p rid. umap_find p2r p = Some rid \<longleftrightarrow>
        (\<exists>r. umap_find rooms rid = Some r \<and> p \<in> set (playerIds r)))"

definition room_ok :: "'r room_env \<Rightarrow> rng \<Rightarrow> string \<Rightarrow> room \<Rightarrow> bool" where
  "room_ok E g rid r \<longleftrightarrow> r_room_id r = rid \<and> rid \<in> set (issued g) \<and> room_wf r \<and>
     r_max_players r \<le> e_max_players_per_room E"

definition rooms_inv ::
  "'r room_env \<Rightarrow> rng \<Rightarrow> (string, room) umap \<Rightarrow> (string, string) umap \<Rightarrow> bool" where
  "rooms_inv E g rooms p2r \<longleftrightarrow>
     umap_ok rooms \<and> umap_ok p2r \<and> index_ok rooms p2r \<and>
     (\<forall>rid r. umap_find rooms rid = Some r \<longrightarrow> room_ok E g rid r) \<and>
     length rooms \<le> unat (e_max_rooms E) \<and> umap_count in_game rooms \<le> 1"

lemma rooms_invD:
  assumes "rooms_inv E g rooms p2r"
  shows "umap_ok rooms" and "umap_ok p2r" and "index_ok rooms p2r"
    and "umap_find rooms rid = Some r \<Longrightarrow> room_ok E g rid r"
    and "length rooms \<le> unat (e_max_rooms E)" and "umap_count in_game rooms \<le> 1"
  using assms by (simp_all add: rooms_inv_def)

lemma rooms_inv_rng:
  assumes "rooms_inv E g rooms p2r" and "set (issued g) \<subseteq> set (issued g')"
  shows "rooms_inv E g' rooms p2r"
  using assms by (fastforce simp: rooms_inv_def room_ok_def)

text \<open>In a consistent index the members of a room are indexed there, and nowhere else.\<close>

lemma index_memberD:
  "index_ok rooms p2r \<Longrightarrow> umap_find rooms rid = Some r \<Longrightarrow> p \<in> set (playerIds r) \<Longrightarrow>
   umap_find p2r p = Some rid"
  by (auto simp: index_ok_def)

lemma index_roomD:
  assumes "index_ok rooms p2r" and "umap_find p2r p = Some rid"
  obtains r where "umap_find rooms rid = Some r" and "p \<in> set (playerIds r)"
  using assms by (auto simp: index_ok_def)

text \<open>Storing a room with the same members, adding a member, removing one, removing all.\<close>

lemma index_same:
  assumes "index_ok rooms p2r" and "umap_find rooms rid = Some r" and "playerIds r' = playerIds r"
  shows "index_ok (umap_put rid r' rooms) p2r"
  using assms by (auto simp: index_ok_def)

lemma index_add:
  assumes "index_ok rooms p2r" and "umap_find p2r p = None"
    and "set (playerIds r') = insert p (case umap_find rooms rid of None \<Rightarrow> {} | Some r \<Rightarrow> set (playerIds r))"
  shows "index_ok (umap_put rid r' rooms) (umap_put p rid p2r)"
  unfolding index_ok_def
proof (intro allI)
  fix q k
  have "umap_find p2r q = Some k \<longleftrightarrow> (\<exists>r. umap_find rooms k = Some r \<and> q \<in> set (playerIds r))"
    using assms(1) by (simp add: index_ok_def)
  with assms(2,3) show "umap_find (umap_put p rid p2r) q = Some k \<longleftrightarrow>
      (\<exists>r. umap_find (umap_put rid r' rooms) k = Some r \<and> q \<in> set (playerIds r))"
    by (cases "q = p"; cases "k = rid") (auto split: option.splits)
qed

lemma index_remove:
  assumes "index_ok rooms p2r" and "umap_find rooms rid = Some r" and "p \<in> set (playerIds r)"
    and "set (playerIds r') = set (playerIds r) - {p}"
  shows "index_ok (umap_put rid r' rooms) (umap_erase p p2r)"
  unfolding index_ok_def
proof (intro allI)
  fix q k
  have "umap_find p2r q = Some k \<longleftrightarrow> (\<exists>r. umap_find rooms k = Some r \<and> q \<in> set (playerIds r))"
    using assms(1) by (simp add: index_ok_def)
  with assms(2,4) index_memberD [OF assms(1-3)]
  show "umap_find (umap_erase p p2r) q = Some k \<longleftrightarrow>
      (\<exists>r. umap_find (umap_put rid r' rooms) k = Some r \<and> q \<in> set (playerIds r))"
    by (cases "q = p"; cases "k = rid") auto
qed

lemma find_fold_erase:
  "umap_find (fold umap_erase ks m) k = (if k \<in> set ks then None else umap_find m k)"
  by (induction ks arbitrary: m) auto

lemma umap_ok_fold_erase: "umap_ok m \<Longrightarrow> umap_ok (fold umap_erase ks m)"
  by (induction ks arbitrary: m) auto

lemma index_close:
  assumes "index_ok rooms p2r" and "umap_find rooms rid = Some r"
    and "set ps = set (playerIds r)"
  shows "index_ok (umap_erase rid rooms) (fold umap_erase ps p2r)"
  unfolding index_ok_def
proof (intro allI)
  fix q k
  have "umap_find p2r q = Some k \<longleftrightarrow> (\<exists>r. umap_find rooms k = Some r \<and> q \<in> set (playerIds r))"
    using assms(1) by (simp add: index_ok_def)
  with assms(2,3) index_memberD [OF assms(1,2), of q]
  show "umap_find (fold umap_erase ps p2r) q = Some k \<longleftrightarrow>
      (\<exists>r. umap_find (umap_erase rid rooms) k = Some r \<and> q \<in> set (playerIds r))"
    by (cases "q \<in> set ps"; cases "k = rid") (auto simp: find_fold_erase)
qed

section \<open>Changes that keep the rooms consistent\<close>

lemma rooms_inv_create:
  assumes inv: "rooms_inv E g rooms p2r" and new: "umap_find p2r p = None"
    and room: "length rooms < unat (e_max_rooms E)" "1 \<le> mp" "mp \<le> e_max_players_per_room E"
    and fresh: "rid \<notin> set (issued g)" and g': "set (issued g') = insert rid (set (issued g))"
  shows "rooms_inv E g' (umap_put rid (Room_new rid n p pn mp) rooms) (umap_put p rid p2r)"
proof -
  let ?r = "Room_new rid n p pn mp"
  have no: "umap_find rooms rid = None"
    using rooms_invD(4) [OF inv] fresh by (cases "umap_find rooms rid") (auto simp: room_ok_def)
  have ok: "room_ok E g' rid ?r"
    using room g' by (simp add: room_ok_def room_wf_intros) (simp add: Room_new_def)
  have "index_ok (umap_put rid ?r rooms) (umap_put p rid p2r)"
    using rooms_invD(3) [OF inv] new no by (auto intro: index_add)
  moreover have "umap_count in_game (umap_put rid ?r rooms) = umap_count in_game rooms"
    using no by (simp add: umap_count_put_new Room_new_def)
  moreover have "length (umap_put rid ?r rooms) \<le> unat (e_max_rooms E)"
    using room(1) by (simp add: length_put)
  moreover have "room_ok E g' k v" if "umap_find (umap_put rid ?r rooms) k = Some v" for k v
    using that ok rooms_invD(4) [OF inv, of k v] g' by (auto simp: room_ok_def split: if_splits)
  ultimately show ?thesis
    using rooms_invD(1,2,6) [OF inv] by (simp add: rooms_inv_def)
qed

lemma rooms_inv_put:
  assumes inv: "rooms_inv E g rooms p2r" and old: "umap_find rooms rid = Some r"
    and ok: "room_ok E g rid r'"
    and game: "in_game r' \<longrightarrow> in_game r \<or> umap_count in_game rooms = 0"
    and idx: "index_ok (umap_put rid r' rooms) p2r'" and "umap_ok p2r'"
  shows "rooms_inv E g (umap_put rid r' rooms) p2r'"
proof -
  have "umap_contains rooms rid" using old by (simp add: umap_contains_def)
  then have "length (umap_put rid r' rooms) \<le> unat (e_max_rooms E)"
    using rooms_invD(5) [OF inv] by (simp add: length_put)
  moreover have "umap_count in_game (umap_put rid r' rooms) \<le> 1"
    using umap_count_put_old [OF old, of in_game r'] rooms_invD(6) [OF inv] game
    by (auto split: if_splits)
  ultimately show ?thesis
    using assms rooms_invD(1,4) [OF inv] by (auto simp: rooms_inv_def)
qed

lemma rooms_inv_erase:
  assumes inv: "rooms_inv E g rooms p2r" and "umap_find rooms rid = Some r"
    and "set ps = set (playerIds r)"
  shows "rooms_inv E g (umap_erase rid rooms) (fold umap_erase ps p2r)"
proof -
  have "length (umap_erase rid rooms) \<le> unat (e_max_rooms E)"
    using length_erase_le rooms_invD(5) [OF inv] by (rule le_trans)
  moreover have "umap_count in_game (umap_erase rid rooms) \<le> 1"
    using umap_count_erase_le rooms_invD(6) [OF inv] by (rule le_trans)
  moreover have "index_ok (umap_erase rid rooms) (fold umap_erase ps p2r)"
    using rooms_invD(3) [OF inv] assms(2,3) by (rule index_close)
  ultimately show ?thesis
    using rooms_invD(1,2,4) [OF inv] by (auto simp: rooms_inv_def umap_ok_fold_erase)
qed

lemma rooms_inv_join:
  assumes inv: "rooms_inv E g rooms p2r" and r: "umap_find rooms rid = Some r"
    and new: "umap_find p2r p = None" and "r_state r = ROOM_WAITING" "\<not> isFull r"
  shows "rooms_inv E g (umap_put rid (snd (addPlayer p n r)) rooms) (umap_put p rid p2r)"
proof -
  have "p \<notin> set (playerIds r)"
    using index_memberD [OF rooms_invD(3) [OF inv] r] new by auto
  then have ids: "playerIds (snd (addPlayer p n r)) = playerIds r @ [p]"
    using assms(4,5) by (simp add: playerIds_addPlayer addPlayer_result)
  have "room_ok E g rid (snd (addPlayer p n r))"
    using rooms_invD(4) [OF inv r] by (simp add: room_ok_def addPlayer_wf)
  moreover have "index_ok (umap_put rid (snd (addPlayer p n r)) rooms) (umap_put p rid p2r)"
    using rooms_invD(3) [OF inv] new by (rule index_add) (simp add: ids r)
  ultimately show ?thesis
    using rooms_invD(2) [OF inv] by (intro rooms_inv_put [OF inv r]) simp_all
qed

lemma rooms_inv_leave:
  assumes inv: "rooms_inv E g rooms p2r" and r: "umap_find rooms rid = Some r"
    and "umap_find p2r p = Some rid"
  shows "rooms_inv E g (umap_put rid (snd (removePlayer p r)) rooms) (umap_erase p p2r)"
proof -
  have p: "p \<in> set (playerIds r)"
    using index_roomD [OF rooms_invD(3) [OF inv] assms(3)] r by auto
  note ok = rooms_invD(4) [OF inv r]
  then have "room_ok E g rid (snd (removePlayer p r))"
    by (simp add: room_ok_def removePlayer_wf)
  moreover have "index_ok (umap_put rid (snd (removePlayer p r)) rooms) (umap_erase p p2r)"
    using rooms_invD(3) [OF inv] r p
    by (rule index_remove) (use ok in \<open>simp add: room_ok_def room_wf_def set_remove1_eq\<close>)
  ultimately show ?thesis
    using rooms_invD(2) [OF inv] by (intro rooms_inv_put [OF inv r]) simp_all
qed

lemma rooms_inv_toggle:
  assumes inv: "rooms_inv E g rooms p2r" and r: "umap_find rooms rid = Some r"
  shows "rooms_inv E g (umap_put rid (toggleReady p r) rooms) p2r"
  using rooms_invD(2,3,4) [OF inv] r
  by (intro rooms_inv_put [OF inv r]) (auto simp: room_ok_def toggleReady_wf intro: index_same)

lemma rooms_inv_start:
  assumes inv: "rooms_inv E g rooms p2r" and r: "umap_find rooms rid = Some r"
    and "umap_count in_game rooms = 0" and "i \<noteq> []"
  shows "rooms_inv E g (umap_put rid (setSessionId i (setState ROOM_IN_GAME r)) rooms) p2r"
proof -
  have "room_ok E g rid (setSessionId i (setState ROOM_IN_GAME r))"
    using rooms_invD(4) [OF inv r] assms(4) start_wf [of r i]
    by (simp add: room_ok_def) (simp add: setSessionId_def setState_def)
  then show ?thesis
    using rooms_invD(2,3) [OF inv] assms(3) r
    by (intro rooms_inv_put [OF inv r]) (auto intro: index_same)
qed

end
