(* ===== verification/RoomHandlers.thy ===== *)
theory RoomHandlers
  imports RoomInvariant
begin

text \<open>
  Every handler of the room manager keeps the two halves of the invariant: \<open>rooms_safe\<close>
  (the rooms and the player index agree, as long as the generator has not repeated an
  identifier) and \<open>sess_safe\<close> (whoever is in a room is registered with a live, open session).
\<close>

section \<open>Rooms\<close>

definition rooms_safe :: "'r room_env \<Rightarrow> 'r room_server \<Rightarrow> bool" where
  "rooms_safe E s \<longleftrightarrow>
     (uuids_fresh (m_rng s) \<longrightarrow> rooms_inv E (m_rng s) (m_rooms s) (m_player_to_room s))"

lemma rooms_safe_cong:
  assumes "rooms_safe E s" and "m_rng s' = m_rng s" and "m_rooms s' = m_rooms s"
    and "m_player_to_room s' = m_player_to_room s"
  shows "rooms_safe E s'"
  using assms by (simp add: rooms_safe_def)

text \<open>The generator only ever adds identifiers.\<close>

definition rng_ext :: "rng \<Rightarrow> rng \<Rightarrow> bool" where
  "rng_ext g g' \<longleftrightarrow> (\<exists>us. issued g' = issued g @ us)"

lemma rng_ext_refl [simp]: "rng_ext g g"
  by (simp add: rng_ext_def)

lemma rng_ext_trans: "rng_ext g g' \<Longrightarrow> rng_ext g' g'' \<Longrightarrow> rng_ext g g''"
  by (auto simp: rng_ext_def)

lemma rng_ext_generate [simp]: "rng_ext g (snd (generateUuid g))"
  by (simp add: rng_ext_def issued_generateUuid)

lemma rng_ext_fresh: "rng_ext g g' \<Longrightarrow> uuids_fresh g' \<Longrightarrow> uuids_fresh g"
  by (auto simp: rng_ext_def uuids_fresh_def)

lemma rng_ext_issued: "rng_ext g g' \<Longrightarrow> set (issued g) \<subseteq> set (issued g')"
  by (auto simp: rng_ext_def)

lemma rng_ext_createToken: "rng_ext g (fst (snd (createToken S p i g r)))"
proof -
  have "fst (snd (createToken S p i g r)) = snd (generateUuid g)"
    by (simp add: createToken_def case_prod_beta Let_def split: sum.split prod.split)
  then show ?thesis by simp
qed

lemma rng_ext_issue_token: "rng_ext (m_rng s) (m_rng (snd (issue_token E p i s)))"
proof (cases "e_session_store E")
  case (Some S)
  obtain res g r where c: "createToken S p i (m_rng s) (m_redis s) = (res, g, r)"
    by (metis prod_cases3)
  then have "rng_ext (m_rng s) g" using rng_ext_createToken [of "m_rng s" S p i "m_redis s"] by simp
  with Some c rng_ext_trans [OF _ rng_ext_generate] show ?thesis
    by (cases res) (auto simp: issue_token_def)
qed (simp add: issue_token_def)

lemma rng_ext_game_start: "rng_ext (m_rng s) (m_rng (send_game_start E i p s))"
  using rng_ext_issue_token [of s E p i] by (simp add: send_game_start_def case_prod_beta)

lemma rng_ext_fold:
  assumes "\<And>x s. rng_ext (m_rng s) (m_rng (f x s))"
  shows "rng_ext (m_rng s) (m_rng (fold f xs s))"
  using assms rng_ext_trans by (induction xs arbitrary: s) fastforce+

lemma game_starts_frame [simp]:
  "m_rooms (fold (send_game_start E i) ps s) = m_rooms s"
  "m_player_to_room (fold (send_game_start E i) ps s) = m_player_to_room s"
  "m_sessions (fold (send_game_start E i) ps s) = m_sessions s"
  "m_lobby_sessions (fold (send_game_start E i) ps s) = m_lobby_sessions s"
  "m_lobby_pending (fold (send_game_start E i) ps s) = m_lobby_pending s"
  "m_lobby_waits (fold (send_game_start E i) ps s) = m_lobby_waits s"
  "m_lobby_cancelled (fold (send_game_start E i) ps s) = m_lobby_cancelled s"
  "m_chat (fold (send_game_start E i) ps s) = m_chat s"
  "cview (fold (send_game_start E i) ps s) = cview s"
  by (simp_all add: fold_frame)

lemma rng_ext_game_starts: "rng_ext (m_rng s) (m_rng (fold (send_game_start E i) ps s))"
  by (rule rng_ext_fold) (rule rng_ext_game_start)

lemma rooms_safe_ext:
  assumes "rooms_safe E s" and ext: "rng_ext (m_rng s) (m_rng s')" and "m_rooms s' = m_rooms s"
    and "m_player_to_room s' = m_player_to_room s"
  shows "rooms_safe E s'"
  using assms rooms_inv_rng [OF _ rng_ext_issued [OF ext]] rng_ext_fresh [OF ext]
  by (auto simp: rooms_safe_def)

lemma hasActiveGame_iff: "hasActiveGame s \<longleftrightarrow> umap_count in_game (m_rooms s) \<noteq> 0"
  by (auto simp: hasActiveGame_def umap_count_zero_iff list_ex_iff)

text \<open>Rejections, requests for the room list and other messages that only send.\<close>

lemma rooms_safe_frame [simp]:
  "rooms_safe E (session_send F e sid s) = rooms_safe E s"
  "rooms_safe E (sendTo F p e s) = rooms_safe E s"
  "rooms_safe E (sendRejectTo F sid rr msg s) = rooms_safe E s"
  "rooms_safe E (broadcastToRoom F rm e s) = rooms_safe E s"
  "rooms_safe E (broadcastToRoom_except F rm e p s) = rooms_safe E s"
  "rooms_safe E (notifyRoomListChanged s) = rooms_safe E s"
  "rooms_safe E (addLobbySession sid s) = rooms_safe E s"
  "rooms_safe E (removeLobbySession sid s) = rooms_safe E s"
  "rooms_safe E (registerSession p sid s) = rooms_safe E s"
  "rooms_safe E (unregisterSession p s) = rooms_safe E s"
  "rooms_safe E (set_session_player p sid s) = rooms_safe E s"
  "rooms_safe E (end_session F i s) = rooms_safe E s"
  "rooms_safe E (handleRoomListRequest F pg n sid s) = rooms_safe E s"
  by (simp_all add: rooms_safe_def addLobbySession_def removeLobbySession_def
      registerSession_def unregisterSession_def handleRoomListRequest_def Let_def)

lemma rooms_safe_create:
  assumes "rooms_safe E s"
  shows "rooms_safe E (handleCreateRoom E p pn n mp sid s)"
proof -
  obtain u g where u: "generateUuid (m_rng s) = (u, g)" by fastforce
  have g: "issued g = issued (m_rng s) @ [u]" using issued_generateUuid [of "m_rng s"] u by simp
  let ?s = "s\<lparr>m_rng := g, m_rooms := umap_put u (Room_new u n p pn mp) (m_rooms s),
    m_player_to_room := umap_put p u (m_player_to_room s)\<rparr>"
  have "rooms_safe E ?s"
    if "\<not> umap_contains (m_player_to_room s) p" "\<not> unat (e_max_rooms E) \<le> length (m_rooms s)"
      "\<not> (mp < 1 \<or> mp > e_max_players_per_room E)"
    unfolding rooms_safe_def
  proof
    assume "uuids_fresh (m_rng ?s)"
    then have fresh: "uuids_fresh (m_rng s)" "u \<notin> set (issued (m_rng s))"
      using g by (auto simp: uuids_fresh_def)
    have mp: "1 \<le> mp" "mp \<le> e_max_players_per_room E" using that(3) linorder_not_less by blast+
    show "rooms_inv E (m_rng ?s) (m_rooms ?s) (m_player_to_room ?s)"
      using assms that(1,2) fresh g rooms_inv_create [OF _ _ _ mp fresh(2)]
      by (simp add: rooms_safe_def umap_contains_def)
  qed
  then show ?thesis
    using assms by (simp add: handleCreateRoom_def Let_def next_uuid_def u)
qed

lemma rooms_safe_join:
  assumes "rooms_safe E s"
  shows "rooms_safe E (handleJoinRoom E p pn rid sid s)"
proof (cases "umap_find (m_rooms s) rid")
  case (Some r)
  let ?s = "s\<lparr>m_rooms := umap_put rid (snd (addPlayer p pn r)) (m_rooms s),
    m_player_to_room := umap_put p rid (m_player_to_room s)\<rparr>"
  have "rooms_safe E ?s"
    if "\<not> umap_contains (m_player_to_room s) p" "r_state r = ROOM_WAITING" "\<not> isFull r"
    using assms rooms_inv_join [OF _ Some _ that(2,3)] that(1)
    by (auto simp: rooms_safe_def umap_contains_def)
  then show ?thesis
    using assms Some by (auto simp: handleJoinRoom_def Let_def)
qed (simp add: handleJoinRoom_def assms)

lemma rooms_safe_toggle:
  assumes "rooms_safe E s"
  shows "rooms_safe E (handleToggleReady E p s)"
  using assms rooms_inv_toggle [of E "m_rng s" "m_rooms s" "m_player_to_room s"]
  by (auto simp: handleToggleReady_def rooms_safe_def Let_def split: option.split)

text \<open>Emptying a room.\<close>

lemma evict_frame [simp]:
  "m_rooms (fold evict ps s) = m_rooms s"
  "m_sessions (fold evict ps s) = m_sessions s"
  "m_rng (fold evict ps s) = m_rng s"
  "m_clients (fold evict ps s) = m_clients s"
  "m_games (fold evict ps s) = m_games s"
  "m_chat (fold evict ps s) = m_chat s"
  "m_next (fold evict ps s) = m_next s"
  "m_redis (fold evict ps s) = m_redis s"
  "m_lobby_pending (fold evict ps s) = m_lobby_pending s"
  "m_lobby_waits (fold evict ps s) = m_lobby_waits s"
  "m_lobby_cancelled (fold evict ps s) = m_lobby_cancelled s"
  "cview (fold evict ps s) = cview s"
  "m_player_to_room (fold evict ps s) = fold umap_erase ps (m_player_to_room s)"
  by (induction ps arbitrary: s) (simp_all add: evict_def Let_def cview_def fun_eq_iff)

lemma removeRoom_parts:
  assumes "umap_find (m_rooms s) rid = Some r"
  shows "m_rooms (removeRoom E rid x s) = umap_erase rid (m_rooms s)"
    and "m_player_to_room (removeRoom E rid x s) = fold umap_erase (playerIds r) (m_player_to_room s)"
    and "m_sessions (removeRoom E rid x s) = m_sessions s"
    and "m_rng (removeRoom E rid x s) = m_rng s"
    and "cview (removeRoom E rid x s) = cview s"
  using assms by (simp_all add: removeRoom_def Let_def)

text \<open>Leaving a room: the parts of the state after each branch.\<close>

lemma leave_parts:
  assumes "umap_find (m_player_to_room s) p = Some rid" and r: "umap_find (m_rooms s) rid = Some r"
  shows "m_rooms (handleLeaveRoom E p s) =
      (if isHost p r then umap_erase rid (umap_put rid (snd (removePlayer p r)) (m_rooms s))
       else umap_put rid (snd (removePlayer p r)) (m_rooms s))"
    and "m_player_to_room (handleLeaveRoom E p s) =
      (if isHost p r then fold umap_erase (remove1 p (playerIds r)) (umap_erase p (m_player_to_room s))
       else umap_erase p (m_player_to_room s))"
    and "m_rng (handleLeaveRoom E p s) = m_rng s"
  using assms by (auto simp: handleLeaveRoom_def Let_def removeRoom_parts)

lemma leave_nothing:
  "umap_find (m_player_to_room s) p = None \<Longrightarrow> handleLeaveRoom E p s = s"
  by (simp add: handleLeaveRoom_def)

lemma leave_frame [simp]:
  "m_sessions (handleLeaveRoom E p s) = m_sessions s"
  "m_rng (handleLeaveRoom E p s) = m_rng s"
  "cview (handleLeaveRoom E p s) = cview s"
  by (auto simp: handleLeaveRoom_def Let_def removeRoom_parts split: option.split)

lemma rooms_safe_leave:
  assumes "rooms_safe E s"
  shows "rooms_safe E (handleLeaveRoom E p s)"
proof (cases "umap_find (m_player_to_room s) p")
  case (Some rid)
  show ?thesis
    unfolding rooms_safe_def leave_frame
  proof
    assume "uuids_fresh (m_rng s)"
    with assms have inv: "rooms_inv E (m_rng s) (m_rooms s) (m_player_to_room s)"
      by (simp add: rooms_safe_def)
    from index_roomD [OF rooms_invD(3) [OF inv] Some]
    obtain r where r: "umap_find (m_rooms s) rid = Some r" .
    note left = rooms_inv_leave [OF inv r Some]
    show "rooms_inv E (m_rng s) (m_rooms (handleLeaveRoom E p s))
        (m_player_to_room (handleLeaveRoom E p s))"
      using left rooms_inv_erase [OF left, of rid "snd (removePlayer p r)" "remove1 p (playerIds r)"]
      by (simp add: leave_parts [OF Some r])
  qed
qed (simp add: leave_nothing assms)

lemma rooms_safe_disconnect: "rooms_safe E s \<Longrightarrow> rooms_safe E (handleDisconnect E p s)"
  by (simp add: handleDisconnect_def rooms_safe_leave)

lemma rooms_safe_start:
  assumes "rooms_safe E s"
  shows "rooms_safe E (handleStartGame E p s)"
proof (cases "umap_find (m_player_to_room s) p")
  case (Some rid)
  show ?thesis
  proof (cases "umap_find (m_rooms s) rid")
    case r: (Some r)
    obtain u g where u: "generateUuid (m_rng s) = (u, g)" by fastforce
    have g: "rng_ext (m_rng s) g" and ne: "u \<noteq> []"
      using rng_ext_generate [of "m_rng s"] uuid_nonempty [of "m_rng s"] by (simp_all add: u)
    let ?r = "setSessionId u (setState ROOM_IN_GAME r)"
    let ?s = "s\<lparr>m_rng := g, m_rooms := umap_put rid ?r (m_rooms s)\<rparr>"
    let ?t = "fold (send_game_start E u) (playerIds ?r) (with_store E (\<lambda>S. registerGameSession S u) ?s)"
    have "rooms_safe E ?s" if "\<not> hasActiveGame s"
      using assms rooms_inv_start [OF _ r _ ne] rooms_inv_rng [OF _ rng_ext_issued [OF g]]
        rng_ext_fresh [OF g] that
      by (simp add: rooms_safe_def hasActiveGame_iff) blast
    then have "rooms_safe E ?t" if "\<not> hasActiveGame s"
      by (rule rooms_safe_ext)
        (use that rng_ext_game_starts [of "with_store E (\<lambda>S. registerGameSession S u) ?s" E u]
          in simp_all)
    then show ?thesis
      using assms Some r
      by (auto simp: handleStartGame_def next_uuid_def u Let_def intro: rooms_safe_cong)
  qed (simp add: handleStartGame_def assms Some)
qed (simp add: handleStartGame_def assms)

lemma rooms_safe_slot:
  assumes "rooms_safe E s"
  shows "rooms_safe E (handleSlotReleased E p i s)"
proof (cases "umap_find (m_player_to_room s) p")
  case (Some rid)
  show ?thesis
  proof (cases "umap_find (m_rooms s) rid")
    case None
    with Some assms show ?thesis
      by (auto simp: handleSlotReleased_def rooms_safe_def rooms_inv_def index_ok_def)
  next
    case r: (Some r)
    let ?r = "snd (removePlayer p r)" and ?p2r = "umap_erase p (m_player_to_room s)"
    have left: "rooms_inv E (m_rng s) (umap_put rid ?r (m_rooms s)) ?p2r" if "uuids_fresh (m_rng s)"
      using assms that rooms_inv_leave [OF _ r Some] by (auto simp: rooms_safe_def)
    have "rooms_inv E (m_rng s) (umap_erase rid (umap_put rid ?r (m_rooms s))) ?p2r"
      if "uuids_fresh (m_rng s)" "playerCount ?r = 0"
    proof -
      have "room_wf ?r" using rooms_invD(4) [OF left [OF that(1)], of rid ?r] by (simp add: room_ok_def)
      then have "playerIds ?r = []" using that(2) playerCount_zero_iff by blast
      then show ?thesis
        using rooms_inv_erase [OF left [OF that(1)], of rid ?r "[]"] by simp
    qed
    with left assms Some r show ?thesis
      by (auto simp: handleSlotReleased_def Let_def rooms_safe_def)
  qed
qed (simp add: handleSlotReleased_def assms)

lemma close_game_room_parts:
  assumes "umap_find (m_rooms s) rid = Some r"
  shows "m_rooms (close_game_room E rid s) = umap_erase rid (m_rooms s)"
    and "m_player_to_room (close_game_room E rid s) = fold umap_erase (playerIds r) (m_player_to_room s)"
  using assms by (simp_all add: close_game_room_def Let_def)

lemma close_game_room_frame [simp]:
  "m_sessions (close_game_room E rid s) = m_sessions s"
  "m_rng (close_game_room E rid s) = m_rng s"
  "cview (close_game_room E rid s) = cview s"
  by (simp_all add: close_game_room_def Let_def split: option.split)

lemma rooms_safe_close_game:
  assumes "rooms_safe E s"
  shows "rooms_safe E (close_game_room E rid s)"
proof (cases "umap_find (m_rooms s) rid")
  case (Some r)
  with assms rooms_inv_erase [OF _ Some, of E _ _ "playerIds r"] show ?thesis
    by (simp add: rooms_safe_def close_game_room_parts)
qed (simp add: close_game_room_def assms)

lemma rooms_safe_game_disconnect:
  "rooms_safe E s \<Longrightarrow> rooms_safe E (handleGameServerDisconnect E s)"
  by (simp add: handleGameServerDisconnect_def fold_keeps rooms_safe_close_game)

lemmas rooms_safe_handlers = rooms_safe_create rooms_safe_join rooms_safe_leave rooms_safe_toggle
  rooms_safe_start rooms_safe_disconnect rooms_safe_slot rooms_safe_game_disconnect

section \<open>Sessions\<close>

text \<open>
  Whoever is in a room has a registered session, and the session registered for a player is
  alive, open and carries that player's identifier. A player whose identifier is the empty
  string is exempt: \<open>close\<close> takes an empty \<open>player_id_\<close> for a session without a player.
\<close>

definition sess_safe :: "'r room_server \<Rightarrow> bool" where
  "sess_safe s \<longleftrightarrow>
     (\<forall>p. umap_find (m_player_to_room s) p \<noteq> None \<longrightarrow> umap_find (m_sessions s) p \<noteq> None) \<and>
     (\<forall>p sid. p \<noteq> [] \<longrightarrow> umap_find (m_sessions s) p = Some sid \<longrightarrow> cview s sid = Some (p, False))"

lemma sess_safe_registered:
  "sess_safe s \<Longrightarrow> p \<noteq> [] \<Longrightarrow> umap_find (m_player_to_room s) p \<noteq> None \<Longrightarrow>
   \<exists>sid. umap_find (m_sessions s) p = Some sid \<and> cview s sid = Some (p, False)"
  by (auto simp: sess_safe_def)

lemma sess_safe_shrink:
  assumes "sess_safe s" and "m_sessions s' = m_sessions s" and "cview s' = cview s"
    and "\<And>p. umap_find (m_player_to_room s) p = None \<Longrightarrow> umap_find (m_player_to_room s') p = None"
  shows "sess_safe s'"
proof -
  have "umap_find (m_sessions s) p \<noteq> None" if "umap_find (m_player_to_room s') p \<noteq> None" for p
  proof -
    have "umap_find (m_player_to_room s) p \<noteq> None" using that assms(4) [of p] by (rule contrapos_nn)
    then show ?thesis using assms(1) by (simp add: sess_safe_def)
  qed
  with assms(1-3) show ?thesis by (simp add: sess_safe_def)
qed

lemma sess_safe_frame [simp]:
  "sess_safe (session_send F e sid s) = sess_safe s"
  "sess_safe (sendTo F p e s) = sess_safe s"
  "sess_safe (sendRejectTo F sid rr msg s) = sess_safe s"
  "sess_safe (broadcastToRoom F rm e s) = sess_safe s"
  "sess_safe (broadcastToRoom_except F rm e p s) = sess_safe s"
  "sess_safe (notifyRoomListChanged s) = sess_safe s"
  "sess_safe (addLobbySession sid s) = sess_safe s"
  "sess_safe (removeLobbySession sid s) = sess_safe s"
  "sess_safe (end_session F i s) = sess_safe s"
  "sess_safe (handleRoomListRequest F pg n sid s) = sess_safe s"
  by (simp_all add: sess_safe_def addLobbySession_def removeLobbySession_def
      handleRoomListRequest_def Let_def)

text \<open>Entering a room: what \<open>handleCreateRoom\<close> and \<open>handleJoinRoom\<close> do to the registry.\<close>

lemma sess_safe_enter:
  assumes "sess_safe s" and open_session: "cview s sid = Some (q, False)" and "q = [] \<or> q = p"
  shows "sess_safe (registerSession p sid (set_session_player p sid
    (s\<lparr>m_rooms := rooms, m_player_to_room := umap_put p rid (m_player_to_room s)\<rparr>)))"
proof -
  let ?s = "s\<lparr>m_rooms := rooms, m_player_to_room := umap_put p rid (m_player_to_room s)\<rparr>"
  have "cview (set_session_player p sid ?s) = (cview s)(sid \<mapsto> (p, False))"
    using cview_set_session_player [of ?s sid q False p] open_session by simp
  with assms show ?thesis
    by (auto simp: sess_safe_def registerSession_def)
qed

lemma session_playerId_cview: "cview s sid = Some (q, b) \<Longrightarrow> session_playerId sid s = q"
  by (auto simp: cview_def session_playerId_def)

lemma sess_safe_create:
  assumes "sess_safe s" and "cview s sid = Some (q, False)"
  shows "sess_safe (handleCreateRoom E p pn n mp sid s)"
proof -
  obtain u g where u: "generateUuid (m_rng s) = (u, g)" by fastforce
  have "sess_safe (s\<lparr>m_rng := g\<rparr>)" using assms(1) by (simp add: sess_safe_def)
  then show ?thesis
    using assms sess_safe_enter [of "s\<lparr>m_rng := g\<rparr>" sid q p]
    by (auto simp: handleCreateRoom_def next_uuid_def u Let_def session_playerId_cview)
qed

lemma sess_safe_join:
  assumes "sess_safe s" and "cview s sid = Some (q, False)"
  shows "sess_safe (handleJoinRoom E p pn rid sid s)"
  using assms sess_safe_enter [of s sid q p]
  by (auto simp: handleJoinRoom_def Let_def session_playerId_cview split: option.split)

lemma leave_erases:
  "umap_find (m_player_to_room s) q = None \<Longrightarrow> umap_find (m_player_to_room (handleLeaveRoom E p s)) q = None"
  "umap_find (m_player_to_room (handleLeaveRoom E p s)) p = None"
  by (auto simp: handleLeaveRoom_def Let_def removeRoom_parts find_fold_erase split: option.split)

lemma sess_safe_leave: "sess_safe s \<Longrightarrow> sess_safe (handleLeaveRoom E p s)"
  by (erule sess_safe_shrink) (simp_all add: leave_erases)

lemma sess_safe_unregister:
  assumes "sess_safe s" and "umap_find (m_player_to_room s) p = None"
  shows "sess_safe (unregisterSession p s)"
  using assms by (auto simp: sess_safe_def unregisterSession_def)

lemma sess_safe_disconnect: "sess_safe s \<Longrightarrow> sess_safe (handleDisconnect E p s)"
  by (simp add: handleDisconnect_def sess_safe_unregister sess_safe_leave leave_erases)

lemma sess_safe_toggle: "sess_safe s \<Longrightarrow> sess_safe (handleToggleReady E p s)"
  by (auto simp: handleToggleReady_def Let_def split: option.split intro: sess_safe_shrink)

lemma sess_safe_start: "sess_safe s \<Longrightarrow> sess_safe (handleStartGame E p s)"
  by (auto simp: handleStartGame_def Let_def case_prod_beta split: option.split
      intro: sess_safe_shrink)

lemma sess_safe_slot: "sess_safe s \<Longrightarrow> sess_safe (handleSlotReleased E p i s)"
  by (auto simp: handleSlotReleased_def Let_def sess_safe_def split: option.split)

lemma sess_safe_close_game: "sess_safe s \<Longrightarrow> sess_safe (close_game_room E rid s)"
  by (erule sess_safe_shrink)
    (auto simp: close_game_room_def Let_def find_fold_erase split: option.split)

lemma sess_safe_game_disconnect: "sess_safe s \<Longrightarrow> sess_safe (handleGameServerDisconnect E s)"
  by (simp add: handleGameServerDisconnect_def fold_keeps sess_safe_close_game)

lemmas sess_safe_handlers = sess_safe_create sess_safe_join sess_safe_leave sess_safe_toggle
  sess_safe_start sess_safe_disconnect sess_safe_slot sess_safe_game_disconnect

end
