(* ===== verification/RoomSessions.thy ===== *)
theory RoomSessions
  imports RoomHandlers
begin

text \<open>
  The session classes of the room server together with the manager they call:
  \<open>ClientSession\<close> of \<open>src/src/room/server/ClientSession.cpp\<close> and \<open>GameServerSession\<close> of
  \<open>src/src/room/internal/GameServerSession.cpp\<close>. The handlers Boost.Asio calls (a read, a
  timer, a write has completed) are functions on the server state that take the session's
  object identifier.
\<close>

section \<open>Client sessions\<close>

definition client_closed :: "nat \<Rightarrow> 'r room_server \<Rightarrow> bool" where
  "client_closed sid s = (case m_clients s sid of None \<Rightarrow> True | Some c \<Rightarrow> cs_closed c)"

definition resetHeartbeatTimer :: "'r room_env \<Rightarrow> client_session \<Rightarrow> client_session" where
  "resetHeartbeatTimer E c = (if e_heartbeat_timeout E \<le> 0 then c else c\<lparr>cs_heartbeat := True\<rparr>)"

definition ClientSession_doRead :: "client_session \<Rightarrow> client_session" where
  "ClientSession_doRead c = c\<lparr>cs_reading := True\<rparr>"

text \<open>\<open>start\<close>; \<open>remote\<close> is the peer's address, or \<open>None\<close> if asking for it throws.\<close>

definition ClientSession_start ::
  "'r room_env \<Rightarrow> string option \<Rightarrow> nat \<Rightarrow> 'r room_server \<Rightarrow> 'r room_server" where
  "ClientSession_start E remote sid s =
     (let s1 = upd_client (\<lambda>c. c\<lparr>cs_remote_ip := case remote of Some ip \<Rightarrow> ip | None \<Rightarrow> ''unknown''\<rparr>) sid s;
          s2 = addLobbySession sid s1
      in upd_client (\<lambda>c. ClientSession_doRead (resetHeartbeatTimer E c)) sid s2)"

definition ClientSession_close :: "'r room_env \<Rightarrow> nat \<Rightarrow> 'r room_server \<Rightarrow> 'r room_server" where
  "ClientSession_close E sid s =
     (if client_closed sid s then s
      else
        let s1 = upd_client (\<lambda>c. c\<lparr>cs_closed := True, cs_heartbeat := False\<rparr>) sid s;
            s2 = removeLobbySession sid s1
        in if session_playerId sid s2 \<noteq> []
           then upd_client (setPlayerId []) sid (handleDisconnect E (session_playerId sid s2) s2)
           else s2)"

text \<open>The \<open>switch\<close> of \<open>processMessage\<close>.\<close>

definition ClientSession_dispatch ::
  "'r room_env \<Rightarrow> envelope \<Rightarrow> nat \<Rightarrow> 'r room_server \<Rightarrow> 'r room_server" where
  "ClientSession_dispatch E env sid s =
     (case env of
        CreateRoom player_id player_name room_name max_players \<Rightarrow>
          handleCreateRoom E player_id player_name room_name max_players sid s
      | JoinRoom player_id player_name room_id \<Rightarrow> handleJoinRoom E player_id player_name room_id sid s
      | LeaveRoom \<Rightarrow>
          if session_playerId sid s \<noteq> []
          then notifyRoomListChanged (addLobbySession sid (handleLeaveRoom E (session_playerId sid s) s))
          else s
      | ToggleReady \<Rightarrow>
          if session_playerId sid s \<noteq> [] then handleToggleReady E (session_playerId sid s) s else s
      | StartGame \<Rightarrow>
          if session_playerId sid s \<noteq> [] then handleStartGame E (session_playerId sid s) s else s
      | RoomListRequest page page_size \<Rightarrow> handleRoomListRequest E page page_size sid s
      | RoomHeartbeat \<Rightarrow> s
      | _ \<Rightarrow> s)"

definition session_remote_ip :: "nat \<Rightarrow> 'r room_server \<Rightarrow> string" where
  "session_remote_ip sid s = (case m_clients s sid of None \<Rightarrow> [] | Some c \<Rightarrow> cs_remote_ip c)"

definition ClientSession_processMessage ::
  "'r room_env \<Rightarrow> nat \<Rightarrow> envelope \<Rightarrow> 'r room_server \<Rightarrow> 'r room_server" where
  "ClientSession_processMessage E sid env s =
     (case e_rate_limiter E of
        None \<Rightarrow> ClientSession_dispatch E env sid s
      | Some L \<Rightarrow>
          (case allow L (session_remote_ip sid s) (m_redis s) of
             (Inr allowed, r) \<Rightarrow>
               let s1 = s\<lparr>m_redis := r\<rparr>
               in if \<not> allowed
                  then ClientSession_close E sid
                         (session_send E (Reject RATE_LIMITED ''Too many requests'') sid s1)
                  else ClientSession_dispatch E env sid s1
           | (Inl _, r) \<Rightarrow> ClientSession_dispatch E env sid (s\<lparr>m_redis := r\<rparr>)))"

text \<open>
  The completion handler of \<open>async_read_some\<close>, with an error (\<open>None\<close>) or with the bytes it
  read. The loop leaves the handler once a message has closed the session; it does not look
  at \<open>closed_\<close> before the first message. So a session that is closed at the end takes the
  early return exactly if there was a message to process.
\<close>

definition ClientSession_onRead ::
  "'r room_env \<Rightarrow> byte list option \<Rightarrow> nat \<Rightarrow> 'r room_server \<Rightarrow> 'r room_server" where
  "ClientSession_onRead E result sid s =
     (let s0 = upd_client (\<lambda>c. c\<lparr>cs_reading := False\<rparr>) sid s
      in case result of
           None \<Rightarrow> ClientSession_close E sid s0
         | Some data \<Rightarrow>
             let buffer = feed (case m_clients s0 sid of None \<Rightarrow> [] | Some c \<Rightarrow> cs_buffer c) data;
                 (rest, s1) = decode_loop (e_room_proto E) (ClientSession_processMessage E sid)
                                (client_closed sid) buffer s0;
                 s2 = upd_client (\<lambda>c. c\<lparr>cs_buffer := rest\<rparr>) sid s1
             in if fst (tryDecode (e_room_proto E) buffer) \<noteq> None \<and> client_closed sid s2 then s2
                else upd_client (\<lambda>c. ClientSession_doRead (resetHeartbeatTimer E c)) sid s2)"

text \<open>The heartbeat timer expires; a write completes, with an error or without.\<close>

definition ClientSession_onHeartbeat :: "'r room_env \<Rightarrow> nat \<Rightarrow> 'r room_server \<Rightarrow> 'r room_server" where
  "ClientSession_onHeartbeat E sid s =
     ClientSession_close E sid (upd_client (\<lambda>c. c\<lparr>cs_heartbeat := False\<rparr>) sid s)"

definition ClientSession_onWritten ::
  "'r room_env \<Rightarrow> bool \<Rightarrow> nat \<Rightarrow> 'r room_server \<Rightarrow> 'r room_server" where
  "ClientSession_onWritten E ec sid s =
     (if ec then ClientSession_close E sid (upd_client (\<lambda>c. c\<lparr>cs_writes := cs_writes c - 1\<rparr>) sid s)
      else upd_client ClientSession_written sid s)"

text \<open>The destructor runs once no handler holds the object; the \<open>weak_ptr\<close>s to it have expired.\<close>

definition ClientSession_idle :: "client_session \<Rightarrow> bool" where
  "ClientSession_idle c \<longleftrightarrow> \<not> cs_reading c \<and> \<not> cs_heartbeat c \<and> cs_writes c = 0"

definition ClientSession_destroy :: "'r room_env \<Rightarrow> nat \<Rightarrow> 'r room_server \<Rightarrow> 'r room_server" where
  "ClientSession_destroy E sid s =
     (let s1 = s\<lparr>m_clients := (m_clients s)(sid := None)\<rparr>
      in if client_closed sid s then s1
         else
           let s2 = removeLobbySession sid s1
           in if session_playerId sid s \<noteq> [] then handleDisconnect E (session_playerId sid s) s2 else s2)"

section \<open>Game server sessions\<close>

definition upd_game :: "(game_session \<Rightarrow> game_session) \<Rightarrow> nat \<Rightarrow> 'r room_server \<Rightarrow> 'r room_server" where
  "upd_game f gid s =
     (case m_games s gid of None \<Rightarrow> s | Some g \<Rightarrow> s\<lparr>m_games := (m_games s)(gid \<mapsto> f g)\<rparr>)"

definition game_send :: "'r room_env \<Rightarrow> envelope \<Rightarrow> nat \<Rightarrow> 'r room_server \<Rightarrow> 'r room_server" where
  "game_send E e gid s = upd_game (GameServerSession_send (e_room_proto E) e) gid s"

definition GameServerSession_doRead :: "game_session \<Rightarrow> game_session" where
  "GameServerSession_doRead g = g\<lparr>gs_reading := True\<rparr>"

definition GameServerSession_start :: "nat \<Rightarrow> 'r room_server \<Rightarrow> 'r room_server" where
  "GameServerSession_start gid s = upd_game GameServerSession_doRead gid s"

definition handleTokenValidate ::
  "'r room_env \<Rightarrow> 'r session_store \<Rightarrow> string \<Rightarrow> nat \<Rightarrow> 'r room_server \<Rightarrow> 'r room_server" where
  "handleTokenValidate E S auth_token gid s =
     (case validateToken S auth_token (m_redis s) of
        (res, r) \<Rightarrow>
          let response = (case res of
                Inr (Some td) \<Rightarrow> TokenValidateResponse True (td_player_id td) (td_session_id td)
              | Inr None \<Rightarrow> TokenValidateResponse False [] []
              | Inl _ \<Rightarrow> TokenValidateResponse False [] [])
          in game_send E response gid (s\<lparr>m_redis := r\<rparr>))"

definition GameServerSession_handleSlotReleased ::
  "'r room_env \<Rightarrow> string \<Rightarrow> string \<Rightarrow> 'r room_server \<Rightarrow> 'r room_server" where
  [simp]: "GameServerSession_handleSlotReleased E player_id session_id s =
     handleSlotReleased E player_id session_id s"

definition handleGameServerHeartbeat ::
  "'r session_store \<Rightarrow> string \<Rightarrow> nat \<Rightarrow> 'r room_server \<Rightarrow> 'r room_server" where
  "handleGameServerHeartbeat S server_id gid s =
     (let s1 = upd_game (\<lambda>g. g\<lparr>gs_server_id := server_id\<rparr>) gid s
      in s1\<lparr>m_redis := rtry (updateGameServerHeartbeat S server_id) (m_redis s1)\<rparr>)"

definition GameServerSession_processMessage ::
  "'r room_env \<Rightarrow> 'r session_store \<Rightarrow> nat \<Rightarrow> envelope \<Rightarrow> 'r room_server \<Rightarrow> 'r room_server" where
  "GameServerSession_processMessage E S gid env s =
     (case env of
        TokenValidateRequest auth_token \<Rightarrow> handleTokenValidate E S auth_token gid s
      | SlotReleased player_id session_id \<Rightarrow> GameServerSession_handleSlotReleased E player_id session_id s
      | GameServerHeartbeat server_id active_sessions \<Rightarrow> handleGameServerHeartbeat S server_id gid s
      | _ \<Rightarrow> s)"

definition GameServerSession_close :: "'r room_env \<Rightarrow> nat \<Rightarrow> 'r room_server \<Rightarrow> 'r room_server" where
  "GameServerSession_close E gid s =
     (case m_games s gid of
        None \<Rightarrow> s
      | Some g \<Rightarrow>
          if gs_closed g then s
          else
            let s1 = upd_game (\<lambda>g. g\<lparr>gs_closed := True\<rparr>) gid s
            in if gs_server_id g \<noteq> [] then handleGameServerDisconnect E s1 else s1)"

definition GameServerSession_onRead ::
  "'r room_env \<Rightarrow> 'r session_store \<Rightarrow> byte list option \<Rightarrow> nat \<Rightarrow> 'r room_server \<Rightarrow> 'r room_server" where
  "GameServerSession_onRead E S result gid s =
     (let s0 = upd_game (\<lambda>g. g\<lparr>gs_reading := False\<rparr>) gid s
      in case result of
           None \<Rightarrow> GameServerSession_close E gid s0
         | Some data \<Rightarrow>
             let buffer = feed (case m_games s0 gid of None \<Rightarrow> [] | Some g \<Rightarrow> gs_buffer g) data;
                 (rest, s1) = decode_loop (e_room_proto E) (GameServerSession_processMessage E S gid)
                                (\<lambda>_. False) buffer s0
             in upd_game (\<lambda>g. GameServerSession_doRead (g\<lparr>gs_buffer := rest\<rparr>)) gid s1)"

definition GameServerSession_onWritten ::
  "'r room_env \<Rightarrow> bool \<Rightarrow> nat \<Rightarrow> 'r room_server \<Rightarrow> 'r room_server" where
  "GameServerSession_onWritten E ec gid s =
     (if ec then GameServerSession_close E gid (upd_game (\<lambda>g. g\<lparr>gs_writes := gs_writes g - 1\<rparr>) gid s)
      else upd_game GameServerSession_written gid s)"

definition GameServerSession_idle :: "game_session \<Rightarrow> bool" where
  "GameServerSession_idle g \<longleftrightarrow> \<not> gs_reading g \<and> gs_writes g = 0"

definition GameServerSession_destroy :: "'r room_env \<Rightarrow> nat \<Rightarrow> 'r room_server \<Rightarrow> 'r room_server" where
  "GameServerSession_destroy E gid s =
     (case m_games s gid of
        None \<Rightarrow> s
      | Some g \<Rightarrow>
          let s1 = s\<lparr>m_games := (m_games s)(gid := None)\<rparr>
          in if \<not> gs_closed g \<and> gs_server_id g \<noteq> [] then handleGameServerDisconnect E s1 else s1)"

end
