(* ===== verification/RoomProcess.thy ===== *)
theory RoomProcess
  imports RoomSessions
begin

text \<open>
  The room server process: \<open>src/src/room/main.cpp\<close> with the acceptors \<open>RoomServer\<close> and
  \<open>GameServerChannel\<close>. One thread runs \<open>io_context::run\<close>, so a run is a sequence of whole
  handlers. \<open>room_step\<close> has a rule for every handler, for the accept loops, for the signal
  handler, and two for the world outside: Redis may change in any way between two handlers,
  and the hash tables may be iterated in another order.

  The flag \<open>late\<close> says whether a read that completed before its session was closed may still
  run its handler afterwards. Asio allows it (closing the socket cannot withdraw a completion
  that is already queued); \<open>room_step False\<close> are the runs in which it does not happen.
\<close>

record 'r room_process =
  rp_server :: "'r room_server"
  rp_accepting :: bool
  rp_acceptor_open :: bool
  rp_game_accepting :: bool
  rp_game_acceptor_open :: bool

section \<open>Accepting\<close>

definition RoomServer_doAccept :: "'r room_process \<Rightarrow> 'r room_process" where
  "RoomServer_doAccept p = p\<lparr>rp_accepting := True\<rparr>"

text \<open>The handler of \<open>async_accept\<close>: \<open>None\<close> is an error, \<open>Some remote\<close> a connection.\<close>

definition RoomServer_onAccept ::
  "'r room_env \<Rightarrow> string option option \<Rightarrow> 'r room_process \<Rightarrow> 'r room_process" where
  "RoomServer_onAccept E conn p =
     (let p0 = p\<lparr>rp_accepting := False\<rparr>
      in case conn of
           None \<Rightarrow> p0
         | Some remote \<Rightarrow>
             let s = rp_server p0; sid = m_next s;
                 s1 = s\<lparr>m_clients := (m_clients s)(sid \<mapsto> ClientSession_new), m_next := Suc sid\<rparr>;
                 s2 = ClientSession_start E remote sid s1
             in RoomServer_doAccept (p0\<lparr>rp_server := s2\<rparr>))"

definition RoomServer_start :: "'r room_process \<Rightarrow> 'r room_process" where
  "RoomServer_start p = RoomServer_doAccept p"

definition RoomServer_stop :: "'r room_process \<Rightarrow> 'r room_process" where
  "RoomServer_stop p = p\<lparr>rp_acceptor_open := False\<rparr>"

definition GameServerChannel_doAccept :: "'r room_process \<Rightarrow> 'r room_process" where
  "GameServerChannel_doAccept p = p\<lparr>rp_game_accepting := True\<rparr>"

definition GameServerChannel_onAccept :: "bool \<Rightarrow> 'r room_process \<Rightarrow> 'r room_process" where
  "GameServerChannel_onAccept ec p =
     (let p0 = p\<lparr>rp_game_accepting := False\<rparr>
      in if ec then p0
         else
           let s = rp_server p0; gid = m_next s;
               s1 = s\<lparr>m_games := (m_games s)(gid \<mapsto> GameServerSession_new), m_next := Suc gid\<rparr>
           in GameServerChannel_doAccept (p0\<lparr>rp_server := GameServerSession_start gid s1\<rparr>))"

definition GameServerChannel_start :: "'r room_process \<Rightarrow> 'r room_process" where
  "GameServerChannel_start p = GameServerChannel_doAccept p"

definition GameServerChannel_stop :: "'r room_process \<Rightarrow> 'r room_process" where
  "GameServerChannel_stop p = p\<lparr>rp_game_acceptor_open := False\<rparr>"

section \<open>Start and shutdown\<close>

definition upd_chat :: "(chat_link \<Rightarrow> chat_link) \<Rightarrow> 'r room_server \<Rightarrow> 'r room_server" where
  "upd_chat f s = s\<lparr>m_chat := f (m_chat s)\<rparr>"

text \<open>The state in which \<open>main\<close> enters \<open>io_context.run()\<close>, and the handler of SIGINT and SIGTERM.\<close>

definition room_main :: "'r \<Rightarrow> rng \<Rightarrow> 'r room_process" where
  "room_main r g =
     (let p = \<lparr>rp_server = RoomManager_new r g, rp_accepting = False, rp_acceptor_open = True,
               rp_game_accepting = False, rp_game_acceptor_open = True\<rparr>;
          p1 = RoomServer_start p;
          p2 = GameServerChannel_start p1
      in p2\<lparr>rp_server := upd_chat cc_start (rp_server p2)\<rparr>)"

definition room_signal :: "'r room_process \<Rightarrow> 'r room_process" where
  "room_signal p =
     (let p1 = p\<lparr>rp_server := RoomManager_stop (rp_server p)\<rparr>;
          p2 = RoomServer_stop p1;
          p3 = GameServerChannel_stop p2
      in p3\<lparr>rp_server := upd_chat cc_stop (rp_server p3)\<rparr>)"

section \<open>Runs\<close>

definition rehashed :: "('k, 'v) umap \<Rightarrow> ('k, 'v) umap \<Rightarrow> bool" where
  "rehashed m m' \<longleftrightarrow> set m' = set m \<and> length m' = length m \<and> map_of m' = map_of m"

text \<open>One handler on the server state.\<close>

inductive room_handler ::
  "bool \<Rightarrow> 'r room_env \<Rightarrow> 'r room_server \<Rightarrow> 'r room_server \<Rightarrow> bool"
  for late E where
  client_read: "m_clients s sid = Some c \<Longrightarrow> cs_reading c \<Longrightarrow> result = None \<or> \<not> cs_closed c \<or> late \<Longrightarrow>
    room_handler late E s (ClientSession_onRead E result sid s)"
| client_heartbeat: "m_clients s sid = Some c \<Longrightarrow> cs_heartbeat c \<Longrightarrow>
    room_handler late E s (ClientSession_onHeartbeat E sid s)"
| client_written: "m_clients s sid = Some c \<Longrightarrow> 0 < cs_writes c \<Longrightarrow>
    room_handler late E s (ClientSession_onWritten E ec sid s)"
| client_destroy: "m_clients s sid = Some c \<Longrightarrow> ClientSession_idle c \<Longrightarrow>
    room_handler late E s (ClientSession_destroy E sid s)"
| game_read: "m_games s gid = Some g \<Longrightarrow> gs_reading g \<Longrightarrow> e_session_store E = Some S \<Longrightarrow>
    result = None \<or> \<not> gs_closed g \<or> late \<Longrightarrow>
    room_handler late E s (GameServerSession_onRead E S result gid s)"
| game_written: "m_games s gid = Some g \<Longrightarrow> 0 < gs_writes g \<Longrightarrow>
    room_handler late E s (GameServerSession_onWritten E ec gid s)"
| game_destroy: "m_games s gid = Some g \<Longrightarrow> GameServerSession_idle g \<Longrightarrow>
    room_handler late E s (GameServerSession_destroy E gid s)"
| lobby_timer: "0 < m_lobby_waits s \<Longrightarrow> room_handler late E s (lobby_timer_fired E s)"
| lobby_cancelled: "0 < m_lobby_cancelled s \<Longrightarrow> room_handler late E s (lobby_timer_cancelled s)"
| chat_link: "cc_handler (m_chat s) c' \<Longrightarrow> room_handler late E s (upd_chat (\<lambda>_. c') s)"
| redis: "room_handler late E s (s\<lparr>m_redis := r\<rparr>)"
| rehash: "rehashed (m_rooms s) rooms \<Longrightarrow> rehashed (m_player_to_room s) p2r \<Longrightarrow>
    rehashed (m_sessions s) sessions \<Longrightarrow> rehashed (m_lobby_sessions s) lobby \<Longrightarrow>
    room_handler late E s (s\<lparr>m_rooms := rooms, m_player_to_room := p2r, m_sessions := sessions,
      m_lobby_sessions := lobby\<rparr>)"

inductive room_step ::
  "bool \<Rightarrow> 'r room_env \<Rightarrow> 'r room_process \<Rightarrow> 'r room_process \<Rightarrow> bool"
  for late E where
  run: "room_handler late E (rp_server p) s' \<Longrightarrow> room_step late E p (p\<lparr>rp_server := s'\<rparr>)"
| accept: "rp_accepting p \<Longrightarrow> conn = None \<or> rp_acceptor_open p \<or> late \<Longrightarrow>
    room_step late E p (RoomServer_onAccept E conn p)"
| game_accept: "rp_game_accepting p \<Longrightarrow> ec \<or> rp_game_acceptor_open p \<or> late \<Longrightarrow>
    room_step late E p (GameServerChannel_onAccept ec p)"
| signal: "room_step late E p (room_signal p)"

inductive room_reachable :: "bool \<Rightarrow> 'r room_env \<Rightarrow> 'r room_process \<Rightarrow> bool"
  for late E where
  room_init: "room_reachable late E (room_main r g)"
| room_next: "room_reachable late E p \<Longrightarrow> room_step late E p p' \<Longrightarrow> room_reachable late E p'"

end
