(* ===== verification/RoomSafety.thy ===== *)
theory RoomSafety
  imports RoomProcess
begin

text \<open>
  Both halves of the room server's invariant hold in every state a run reaches.
\<close>

section \<open>Sessions and the rooms\<close>

lemma rooms_safe_updates [simp]:
  "rooms_safe E (upd_client f sid s) = rooms_safe E s"
  "rooms_safe E (upd_game h gid s) = rooms_safe E s"
  "rooms_safe E (upd_chat k s) = rooms_safe E s"
  "rooms_safe E (game_send F e gid s) = rooms_safe E s"
  "rooms_safe E (s\<lparr>m_redis := r\<rparr>) = rooms_safe E s"
  "rooms_safe E (s\<lparr>m_clients := cs\<rparr>) = rooms_safe E s"
  "rooms_safe E (s\<lparr>m_games := gs\<rparr>) = rooms_safe E s"
  "rooms_safe E (s\<lparr>m_next := n\<rparr>) = rooms_safe E s"
  "rooms_safe E (s\<lparr>m_lobby_sessions := ls\<rparr>) = rooms_safe E s"
  "rooms_safe E (s\<lparr>m_lobby_waits := n\<rparr>) = rooms_safe E s"
  "rooms_safe E (s\<lparr>m_lobby_cancelled := n\<rparr>) = rooms_safe E s"
  "rooms_safe E (s\<lparr>m_lobby_pending := b\<rparr>) = rooms_safe E s"
  by (simp_all add: rooms_safe_def upd_client_def upd_game_def upd_chat_def game_send_def
      split: option.split)

lemma rooms_safe_client_close: "rooms_safe E s \<Longrightarrow> rooms_safe E (ClientSession_close E sid s)"
  by (simp add: ClientSession_close_def Let_def rooms_safe_disconnect)

lemma rooms_safe_dispatch: "rooms_safe E s \<Longrightarrow> rooms_safe E (ClientSession_dispatch E env sid s)"
  by (cases env) (simp_all add: ClientSession_dispatch_def rooms_safe_handlers)

lemma rooms_safe_process:
  "rooms_safe E s \<Longrightarrow> rooms_safe E (ClientSession_processMessage E sid env s)"
  by (simp add: ClientSession_processMessage_def Let_def rooms_safe_client_close
      rooms_safe_dispatch split: option.split prod.split sum.split)

lemma rooms_safe_game_process:
  "rooms_safe E s \<Longrightarrow> rooms_safe E (GameServerSession_processMessage E S gid env s)"
  by (cases env) (simp_all add: GameServerSession_processMessage_def handleTokenValidate_def
      handleGameServerHeartbeat_def Let_def rooms_safe_slot split: prod.split)

interpretation client_rooms: message_loop "e_room_proto E" "ClientSession_processMessage E sid"
  "client_closed sid" "rooms_safe E" for E sid
  by unfold_locales (rule rooms_safe_process)

interpretation game_rooms: message_loop "e_room_proto E" "GameServerSession_processMessage E S gid"
  "\<lambda>_. False" "rooms_safe E" for E S gid
  by unfold_locales (rule rooms_safe_game_process)

lemma rooms_safe_client_read: "rooms_safe E s \<Longrightarrow> rooms_safe E (ClientSession_onRead E result sid s)"
  by (simp add: ClientSession_onRead_def Let_def case_prod_beta rooms_safe_client_close
      client_rooms.loop_keeps split: option.split)

lemma rooms_safe_game_close: "rooms_safe E s \<Longrightarrow> rooms_safe E (GameServerSession_close E gid s)"
  by (simp add: GameServerSession_close_def Let_def rooms_safe_game_disconnect split: option.split)

lemma rooms_safe_game_read: "rooms_safe E s \<Longrightarrow> rooms_safe E (GameServerSession_onRead E S result gid s)"
  by (simp add: GameServerSession_onRead_def Let_def case_prod_beta rooms_safe_game_close
      game_rooms.loop_keeps split: option.split)

lemma lobby_loop:
  assumes "\<And>e sid s. g (session_send E e sid s) = g s"
  shows "g (fold (\<lambda>(ptr, w) s. case lock s w of None \<Rightarrow> s | Some sid \<Rightarrow> session_send E e sid s) ws s) = g s"
  by (rule fold_frame) (simp add: assms split: prod.split option.split)

lemma lobby_broadcast_frame [simp]:
  "m_rooms (broadcastRoomListToLobby E s) = m_rooms s"
  "m_player_to_room (broadcastRoomListToLobby E s) = m_player_to_room s"
  "m_sessions (broadcastRoomListToLobby E s) = m_sessions s"
  "m_rng (broadcastRoomListToLobby E s) = m_rng s"
  "m_lobby_pending (broadcastRoomListToLobby E s) = m_lobby_pending s"
  "m_lobby_waits (broadcastRoomListToLobby E s) = m_lobby_waits s"
  "m_lobby_cancelled (broadcastRoomListToLobby E s) = m_lobby_cancelled s"
  "cview (broadcastRoomListToLobby E s) = cview s"
  by (simp_all add: broadcastRoomListToLobby_def Let_def lobby_loop [where g = m_rooms]
      lobby_loop [where g = m_player_to_room] lobby_loop [where g = m_sessions] lobby_loop [where g = m_rng]
      lobby_loop [where g = m_lobby_pending] lobby_loop [where g = m_lobby_waits]
      lobby_loop [where g = m_lobby_cancelled] lobby_loop [where g = cview])

lemma rooms_safe_lobby_broadcast [simp]:
  "rooms_safe E (broadcastRoomListToLobby F s) = rooms_safe E s"
  by (simp add: rooms_safe_def)

text \<open>The order of a container does not matter to the invariant.\<close>

lemma rehashed_ok:
  assumes "rehashed m m'" and "umap_ok m"
  shows "umap_ok m'" and "umap_count P m' = umap_count P m"
proof -
  have "distinct m" and inj: "inj_on fst (set m)"
    using assms(2) by (auto simp: umap_ok_def distinct_map)
  moreover from this have "distinct m'"
    using assms(1) by (simp add: rehashed_def card_distinct distinct_card)
  moreover have sets: "set m' = set m" using assms(1) by (simp add: rehashed_def)
  ultimately show "umap_ok m'" by (simp add: umap_ok_def distinct_map)
  have "umap_count P m' = card {x \<in> set m'. P (snd x)}"
    using \<open>distinct m'\<close> distinct_card [of "filter (P \<circ> snd) m'"] by (simp add: umap_count_def)
  moreover have "umap_count P m = card {x \<in> set m. P (snd x)}"
    using \<open>distinct m\<close> distinct_card [of "filter (P \<circ> snd) m"] by (simp add: umap_count_def)
  ultimately show "umap_count P m' = umap_count P m" using sets by simp
qed

lemma rooms_inv_rehash:
  assumes inv: "rooms_inv E g rooms p2r" and "rehashed rooms rooms'" and "rehashed p2r p2r'"
  shows "rooms_inv E g rooms' p2r'"
  using assms rehashed_ok [OF assms(2) rooms_invD(1) [OF inv]]
    rehashed_ok [OF assms(3) rooms_invD(2) [OF inv]]
  by (simp add: rooms_inv_def index_ok_def rehashed_def)

lemma rooms_safe_handler:
  assumes "room_handler late E s s'" and "rooms_safe E s"
  shows "rooms_safe E s'"
  using assms
proof (induction rule: room_handler.induct)
  case (rehash s rooms p2r sessions lobby)
  then show ?case using rooms_inv_rehash by (auto simp: rooms_safe_def)
qed (simp_all add: rooms_safe_client_read ClientSession_onHeartbeat_def ClientSession_onWritten_def
    ClientSession_destroy_def rooms_safe_client_close rooms_safe_disconnect Let_def
    rooms_safe_game_read GameServerSession_onWritten_def GameServerSession_destroy_def
    rooms_safe_game_close rooms_safe_game_disconnect lobby_timer_fired_def lobby_timer_cancelled_def
    split: option.split)

lemma rooms_safe_start_session [simp]:
  "rooms_safe E (ClientSession_start F remote sid s) = rooms_safe E s"
  "rooms_safe E (GameServerSession_start gid s) = rooms_safe E s"
  "rooms_safe E (RoomManager_stop s) = rooms_safe E s"
  by (simp_all add: ClientSession_start_def GameServerSession_start_def RoomManager_stop_def Let_def)

lemma rooms_safe_step:
  assumes "room_step late E p p'" and "rooms_safe E (rp_server p)"
  shows "rooms_safe E (rp_server p')"
  using assms
  by (induction rule: room_step.induct)
    (auto simp: rooms_safe_handler RoomServer_onAccept_def RoomServer_doAccept_def
      GameServerChannel_onAccept_def GameServerChannel_doAccept_def room_signal_def
      RoomServer_stop_def GameServerChannel_stop_def Let_def split: option.split)

lemma reachable_rooms_safe: "room_reachable late E p \<Longrightarrow> rooms_safe E (rp_server p)"
proof (induction rule: room_reachable.induct)
  case (room_init r g)
  show ?case
    by (simp add: room_main_def RoomServer_start_def RoomServer_doAccept_def GameServerChannel_start_def
        GameServerChannel_doAccept_def Let_def)
      (simp add: rooms_safe_def RoomManager_new_def rooms_inv_def index_ok_def umap_count_def)
qed (rule rooms_safe_step)

section \<open>Sessions and the registry\<close>

lemma cview_upd_client:
  "cview (upd_client f sid s) =
     (\<lambda>w. if w = sid then map_option (\<lambda>c. (cs_player_id (f c), cs_closed (f c))) (m_clients s sid)
          else cview s w)"
  by (auto simp: cview_def upd_client_def fun_eq_iff split: option.split)

lemma upd_client_frame [simp]:
  "m_rooms (upd_client f sid s) = m_rooms s"
  "m_player_to_room (upd_client f sid s) = m_player_to_room s"
  "m_sessions (upd_client f sid s) = m_sessions s"
  "m_lobby_sessions (upd_client f sid s) = m_lobby_sessions s"
  "m_redis (upd_client f sid s) = m_redis s"
  "m_rng (upd_client f sid s) = m_rng s"
  "m_games (upd_client f sid s) = m_games s"
  "m_chat (upd_client f sid s) = m_chat s"
  by (simp_all add: upd_client_def split: option.split)

text \<open>Changes to a session object that touch neither its player nor \<open>closed_\<close>.\<close>

lemma sess_safe_upd_client:
  assumes "\<And>c. cs_player_id (f c) = cs_player_id c" and "\<And>c. cs_closed (f c) = cs_closed c"
  shows "sess_safe (upd_client f sid s) = sess_safe s"
    and "client_closed sid (upd_client f sid s) = client_closed sid s"
proof -
  have "cview (upd_client f sid s) = cview s"
    using assms by (auto simp: cview_upd_client cview_def)
  then show "sess_safe (upd_client f sid s) = sess_safe s" by (simp add: sess_safe_def)
  show "client_closed sid (upd_client f sid s) = client_closed sid s"
    using assms(2) by (simp add: client_closed_def upd_client_def split: option.split)
qed

lemma sess_safe_updates [simp]:
  "sess_safe (upd_client (\<lambda>c. c\<lparr>cs_reading := b\<rparr>) sid s) = sess_safe s"
  "sess_safe (upd_client (\<lambda>c. c\<lparr>cs_heartbeat := b\<rparr>) sid s) = sess_safe s"
  "sess_safe (upd_client (\<lambda>c. c\<lparr>cs_buffer := bs\<rparr>) sid s) = sess_safe s"
  "sess_safe (upd_client (\<lambda>c. c\<lparr>cs_writes := n c\<rparr>) sid s) = sess_safe s"
  "sess_safe (upd_client (\<lambda>c. c\<lparr>cs_remote_ip := ip\<rparr>) sid s) = sess_safe s"
  "sess_safe (upd_client ClientSession_written sid s) = sess_safe s"
  "sess_safe (upd_client (\<lambda>c. ClientSession_doRead (resetHeartbeatTimer E c)) sid s) = sess_safe s"
  "client_closed sid (upd_client (\<lambda>c. c\<lparr>cs_reading := b\<rparr>) sid s) = client_closed sid s"
  by (simp_all add: sess_safe_upd_client ClientSession_doRead_def resetHeartbeatTimer_def)

lemma sess_safe_other [simp]:
  "sess_safe (upd_game h gid s) = sess_safe s"
  "sess_safe (upd_chat k s) = sess_safe s"
  "sess_safe (game_send F e gid s) = sess_safe s"
  "sess_safe (s\<lparr>m_redis := r\<rparr>) = sess_safe s"
  "sess_safe (s\<lparr>m_games := gs\<rparr>) = sess_safe s"
  "sess_safe (s\<lparr>m_next := n\<rparr>) = sess_safe s"
  "sess_safe (s\<lparr>m_lobby_waits := n\<rparr>) = sess_safe s"
  "sess_safe (s\<lparr>m_lobby_cancelled := n\<rparr>) = sess_safe s"
  "sess_safe (s\<lparr>m_lobby_pending := b\<rparr>) = sess_safe s"
  "sess_safe (broadcastRoomListToLobby F s) = sess_safe s"
  by (simp_all add: sess_safe_def upd_game_def upd_chat_def game_send_def split: option.split)

text \<open>A session that goes: nobody is registered with it afterwards.\<close>

lemma sess_safe_gone:
  assumes "sess_safe s" and "cview s sid = Some (p, b)" and "\<And>w. w \<noteq> sid \<Longrightarrow> cview s' w = cview s w"
    and "p = [] \<or> b" and "m_sessions s' = m_sessions s" and "m_player_to_room s' = m_player_to_room s"
  shows "sess_safe s'"
proof -
  have "cview s' w = Some (q, False)" if q: "q \<noteq> []" "umap_find (m_sessions s) q = Some w" for q w
  proof -
    have w: "cview s w = Some (q, False)" using assms(1) q by (simp add: sess_safe_def)
    with assms(2,4) q(1) have "w \<noteq> sid" by auto
    with assms(3) w show ?thesis by simp
  qed
  with assms(1,5,6) show ?thesis by (simp add: sess_safe_def)
qed

lemma sess_safe_dropped:
  assumes "sess_safe s" and "cview s sid = Some (p, b)" and "\<And>w. w \<noteq> sid \<Longrightarrow> cview s' w = cview s w"
    and "m_sessions s' = umap_erase p (m_sessions s)" and "umap_find (m_player_to_room s') p = None"
    and "\<And>q. umap_find (m_player_to_room s) q = None \<Longrightarrow> umap_find (m_player_to_room s') q = None"
  shows "sess_safe s'"
proof -
  have "cview s' w = Some (q, False)"
    if q: "q \<noteq> []" "umap_find (umap_erase p (m_sessions s)) q = Some w" for q w
  proof -
    have w: "cview s w = Some (q, False)" "q \<noteq> p"
      using assms(1) q by (auto simp: sess_safe_def split: if_splits)
    with assms(2) have "w \<noteq> sid" by auto
    with assms(3) w show ?thesis by simp
  qed
  moreover have "umap_find (umap_erase p (m_sessions s)) q \<noteq> None"
    if q: "umap_find (m_player_to_room s') q \<noteq> None" for q
  proof -
    have "umap_find (m_player_to_room s) q \<noteq> None" using q assms(6) [of q] by (rule contrapos_nn)
    moreover have "q \<noteq> p" using q assms(5) by auto
    ultimately show ?thesis using assms(1) by (simp add: sess_safe_def)
  qed
  ultimately show ?thesis using assms(4) by (simp add: sess_safe_def)
qed

lemma open_cview: "\<not> client_closed sid s \<Longrightarrow> cview s sid = Some (session_playerId sid s, False)"
  by (auto simp: client_closed_def cview_def session_playerId_def split: option.splits)

lemma disconnect_parts [simp]:
  "m_sessions (handleDisconnect E p s) = umap_erase p (m_sessions s)"
  "cview (handleDisconnect E p s) = cview s"
  "umap_find (m_player_to_room (handleDisconnect E p s)) p = None"
  "umap_find (m_player_to_room s) q = None \<Longrightarrow> umap_find (m_player_to_room (handleDisconnect E p s)) q = None"
  by (simp_all add: handleDisconnect_def unregisterSession_def leave_erases)

lemma removeLobby_frame [simp]:
  "m_rooms (removeLobbySession sid s) = m_rooms s"
  "m_player_to_room (removeLobbySession sid s) = m_player_to_room s"
  "m_sessions (removeLobbySession sid s) = m_sessions s"
  "m_clients (removeLobbySession sid s) = m_clients s"
  "cview (removeLobbySession sid s) = cview s"
  "session_playerId w (removeLobbySession sid s) = session_playerId w s"
  by (simp_all add: removeLobbySession_def session_playerId_def)

lemma sess_safe_client_close:
  assumes "sess_safe s"
  shows "sess_safe (ClientSession_close E sid s)"
proof (cases "client_closed sid s")
  case False
  note view = open_cview [OF this]
  let ?s = "removeLobbySession sid (upd_client (\<lambda>c. c\<lparr>cs_closed := True, cs_heartbeat := False\<rparr>) sid s)"
  have "session_playerId sid ?s = session_playerId sid s"
    by (simp add: session_playerId_def upd_client_def split: option.split)
  moreover have "sess_safe ?s" if "session_playerId sid s = []"
    by (rule sess_safe_gone [OF assms view]) (simp_all add: cview_upd_client that)
  moreover have "sess_safe (upd_client (setPlayerId []) sid (handleDisconnect E (session_playerId sid s) ?s))"
    by (rule sess_safe_dropped [OF assms view]) (simp_all add: cview_upd_client)
  ultimately show ?thesis using False by (simp add: ClientSession_close_def Let_def)
qed (simp add: ClientSession_close_def assms)

lemma sess_safe_dispatch:
  assumes "sess_safe s" and "\<not> client_closed sid s"
  shows "sess_safe (ClientSession_dispatch E env sid s)"
  using assms(1) open_cview [OF assms(2)]
  by (cases env) (simp_all add: ClientSession_dispatch_def sess_safe_handlers)

lemma sess_safe_process:
  assumes "sess_safe s" and "\<not> client_closed sid s"
  shows "sess_safe (ClientSession_processMessage E sid env s)"
proof -
  have "\<not> client_closed sid (s\<lparr>m_redis := r\<rparr>)" for r using assms(2) by (simp add: client_closed_def)
  with assms show ?thesis
    by (simp add: ClientSession_processMessage_def Let_def sess_safe_client_close sess_safe_dispatch
        split: option.split prod.split sum.split)
qed

lemma sess_safe_game_process:
  "sess_safe s \<Longrightarrow> sess_safe (GameServerSession_processMessage E S gid env s)"
  by (cases env) (simp_all add: GameServerSession_processMessage_def handleTokenValidate_def
      handleGameServerHeartbeat_def Let_def sess_safe_slot split: prod.split)

interpretation client_registry: open_loop "e_room_proto E" "ClientSession_processMessage E sid"
  "client_closed sid" sess_safe for E sid
  by unfold_locales (rule sess_safe_process)

interpretation game_registry: message_loop "e_room_proto E" "GameServerSession_processMessage E S gid"
  "\<lambda>_. False" sess_safe for E S gid
  by unfold_locales (rule sess_safe_game_process)

lemma sess_safe_client_read:
  assumes "sess_safe s" and "result = None \<or> \<not> client_closed sid s"
  shows "sess_safe (ClientSession_onRead E result sid s)"
  using assms
  by (auto simp: ClientSession_onRead_def Let_def case_prod_beta sess_safe_client_close
      client_registry.open_loop_keeps split: option.split)

lemma sess_safe_game_close: "sess_safe s \<Longrightarrow> sess_safe (GameServerSession_close E gid s)"
  by (simp add: GameServerSession_close_def Let_def sess_safe_game_disconnect split: option.split)

lemma sess_safe_game_read: "sess_safe s \<Longrightarrow> sess_safe (GameServerSession_onRead E S result gid s)"
  by (simp add: GameServerSession_onRead_def Let_def case_prod_beta sess_safe_game_close
      game_registry.loop_keeps split: option.split)

lemma sess_safe_destroy:
  assumes "sess_safe s" and c: "m_clients s sid = Some c"
  shows "sess_safe (ClientSession_destroy E sid s)"
proof -
  let ?s = "s\<lparr>m_clients := (m_clients s)(sid := None)\<rparr>"
  have view: "cview s sid = Some (session_playerId sid s, client_closed sid s)"
    using c by (simp add: cview_def session_playerId_def client_closed_def)
  have others: "cview ?s w = cview s w" if "w \<noteq> sid" for w using that by (simp add: cview_def)
  have "sess_safe ?s" if "session_playerId sid s = [] \<or> client_closed sid s"
    by (rule sess_safe_gone [OF assms(1) view]) (simp_all add: others that)
  moreover have "sess_safe (handleDisconnect E (session_playerId sid s) (removeLobbySession sid ?s))"
    by (rule sess_safe_dropped [OF assms(1) view]) (simp_all add: others)
  ultimately show ?thesis by (simp add: ClientSession_destroy_def Let_def)
qed

lemma sess_safe_handler:
  assumes "room_handler False E s s'" and "sess_safe s"
  shows "sess_safe s'"
  using assms
proof (induction rule: room_handler.induct)
  case (client_read s sid c result)
  then show ?case by (intro sess_safe_client_read) (auto simp: client_closed_def)
next
  case (client_destroy s sid c)
  then show ?case by (intro sess_safe_destroy)
next
  case (rehash s rooms p2r sessions lobby)
  then show ?case by (simp add: sess_safe_def rehashed_def)
qed (simp_all add: ClientSession_onHeartbeat_def ClientSession_onWritten_def sess_safe_client_close
    Let_def sess_safe_game_read GameServerSession_onWritten_def GameServerSession_destroy_def
    sess_safe_game_close sess_safe_game_disconnect lobby_timer_fired_def lobby_timer_cancelled_def
    split: option.split)

section \<open>Object identifiers\<close>

text \<open>Identifiers are handed out in order, so the next one is not in use.\<close>

definition heap :: "'r room_server \<Rightarrow> nat \<times> nat set" where
  "heap s = (m_next s, dom (cview s))"

lemma dom_cview: "dom (cview s) = dom (m_clients s)"
  by (auto simp: cview_def)

definition heap_ok :: "'r room_server \<Rightarrow> bool" where
  "heap_ok s \<longleftrightarrow> (\<forall>w \<in> snd (heap s). w < fst (heap s))"

lemma dom_set_session_player: "dom (cview (set_session_player p sid s)) = dom (cview s)"
  by (auto simp: set_session_player_def cview_upd_client cview_def split: if_splits)

lemma heap_frame [simp]:
  "heap (session_send F e sid s) = heap s"
  "heap (sendTo F p e s) = heap s"
  "heap (sendRejectTo F sid rr msg s) = heap s"
  "heap (broadcastToRoom F rm e s) = heap s"
  "heap (broadcastToRoom_except F rm e p s) = heap s"
  "heap (notifyRoomListChanged s) = heap s"
  "heap (set_session_player p sid s) = heap s"
  "heap (return_to_lobby p s) = heap s"
  "heap (end_session F i s) = heap s"
  "heap (with_store F k s) = heap s"
  "heap (fold evict ps s) = heap s"
  "heap (upd_client f sid s) = heap s"
  "heap (upd_game h gid s) = heap s"
  "heap (upd_chat l s) = heap s"
  by (simp_all add: heap_def dom_set_session_player upd_game_def upd_chat_def split: option.split)
    (auto simp: upd_client_def cview_def split: option.split if_splits)

lemma heap_update [simp]:
  "heap (s\<lparr>m_rooms := a\<rparr>) = heap s"
  "heap (s\<lparr>m_player_to_room := b\<rparr>) = heap s"
  "heap (s\<lparr>m_sessions := c\<rparr>) = heap s"
  "heap (s\<lparr>m_lobby_sessions := d\<rparr>) = heap s"
  "heap (s\<lparr>m_lobby_pending := e\<rparr>) = heap s"
  "heap (s\<lparr>m_lobby_waits := n\<rparr>) = heap s"
  "heap (s\<lparr>m_lobby_cancelled := n\<rparr>) = heap s"
  "heap (s\<lparr>m_games := g\<rparr>) = heap s"
  "heap (s\<lparr>m_chat := h\<rparr>) = heap s"
  "heap (s\<lparr>m_redis := i\<rparr>) = heap s"
  "heap (s\<lparr>m_rng := j\<rparr>) = heap s"
  by (simp_all add: heap_def)

lemma heap_lobby [simp]:
  "heap (addLobbySession sid s) = heap s"
  "heap (removeLobbySession sid s) = heap s"
  "heap (registerSession p sid s) = heap s"
  "heap (unregisterSession p s) = heap s"
  "heap (broadcastRoomListToLobby E s) = heap s"
  by (simp_all add: addLobbySession_def removeLobbySession_def registerSession_def
      unregisterSession_def broadcastRoomListToLobby_def Let_def fold_frame split: prod.split option.split)

lemma heap_handlers [simp]:
  "heap (removeRoom E rid x s) = heap s"
  "heap (handleCreateRoom E p pn n mp sid s) = heap s"
  "heap (handleJoinRoom E p pn rid sid s) = heap s"
  "heap (handleLeaveRoom E p s) = heap s"
  "heap (handleToggleReady E p s) = heap s"
  "heap (handleRoomListRequest E pg ps sid s) = heap s"
  "heap (handleDisconnect E p s) = heap s"
  "heap (handleSlotReleased E p i s) = heap s"
  "heap (close_game_room E rid s) = heap s"
proof -
  show rm: "heap (removeRoom E rid x s) = heap s" for s :: "'a room_server" and E rid x
    by (simp add: removeRoom_def Let_def split: option.split)
  show "heap (handleCreateRoom E p pn n mp sid s) = heap s"
    by (simp add: handleCreateRoom_def Let_def next_uuid_def split: prod.split)
  show "heap (handleJoinRoom E p pn rid sid s) = heap s"
    by (simp add: handleJoinRoom_def Let_def split: option.split)
  show lv: "heap (handleLeaveRoom E p s) = heap s"
    by (simp add: handleLeaveRoom_def Let_def rm split: option.split)
  show "heap (handleToggleReady E p s) = heap s"
    by (simp add: handleToggleReady_def Let_def split: option.split)
  show "heap (handleRoomListRequest E pg ps sid s) = heap s"
    by (simp add: handleRoomListRequest_def Let_def)
  show "heap (handleDisconnect E p s) = heap s"
    by (simp add: handleDisconnect_def lv)
  show "heap (handleSlotReleased E p i s) = heap s"
    by (simp add: handleSlotReleased_def Let_def split: option.split)
  show "heap (close_game_room E rid s) = heap s"
    by (simp add: close_game_room_def Let_def split: option.split)
qed

lemma heap_start [simp]: "heap (handleStartGame E p s) = heap s"
proof -
  have "heap (send_game_start E i q t) = heap t" for i q and t :: "'a room_server"
    by (simp add: heap_def)
  then show ?thesis
    by (simp add: handleStartGame_def Let_def next_uuid_def fold_frame split: option.split prod.split)
qed

lemma heap_game_disconnect [simp]: "heap (handleGameServerDisconnect E s) = heap s"
  by (simp add: handleGameServerDisconnect_def fold_frame)

lemma heap_client_close [simp]: "heap (ClientSession_close E sid s) = heap s"
  by (simp add: ClientSession_close_def Let_def)

lemma heap_game_close [simp]: "heap (GameServerSession_close E gid s) = heap s"
  by (simp add: GameServerSession_close_def Let_def split: option.split)

lemma heap_process [simp]:
  "heap (ClientSession_processMessage E sid env s) = heap s"
  "heap (GameServerSession_processMessage E S gid env s) = heap s"
proof -
  have "heap (ClientSession_dispatch E env sid t) = heap t" for t :: "'a room_server"
    by (cases env) (simp_all add: ClientSession_dispatch_def)
  then show "heap (ClientSession_processMessage E sid env s) = heap s"
    by (simp add: ClientSession_processMessage_def Let_def split: option.split prod.split sum.split)
  show "heap (GameServerSession_processMessage E S gid env s) = heap s"
    by (cases env) (simp_all add: GameServerSession_processMessage_def handleTokenValidate_def
        handleGameServerHeartbeat_def game_send_def Let_def split: prod.split)
qed

interpretation client_heap: message_loop "e_room_proto E" "ClientSession_processMessage E sid"
  "client_closed sid" "\<lambda>t. heap t = h" for E sid h
  by unfold_locales simp

interpretation game_heap: message_loop "e_room_proto E" "GameServerSession_processMessage E S gid"
  "\<lambda>_. False" "\<lambda>t. heap t = h" for E S gid h
  by unfold_locales simp

lemma heap_read [simp]:
  "heap (ClientSession_onRead E result sid s) = heap s"
  "heap (GameServerSession_onRead E S result gid s) = heap s"
  by (simp_all add: ClientSession_onRead_def GameServerSession_onRead_def Let_def case_prod_beta
      client_heap.loop_keeps game_heap.loop_keeps split: option.split)

lemma heap_ok_handler:
  assumes "room_handler late E s s'" and "heap_ok s"
  shows "heap_ok s'"
  using assms
proof (induction rule: room_handler.induct)
  case (client_destroy s sid c)
  have "heap (s\<lparr>m_clients := (m_clients s)(sid := None)\<rparr>) = (fst (heap s), snd (heap s) - {sid})"
    by (auto simp: heap_def dom_cview)
  with client_destroy show ?case by (auto simp: heap_ok_def ClientSession_destroy_def Let_def)
qed (simp_all add: heap_ok_def ClientSession_onHeartbeat_def ClientSession_onWritten_def
    GameServerSession_onWritten_def GameServerSession_destroy_def lobby_timer_fired_def
    lobby_timer_cancelled_def Let_def split: option.split)

section \<open>Reachable states\<close>

lemma heap_ok_fresh:
  assumes "heap_ok s"
  shows "cview s (m_next s) = None"
proof -
  have "m_next s \<notin> dom (cview s)" using assms by (auto simp: heap_ok_def heap_def)
  then show ?thesis using not_None_eq by blast
qed

lemma sess_safe_new_session:
  assumes "sess_safe s" and "heap_ok s"
  shows "sess_safe (s\<lparr>m_clients := (m_clients s)(m_next s \<mapsto> c)\<rparr>)"
proof -
  have "cview (s\<lparr>m_clients := (m_clients s)(m_next s \<mapsto> c)\<rparr>) w = Some v"
    if "cview s w = Some v" for w v
    using that heap_ok_fresh [OF assms(2)] by (auto simp: cview_def)
  with assms(1) show ?thesis by (simp add: sess_safe_def)
qed

lemma sess_safe_starts [simp]:
  "sess_safe (ClientSession_start E remote sid s) = sess_safe s"
  "sess_safe (GameServerSession_start gid s) = sess_safe s"
  "sess_safe (RoomManager_stop s) = sess_safe s"
  by (simp_all add: ClientSession_start_def GameServerSession_start_def RoomManager_stop_def Let_def)

lemma heap_starts [simp]:
  "heap (ClientSession_start E remote sid s) = heap s"
  "heap (GameServerSession_start gid s) = heap s"
  "heap (RoomManager_stop s) = heap s"
  by (simp_all add: ClientSession_start_def GameServerSession_start_def RoomManager_stop_def Let_def)

lemma heap_new_session:
  assumes "heap_ok s"
  shows "heap_ok (s\<lparr>m_clients := (m_clients s)(m_next s \<mapsto> c), m_next := Suc (m_next s)\<rparr>)"
    and "heap_ok (s\<lparr>m_games := gs, m_next := Suc (m_next s)\<rparr>)"
  using assms by (auto simp: heap_ok_def heap_def dom_cview less_Suc_eq split: if_splits)

lemmas process_defs = RoomServer_onAccept_def RoomServer_doAccept_def RoomServer_start_def
  RoomServer_stop_def GameServerChannel_onAccept_def GameServerChannel_doAccept_def
  GameServerChannel_start_def GameServerChannel_stop_def room_signal_def room_main_def Let_def

lemma sess_safe_step:
  assumes "room_step False E p p'" and "sess_safe (rp_server p)" and "heap_ok (rp_server p)"
  shows "sess_safe (rp_server p')"
  using assms
  by (induction rule: room_step.induct)
    (auto simp: sess_safe_handler process_defs sess_safe_new_session split: option.split)

lemma heap_ok_frame [simp]:
  "heap_ok (ClientSession_start E remote sid s) = heap_ok s"
  "heap_ok (GameServerSession_start gid s) = heap_ok s"
  "heap_ok (RoomManager_stop s) = heap_ok s"
  "heap_ok (upd_chat f s) = heap_ok s"
  by (simp_all add: heap_ok_def)

lemma heap_ok_step:
  assumes "room_step late E p p'" and "heap_ok (rp_server p)"
  shows "heap_ok (rp_server p')"
  using assms
  by (induction rule: room_step.induct)
    (auto simp: heap_ok_handler process_defs heap_new_session split: option.split)

lemma reachable_sess_safe:
  "room_reachable False E p \<Longrightarrow> sess_safe (rp_server p) \<and> heap_ok (rp_server p)"
proof (induction rule: room_reachable.induct)
  case (room_init r g)
  show ?case
    by (simp add: process_defs)
      (simp add: upd_chat_def sess_safe_def heap_ok_def heap_def dom_cview RoomManager_new_def)
next
  case (room_next p p')
  then show ?case using sess_safe_step heap_ok_step by blast
qed

end
