(* ===== verification/RoomRuns.thy ===== *)
theory RoomRuns
  imports RoomSafety
begin

text \<open>
  Executable runs of the room server: a run is a list of events, and a run that can be
  executed is a run of \<open>room_step\<close>. The theory also fixes a small concrete environment in
  which the theorems about the room server are exercised.
\<close>

datatype room_event =
    Ev_accept "string option option"
  | Ev_read nat "byte list option"
  | Ev_heartbeat nat
  | Ev_written nat bool
  | Ev_destroy nat
  | Ev_game_accept bool
  | Ev_game_read nat "byte list option"
  | Ev_lobby_timer
  | Ev_signal

definition guarded :: "bool \<Rightarrow> 'a \<Rightarrow> 'a option" where
  "guarded b x = (if b then Some x else None)"

definition room_exec ::
  "bool \<Rightarrow> 'r room_env \<Rightarrow> room_event \<Rightarrow> 'r room_process \<Rightarrow> 'r room_process option" where
  "room_exec late E ev p =
     (let s = rp_server p in
      case ev of
        Ev_accept conn \<Rightarrow> guarded (rp_accepting p \<and> (conn = None \<or> rp_acceptor_open p \<or> late))
          (RoomServer_onAccept E conn p)
      | Ev_read sid result \<Rightarrow> (case m_clients s sid of None \<Rightarrow> None | Some c \<Rightarrow>
          guarded (cs_reading c \<and> (result = None \<or> \<not> cs_closed c \<or> late))
            (p\<lparr>rp_server := ClientSession_onRead E result sid s\<rparr>))
      | Ev_heartbeat sid \<Rightarrow> (case m_clients s sid of None \<Rightarrow> None | Some c \<Rightarrow>
          guarded (cs_heartbeat c) (p\<lparr>rp_server := ClientSession_onHeartbeat E sid s\<rparr>))
      | Ev_written sid ec \<Rightarrow> (case m_clients s sid of None \<Rightarrow> None | Some c \<Rightarrow>
          guarded (0 < cs_writes c) (p\<lparr>rp_server := ClientSession_onWritten E ec sid s\<rparr>))
      | Ev_destroy sid \<Rightarrow> (case m_clients s sid of None \<Rightarrow> None | Some c \<Rightarrow>
          guarded (ClientSession_idle c) (p\<lparr>rp_server := ClientSession_destroy E sid s\<rparr>))
      | Ev_game_accept ec \<Rightarrow> guarded (rp_game_accepting p \<and> (ec \<or> rp_game_acceptor_open p \<or> late))
          (GameServerChannel_onAccept ec p)
      | Ev_game_read gid result \<Rightarrow> (case m_games s gid of None \<Rightarrow> None | Some g \<Rightarrow>
          (case e_session_store E of None \<Rightarrow> None | Some S \<Rightarrow>
            guarded (gs_reading g \<and> (result = None \<or> \<not> gs_closed g \<or> late))
              (p\<lparr>rp_server := GameServerSession_onRead E S result gid s\<rparr>)))
      | Ev_lobby_timer \<Rightarrow> guarded (0 < m_lobby_waits s) (p\<lparr>rp_server := lobby_timer_fired E s\<rparr>)
      | Ev_signal \<Rightarrow> Some (room_signal p))"

fun room_run ::
  "bool \<Rightarrow> 'r room_env \<Rightarrow> room_event list \<Rightarrow> 'r room_process \<Rightarrow> 'r room_process option" where
  "room_run late E [] p = Some p"
| "room_run late E (ev # evs) p =
     (case room_exec late E ev p of None \<Rightarrow> None | Some p' \<Rightarrow> room_run late E evs p')"

lemma room_exec_step: "room_exec late E ev p = Some p' \<Longrightarrow> room_step late E p p'"
  by (cases ev)
    (auto simp: room_exec_def guarded_def Let_def split: option.splits if_splits
      intro: room_step.intros room_handler.intros)

lemma room_run_reachable:
  "room_reachable late E p \<Longrightarrow> room_run late E evs p = Some p' \<Longrightarrow> room_reachable late E p'"
proof (induction evs arbitrary: p)
  case (Cons ev evs)
  from Cons.prems(2) obtain q where q: "room_exec late E ev p = Some q" "room_run late E evs q = Some p'"
    by (auto split: option.splits)
  show ?case by (rule Cons.IH [OF room_next [OF Cons.prems(1) room_exec_step [OF q(1)]] q(2)])
qed simp

section \<open>A small environment\<close>

text \<open>A generator that counts, and the first identifiers it yields.\<close>

definition demo_rng :: "nat \<Rightarrow> rng" where
  "demo_rng n = \<lparr>draws = of_nat, drawn = n\<rparr>"

definition demo_id0 :: string where "demo_id0 = ''00000000-0000-4001-8000-000200000003''"
definition demo_id1 :: string where "demo_id1 = ''00000004-0000-4005-8000-000600000007''"
definition demo_id2 :: string where "demo_id2 = ''00000008-0000-4009-8000-000a0000000b''"
definition demo_id3 :: string where "demo_id3 = ''0000000c-0000-400d-8000-000e0000000f''"
definition demo_id4 :: string where "demo_id4 = ''00000010-0000-4011-8000-001200000013''"

lemma snd_demo_rng: "snd (generateUuid (demo_rng n)) = demo_rng (n + 4)"
  by (simp add: generateUuid_def demo_rng_def Let_def)

lemma demo_uuids:
  "generateUuid (demo_rng 0) = (demo_id0, demo_rng 4)"
  "generateUuid (demo_rng 4) = (demo_id1, demo_rng 8)"
  "generateUuid (demo_rng 8) = (demo_id2, demo_rng 12)"
  "generateUuid (demo_rng 12) = (demo_id3, demo_rng 16)"
  "generateUuid (demo_rng 16) = (demo_id4, demo_rng 20)"
proof -
  have "fst (generateUuid (demo_rng 0)) = demo_id0" "fst (generateUuid (demo_rng 4)) = demo_id1"
    "fst (generateUuid (demo_rng 8)) = demo_id2" "fst (generateUuid (demo_rng 12)) = demo_id3"
    "fst (generateUuid (demo_rng 16)) = demo_id4"
    by code_simp+
  then show "generateUuid (demo_rng 0) = (demo_id0, demo_rng 4)"
    "generateUuid (demo_rng 4) = (demo_id1, demo_rng 8)"
    "generateUuid (demo_rng 8) = (demo_id2, demo_rng 12)"
    "generateUuid (demo_rng 12) = (demo_id3, demo_rng 16)"
    "generateUuid (demo_rng 16) = (demo_id4, demo_rng 20)"
    by (simp_all add: prod_eq_iff snd_demo_rng)
qed

lemma demo_ids_distinct: "distinct [demo_id0, demo_id1, demo_id2, demo_id3, demo_id4]"
  by code_simp

lemma demo_ids_nonempty:
  "demo_id0 \<noteq> []" "demo_id1 \<noteq> []" "demo_id2 \<noteq> []" "demo_id3 \<noteq> []" "demo_id4 \<noteq> []"
  by (simp_all add: demo_id0_def demo_id1_def demo_id2_def demo_id3_def demo_id4_def)

lemmas demo_ids = demo_ids_nonempty demo_ids_distinct [simplified]

lemma demo_fresh:
  "uuids_fresh (demo_rng 4)" "uuids_fresh (demo_rng 8)" "uuids_fresh (demo_rng 12)"
  "uuids_fresh (demo_rng 16)" "uuids_fresh (demo_rng 20)"
proof -
  have iss: "issued (demo_rng 0) = []" by (simp add: issued_def demo_rng_def)
  have step: "issued (demo_rng (n + 4)) = issued (demo_rng n) @ [fst (generateUuid (demo_rng n))]" for n
    using issued_generateUuid [of "demo_rng n"] by (simp add: snd_demo_rng)
  have "issued (demo_rng 20) = [demo_id0, demo_id1, demo_id2, demo_id3, demo_id4]"
    "issued (demo_rng 16) = [demo_id0, demo_id1, demo_id2, demo_id3]"
    "issued (demo_rng 12) = [demo_id0, demo_id1, demo_id2]"
    "issued (demo_rng 8) = [demo_id0, demo_id1]" "issued (demo_rng 4) = [demo_id0]"
    using step [of 0] step [of 4] step [of 8] step [of 12] step [of 16] iss
    by (simp_all add: demo_uuids)
  then show "uuids_fresh (demo_rng 4)" "uuids_fresh (demo_rng 8)" "uuids_fresh (demo_rng 12)"
    "uuids_fresh (demo_rng 16)" "uuids_fresh (demo_rng 20)"
    using demo_ids_distinct by (simp_all add: uuids_fresh_def)
qed

text \<open>A message is one byte on the wire; the table says which.\<close>

definition demo_table :: "(byte \<times> envelope) list" where
  "demo_table =
     [(1, CreateRoom ''alice'' ''Alice'' ''room'' 2), (2, JoinRoom ''bob'' ''Bob'' demo_id0),
      (3, ToggleReady), (4, StartGame), (5, LeaveRoom), (6, SlotReleased ''alice'' []),
      (7, SlotReleased ''bob'' []), (8, CreateRoom [] ''nobody'' ''room'' 2),
      (9, GameServerHeartbeat ''game-1'' 0)]"

definition demo_proto :: "envelope proto" where
  "demo_proto = \<lparr>SerializeAsString = (\<lambda>_. [0]),
     ParseFromArray = (\<lambda>bs. case bs of [b] \<Rightarrow> map_of demo_table b | _ \<Rightarrow> None)\<rparr>"

definition demo_env :: "mem room_env" where
  "demo_env = \<lparr>e_max_rooms = 2, e_max_players_per_room = 4, e_session_store = Some mem_store,
     e_game_server_host = ''127.0.0.1'', e_game_server_port = 7979, e_chat_channel = True,
     e_rate_limiter = None, e_heartbeat_timeout = 30, e_room_proto = demo_proto,
     e_chat_proto = \<lparr>SerializeAsString = (\<lambda>_. [0]), ParseFromArray = (\<lambda>_. None)\<rparr>\<rparr>"

definition demo_start :: "mem room_process" where
  "demo_start = room_main mem_empty (demo_rng 0)"

text \<open>A connection arrives; a message arrives at a client or a game server session; a
  connection is lost.\<close>

definition ev_connect :: room_event where
  "ev_connect = Ev_accept (Some (Some ''10.0.0.1''))"

definition ev_msg :: "nat \<Rightarrow> byte \<Rightarrow> room_event" where
  "ev_msg sid b = Ev_read sid (Some [1, 0, 0, 0, b])"

definition ev_game_msg :: "nat \<Rightarrow> byte \<Rightarrow> room_event" where
  "ev_game_msg gid b = Ev_game_read gid (Some [1, 0, 0, 0, b])"

definition ev_lost :: "nat \<Rightarrow> room_event" where
  "ev_lost sid = Ev_read sid None"

definition demo_run :: "bool \<Rightarrow> room_event list \<Rightarrow> mem room_process" where
  "demo_run late evs = the (room_run late demo_env evs demo_start)"

lemma demo_reachable_exists:
  assumes "\<exists>p. room_run late demo_env evs demo_start = Some p \<and> P p"
  shows "\<exists>p. room_reachable late demo_env p \<and> P p"
proof -
  from assms obtain p where p: "room_run late demo_env evs (room_main mem_empty (demo_rng 0)) = Some p"
    and "P p" by (auto simp: demo_start_def)
  with room_run_reachable [OF room_init p] show ?thesis by blast
qed

lemma demo_run_reachable:
  assumes "room_run late demo_env evs demo_start \<noteq> None"
  shows "room_reachable late demo_env (demo_run late evs)"
proof -
  from assms obtain p where p: "room_run late demo_env evs demo_start = Some p" by auto
  show ?thesis
    using room_run_reachable [OF room_init p [unfolded demo_start_def]] p
    by (simp add: demo_run_def demo_start_def)
qed

section \<open>Evaluating runs\<close>

lemma demo_env_simps:
  "e_max_rooms demo_env = 2" "e_max_players_per_room demo_env = 4"
  "e_session_store demo_env = Some mem_store" "e_chat_channel demo_env"
  "e_rate_limiter demo_env = None" "e_heartbeat_timeout demo_env = 30" "e_room_proto demo_env = demo_proto"
  "e_game_server_host demo_env = ''127.0.0.1''" "e_game_server_port demo_env = 7979"
  by (simp_all add: demo_env_def)

lemma demo_decode: "tryDecode demo_proto [1, 0, 0, 0, b] = (map_of demo_table b, [])"
  by (simp add: tryDecode_def decode_length_def MAX_MESSAGE_SIZE_def Let_def demo_proto_def
      split: option.split)

lemma demo_loop:
  "decode_loop demo_proto process closed [1, 0, 0, 0, b] s =
     (case map_of demo_table b of None \<Rightarrow> ([], s) | Some m \<Rightarrow> ([], process m s))"
proof -
  have "decode_loop demo_proto process closed [] t = ([], t)" for t
    by (rule decode_loop_None) (simp add: tryDecode_def)
  then show ?thesis
    by (subst decode_loop.simps) (simp add: demo_decode Let_def split: option.split)
qed

definition demo_stored :: "string \<Rightarrow> string \<Rightarrow> string \<Rightarrow> mem \<Rightarrow> mem" where
  "demo_stored p i tok r = (mem_put (token_key tok) (RString (replicate (length p) (CHR ''1'') @ ''0'' @ p @ i)) r)
     \<lparr>mem_ttl := umap_put (token_key tok) 60 (mem_ttl r)\<rparr>"

lemma demo_createToken:
  "createToken mem_store p i g r =
     (Inr (fst (generateUuid g)), snd (generateUuid g), demo_stored p i (fst (generateUuid g)) r)"
  by (simp add: createToken_def mem_store_def SessionStore_new_def toy_json_def RedisClient_setex_def
      mem_redis_def token_json_def demo_stored_def split: prod.splits)

lemma demo_stored_up: "mem_up r \<Longrightarrow> mem_up (demo_stored p i tok r)"
  by (simp add: demo_stored_def mem_up_put)

lemmas demo_simps = room_exec_def guarded_def Let_def demo_start_def room_main_def
  ev_connect_def ev_msg_def ev_game_msg_def ev_lost_def
  RoomServer_start_def RoomServer_doAccept_def RoomServer_onAccept_def GameServerChannel_start_def
  GameServerChannel_doAccept_def GameServerChannel_onAccept_def RoomManager_new_def upd_chat_def
  upd_client_def upd_game_def ClientSession_start_def ClientSession_new_def ClientSession_doRead_def
  resetHeartbeatTimer_def ClientSession_onRead_def ClientSession_close_def client_closed_def
  ClientSession_onHeartbeat_def ClientSession_onWritten_def ClientSession_destroy_def ClientSession_idle_def
  feed_def demo_env_simps demo_decode demo_loop demo_table_def ClientSession_processMessage_def
  ClientSession_dispatch_def session_playerId_def session_send_def ClientSession_send_def
  ClientSession_push_def ClientSession_doWrite_def setPlayerId_def set_session_player_def
  GameServerSession_start_def GameServerSession_new_def GameServerSession_doRead_def
  GameServerSession_onRead_def GameServerSession_processMessage_def
  addLobbySession_def removeLobbySession_def registerSession_def unregisterSession_def
  return_to_lobby_def lock_def sendTo_def sendRejectTo_def broadcastToRoom_def broadcastToRoom_except_def
  notifyRoomListChanged_def duplicate_player_def umap_contains_def umap_put_def umap_erase_def
  next_uuid_def demo_uuids handleCreateRoom_def handleJoinRoom_def handleLeaveRoom_def handleToggleReady_def
  handleStartGame_def handleSlotReleased_def handleDisconnect_def removeRoom_def evict_def hasActiveGame_def
  Room_new_def isFull_def isHost_def hasPlayer_def playerCount_def playerIds_def canStart_def addPlayer_def
  removePlayer_def toggleReady_def setState_def setSessionId_def send_game_start_def issue_token_def
  demo_createToken with_store_def end_session_def demo_ids

end
