(* ===== verification/RoomDelivery.thy ===== *)
theory RoomDelivery
  imports RoomRuns
begin

text \<open>
  What reaches the connections. \<open>outbox s sid\<close> is everything that was handed to the session
  object for writing so far, in order: the frames on the wire followed by the queue. The
  lemmas say what the sending operations of the manager add to it.
\<close>

definition outbox :: "'r room_server \<Rightarrow> nat \<Rightarrow> byte list list" where
  "outbox s sid = (case m_clients s sid of None \<Rightarrow> [] | Some c \<Rightarrow> cs_wire c @ cs_write_queue c)"

lemma push_wire [simp]: "cs_wire (ClientSession_push f c) = cs_wire c"
  by (simp add: ClientSession_push_def ClientSession_doWrite_def Let_def)

lemma outbox_update [simp]:
  "outbox (s\<lparr>m_rooms := a\<rparr>) = outbox s"
  "outbox (s\<lparr>m_player_to_room := b\<rparr>) = outbox s"
  "outbox (s\<lparr>m_sessions := c\<rparr>) = outbox s"
  "outbox (s\<lparr>m_lobby_sessions := d\<rparr>) = outbox s"
  "outbox (s\<lparr>m_lobby_pending := e\<rparr>) = outbox s"
  "outbox (s\<lparr>m_lobby_waits := n\<rparr>) = outbox s"
  "outbox (s\<lparr>m_lobby_cancelled := n\<rparr>) = outbox s"
  "outbox (s\<lparr>m_chat := h\<rparr>) = outbox s"
  "outbox (s\<lparr>m_redis := i\<rparr>) = outbox s"
  "outbox (s\<lparr>m_rng := j\<rparr>) = outbox s"
  by (simp_all add: outbox_def fun_eq_iff)

lemma outbox_frame [simp]:
  "outbox (registerSession p sid s) = outbox s"
  "outbox (addLobbySession sid s) = outbox s"
  "outbox (removeLobbySession sid s) = outbox s"
  "outbox (notifyRoomListChanged s) = outbox s"
  "outbox (set_session_player p sid s) = outbox s"
  "outbox (with_store E f s) = outbox s"
  "outbox (snd (issue_token E p i s)) = outbox s"
  "outbox (end_session E i s) = outbox s"
  by (auto simp: registerSession_def addLobbySession_def removeLobbySession_def
      notifyRoomListChanged_def set_session_player_def upd_client_def setPlayerId_def with_store_def
      end_session_def issue_token_def next_uuid_def Let_def outbox_def fun_eq_iff
      split: option.split prod.split sum.split)

lemma outbox_session_send:
  assumes "m_clients s sid \<noteq> None"
  shows "outbox (session_send E e sid s) =
    (outbox s)(sid := outbox s sid @ [encode (e_room_proto E) e])"
  using assms by (auto simp: outbox_def session_send_def upd_client_def ClientSession_send_def fun_eq_iff)

text \<open>The sessions a list of players is registered with, one live session for each.\<close>

definition registered :: "'r room_server \<Rightarrow> string list \<Rightarrow> bool" where
  "registered s ps \<longleftrightarrow> distinct ps \<and>
     (\<forall>p \<in> set ps. \<exists>sid. umap_find (m_sessions s) p = Some sid \<and> cview s sid \<noteq> None) \<and>
     (\<forall>p \<in> set ps. \<forall>q \<in> set ps. umap_find (m_sessions s) p = umap_find (m_sessions s) q \<longrightarrow> p = q)"

lemma registered_cong:
  "m_sessions s' = m_sessions s \<Longrightarrow> cview s' = cview s \<Longrightarrow> registered s' ps = registered s ps"
  by (simp add: registered_def)

lemma registered_Cons:
  assumes "registered s (p # ps)"
  obtains sid where "umap_find (m_sessions s) p = Some sid" and "m_clients s sid \<noteq> None"
    and "registered s ps" and "\<forall>q \<in> set ps. umap_find (m_sessions s) q \<noteq> Some sid"
proof -
  from assms obtain sid where sid: "umap_find (m_sessions s) p = Some sid" "cview s sid \<noteq> None"
    by (auto simp: registered_def)
  have "registered s ps" using assms by (auto simp: registered_def)
  moreover have "umap_find (m_sessions s) q \<noteq> Some sid" if "q \<in> set ps" for q
    using assms sid(1) that by (fastforce simp: registered_def)
  moreover have "m_clients s sid \<noteq> None" using sid(2) by (simp add: cview_def)
  ultimately show ?thesis using sid(1) that by blast
qed

text \<open>A loop over players that sends each one message: everyone gets their own, once.\<close>

lemma outbox_fold_send:
  assumes step: "\<And>p t sid. umap_find (m_sessions t) p = Some sid \<Longrightarrow> m_clients t sid \<noteq> None \<Longrightarrow> I t \<Longrightarrow>
      outbox (f p t) = (outbox t)(sid := outbox t sid @ [msg p t])"
    and frame: "\<And>p t. m_sessions (f p t) = m_sessions t" "\<And>p t. cview (f p t) = cview t"
    and inv: "\<And>p t. I t \<Longrightarrow> I (f p t)"
    and "registered s ps" and "I s"
  shows "(\<forall>w. (\<forall>p \<in> set ps. umap_find (m_sessions s) p \<noteq> Some w) \<longrightarrow> outbox (fold f ps s) w = outbox s w) \<and>
     (\<forall>i < length ps. \<forall>w. umap_find (m_sessions s) (ps ! i) = Some w \<longrightarrow>
        outbox (fold f ps s) w = outbox s w @ [msg (ps ! i) (fold f (take i ps) s)])"
  using assms(5,6)
proof (induction ps arbitrary: s)
  case (Cons p ps)
  from Cons.prems(1) obtain sid where sid: "umap_find (m_sessions s) p = Some sid"
    "m_clients s sid \<noteq> None" "registered s ps"
    "\<forall>q \<in> set ps. umap_find (m_sessions s) q \<noteq> Some sid"
    using registered_Cons by metis
  have out: "outbox (f p s) = (outbox s)(sid := outbox s sid @ [msg p s])"
    using step sid(1,2) Cons.prems(2) by blast
  have "registered (f p s) ps" using sid(3) registered_cong [OF frame] by blast
  from Cons.IH [OF this inv [OF Cons.prems(2)]]
  have IH: "\<forall>w. (\<forall>q \<in> set ps. umap_find (m_sessions s) q \<noteq> Some w) \<longrightarrow>
        outbox (fold f ps (f p s)) w = outbox (f p s) w"
    "\<forall>i < length ps. \<forall>w. umap_find (m_sessions s) (ps ! i) = Some w \<longrightarrow>
        outbox (fold f ps (f p s)) w = outbox (f p s) w @ [msg (ps ! i) (fold f (take i ps) (f p s))]"
    by (simp_all add: frame)
  have "outbox (fold f ps (f p s)) w = outbox s w"
    if "\<forall>q \<in> set (p # ps). umap_find (m_sessions s) q \<noteq> Some w" for w
    using that IH(1) out sid(1) by auto
  moreover have "outbox (fold f (p # ps) s) w = outbox s w @ [msg ((p # ps) ! i) (fold f (take i (p # ps)) s)]"
    if i: "i < length (p # ps)" and w: "umap_find (m_sessions s) ((p # ps) ! i) = Some w" for i w
  proof (cases i)
    case 0
    then show ?thesis using w sid(1,4) IH(1) out by simp
  next
    case (Suc j)
    then have "ps ! j \<in> set ps" using i by simp
    then have "w \<noteq> sid" using sid(4) w Suc by auto
    with Suc show ?thesis using IH(2) w i out by simp
  qed
  ultimately show ?case by simp
qed simp

section \<open>Broadcasts\<close>

lemma outbox_sendTo:
  assumes "umap_find (m_sessions s) p = Some sid" and "m_clients s sid \<noteq> None"
  shows "outbox (sendTo E p e s) = (outbox s)(sid := outbox s sid @ [encode (e_room_proto E) e])"
proof -
  have "sendTo E p e s = session_send E e sid s" using assms by (simp add: sendTo_def lock_def)
  then show ?thesis using outbox_session_send [OF assms(2)] by simp
qed

lemma outbox_broadcast:
  assumes "registered s (playerIds r)"
  shows "\<forall>pid \<in> set (playerIds r). \<forall>sid. umap_find (m_sessions s) pid = Some sid \<longrightarrow>
      outbox (broadcastToRoom E r e s) sid = outbox s sid @ [encode (e_room_proto E) e]"
    and "\<forall>sid. (\<forall>pid \<in> set (playerIds r). umap_find (m_sessions s) pid \<noteq> Some sid) \<longrightarrow>
      outbox (broadcastToRoom E r e s) sid = outbox s sid"
proof -
  note all = outbox_fold_send [where I = "\<lambda>_. True" and f = "\<lambda>q. sendTo E q e" and
      msg = "\<lambda>_ _. encode (e_room_proto E) e", OF outbox_sendTo _ _ _ assms]
  then show "\<forall>sid. (\<forall>pid \<in> set (playerIds r). umap_find (m_sessions s) pid \<noteq> Some sid) \<longrightarrow>
      outbox (broadcastToRoom E r e s) sid = outbox s sid"
    unfolding broadcastToRoom_def by simp
  show "\<forall>pid \<in> set (playerIds r). \<forall>sid. umap_find (m_sessions s) pid = Some sid \<longrightarrow>
      outbox (broadcastToRoom E r e s) sid = outbox s sid @ [encode (e_room_proto E) e]"
  proof (intro ballI allI impI)
    fix pid sid
    assume "pid \<in> set (playerIds r)" and sid: "umap_find (m_sessions s) pid = Some sid"
    then obtain n where n: "n < length (playerIds r)" "playerIds r ! n = pid"
      by (auto simp: in_set_conv_nth)
    with all sid show "outbox (broadcastToRoom E r e s) sid = outbox s sid @ [encode (e_room_proto E) e]"
      by (simp add: broadcastToRoom_def)
  qed
qed

lemma reachable_registered:
  assumes "room_reachable False E p" and "uuids_fresh (m_rng (rp_server p))"
    and "umap_find (m_rooms (rp_server p)) rid = Some r" and "[] \<notin> set (playerIds r)"
  shows "registered (rp_server p) (playerIds r)"
proof -
  let ?s = "rp_server p"
  have inv: "rooms_inv E (m_rng ?s) (m_rooms ?s) (m_player_to_room ?s)" and safe: "sess_safe ?s"
    using reachable_rooms_safe [OF assms(1)] assms(2) reachable_sess_safe [OF assms(1)]
    by (simp_all add: rooms_safe_def)
  have reg: "\<exists>sid. umap_find (m_sessions ?s) q = Some sid \<and> cview ?s sid = Some (q, False)"
    if "q \<in> set (playerIds r)" for q
    using sess_safe_registered [OF safe, of q] index_memberD [OF rooms_invD(3) [OF inv] assms(3) that]
      that assms(4) by auto
  have "distinct (playerIds r)" using rooms_invD(4) [OF inv assms(3)] by (simp add: room_ok_def room_wf_def)
  moreover have "q = q'" if q: "q \<in> set (playerIds r)" "q' \<in> set (playerIds r)"
    and eq: "umap_find (m_sessions ?s) q = umap_find (m_sessions ?s) q'" for q q'
    using reg [OF q(1)] reg [OF q(2)] eq by auto
  moreover have "\<exists>sid. umap_find (m_sessions ?s) q = Some sid \<and> cview ?s sid \<noteq> None"
    if "q \<in> set (playerIds r)" for q
    using reg [OF that] by auto
  ultimately show ?thesis by (simp add: registered_def)
qed

section \<open>Tokens\<close>

lemma issue_token_works:
  assumes "e_session_store E = Some S" and "tokens_up S up" and strings: "redis_strings (ss_redis S) kv"
    and "up (m_redis s)" and "token_json_ok (ss_json S) q i"
  obtains txtv where "json_dump (ss_json S) (token_json q i) = Inr txtv"
    and "fst (issue_token E q i s) = fst (generateUuid (m_rng s))"
    and "m_rng (snd (issue_token E q i s)) = snd (generateUuid (m_rng s))"
    and "kv (m_redis (snd (issue_token E q i s))) =
      (kv (m_redis s))(token_key (fst (generateUuid (m_rng s))) \<mapsto> txtv)"
    and "up (m_redis (snd (issue_token E q i s)))"
proof -
  obtain u g where u: "generateUuid (m_rng s) = (u, g)" by fastforce
  from assms(5) obtain txtv where t: "json_dump (ss_json S) (token_json q i) = Inr txtv"
    by (auto simp: token_json_ok_def)
  obtain r' where r': "sw_setex (ss_redis S) (token_key u) (ss_token_ttl S) txtv (m_redis s) = (Inr (), r')" "up r'"
    using assms(2,4) by (rule tokens_up_setexE)
  have c: "createToken S q i (m_rng s) (m_redis s) = (Inr u, g, r')"
    using t r'(1) u by (simp add: createToken_def RedisClient_setex_def)
  show ?thesis
    by (rule that [OF t])
      (use assms(1) c u r'(2) redis_stringsD(1) [OF strings r'(1)] in \<open>simp_all add: issue_token_def\<close>)
qed

lemma token_key_inj: "token_key a = token_key b \<longleftrightarrow> a = b"
  by (simp add: token_key_def)

text \<open>The token of the \<open>j\<close>-th player of a starting room.\<close>

abbreviation nth_token :: "'r room_env \<Rightarrow> string \<Rightarrow> string list \<Rightarrow> nat \<Rightarrow> 'r room_server \<Rightarrow> string" where
  "nth_token E i ps j s \<equiv> fst (generateUuid (m_rng (fold (send_game_start E i) (take j ps) s)))"

lemma send_game_start_token:
  "m_rng (send_game_start E i q s) = m_rng (snd (issue_token E q i s))"
  "m_redis (send_game_start E i q s) = m_redis (snd (issue_token E q i s))"
  by (simp_all add: send_game_start_def case_prod_beta)

lemma send_game_start_works:
  assumes "e_session_store E = Some S" and "tokens_up S up" and "redis_strings (ss_redis S) kv"
    and "up (m_redis s)" and "token_json_ok (ss_json S) q i"
  obtains txtv where "json_dump (ss_json S) (token_json q i) = Inr txtv"
    and "kv (m_redis (send_game_start E i q s)) = (kv (m_redis s))(token_key (fst (generateUuid (m_rng s))) \<mapsto> txtv)"
    and "issued (m_rng (send_game_start E i q s)) = issued (m_rng s) @ [fst (generateUuid (m_rng s))]"
    and "up (m_redis (send_game_start E i q s))"
  using issue_token_works [OF assms] by (metis issued_generateUuid send_game_start_token)

lemma tokens_keep_up:
  assumes "e_session_store E = Some S" "tokens_up S up" "redis_strings (ss_redis S) kv" "up (m_redis s)"
    and "\<forall>q \<in> set ps. token_json_ok (ss_json S) q i"
  shows "up (m_redis (fold (send_game_start E i) ps s))"
  using assms(4,5)
proof (induction ps arbitrary: s)
  case (Cons q ps)
  then have "up (m_redis (send_game_start E i q s))"
    using send_game_start_works [OF assms(1-3) Cons.prems(1)] by (metis list.set_intros(1))
  with Cons show ?case by simp
qed simp

text \<open>After the loop every player's token is stored with that player's data, since no two
  tokens are equal.\<close>

lemma tokens_stored:
  assumes store: "e_session_store E = Some S" "tokens_up S up" "redis_strings (ss_redis S) kv" "up (m_redis s)"
    and "\<forall>q \<in> set ps. token_json_ok (ss_json S) q i"
    and "uuids_fresh (m_rng (fold (send_game_start E i) ps s))" and "j < length ps"
  shows "nth_token E i ps j s \<in> set (issued (m_rng (fold (send_game_start E i) ps s))) \<and>
    (\<exists>txtv. json_dump (ss_json S) (token_json (ps ! j) i) = Inr txtv \<and>
       kv (m_redis (fold (send_game_start E i) ps s)) (token_key (nth_token E i ps j s)) = Some txtv)"
  using assms(5-7)
proof (induction ps arbitrary: j rule: rev_induct)
  case (snoc q ps)
  let ?f = "send_game_start E i"
  let ?t = "fold ?f ps s"
  have ok: "token_json_ok (ss_json S) q i" and oks: "\<forall>x \<in> set ps. token_json_ok (ss_json S) x i"
    using snoc.prems(1) by auto
  obtain txtv where t: "json_dump (ss_json S) (token_json q i) = Inr txtv"
    "kv (m_redis (?f q ?t)) = (kv (m_redis ?t))(token_key (fst (generateUuid (m_rng ?t))) \<mapsto> txtv)"
    and iss: "issued (m_rng (?f q ?t)) = issued (m_rng ?t) @ [fst (generateUuid (m_rng ?t))]"
    using send_game_start_works [OF store(1-3) tokens_keep_up [OF store oks] ok] by metis
  then have fresh: "uuids_fresh (m_rng ?t)" "fst (generateUuid (m_rng ?t)) \<notin> set (issued (m_rng ?t))"
    using snoc.prems(2) by (auto simp: uuids_fresh_def)
  show ?case
  proof (cases "j < length ps")
    case True
    from snoc.IH [OF oks fresh(1) True] fresh(2) t(2) iss True show ?thesis
      by (auto simp: nth_append token_key_inj)
  next
    case False
    with snoc.prems(3) have "j = length ps" by simp
    with t iss show ?thesis by simp
  qed
qed simp

lemma outbox_game_start:
  assumes "umap_find (m_sessions s) q = Some sid" and "m_clients s sid \<noteq> None"
  shows "outbox (send_game_start E i q s) = (outbox s)(sid := outbox s sid @
    [encode (e_room_proto E) (GameStart i (fst (issue_token E q i s)) (e_game_server_host E)
      (ucast (e_game_server_port E)))])"
proof -
  let ?s = "snd (issue_token E q i s)"
  have "cview ?s sid = cview s sid" by simp
  then have "m_clients ?s sid \<noteq> None" unfolding cview_def using assms(2) by auto
  then show ?thesis
    using outbox_sendTo [of ?s q sid] assms(1) by (simp add: send_game_start_def case_prod_beta)
qed

text \<open>The state after a start that is accepted.\<close>

lemma start_accepted:
  assumes "umap_find (m_player_to_room s) host = Some rid" and "umap_find (m_rooms s) rid = Some r"
    and "isHost host r" and "\<not> hasActiveGame s" and "canStart r"
  obtains t where
    "t = with_store E (\<lambda>S. registerGameSession S (fst (generateUuid (m_rng s))))
       (s\<lparr>m_rng := snd (generateUuid (m_rng s)),
          m_rooms := umap_put rid (setSessionId (fst (generateUuid (m_rng s))) (setState ROOM_IN_GAME r)) (m_rooms s)\<rparr>)"
    and "outbox (handleStartGame E host s) =
       outbox (fold (send_game_start E (fst (generateUuid (m_rng s)))) (playerIds r) t)"
    and "m_redis (handleStartGame E host s) =
       m_redis (fold (send_game_start E (fst (generateUuid (m_rng s)))) (playerIds r) t)"
    and "m_rng (handleStartGame E host s) =
       m_rng (fold (send_game_start E (fst (generateUuid (m_rng s)))) (playerIds r) t)"
    and "m_rooms (handleStartGame E host s) = m_rooms t"
proof -
  obtain u g where u: "generateUuid (m_rng s) = (u, g)" by fastforce
  have red: "m_redis (notifyRoomListChanged x) = m_redis x" for x :: "'a room_server"
    by (simp add: notifyRoomListChanged_def)
  show ?thesis
    by (rule that [OF refl]) (use assms u in \<open>simp_all add: handleStartGame_def next_uuid_def Let_def red\<close>)
qed

text \<open>The loop of an accepted start gives every member, on its own connection, one \<open>GameStart\<close>
  with the member's token.\<close>

lemma start_hands_out_tokens:
  fixes E host p r
  defines "s \<equiv> rp_server p" and "i \<equiv> fst (generateUuid (m_rng (rp_server p)))"
  assumes run: "room_reachable False E p" "uuids_fresh (m_rng (handleStartGame E host s))"
    and room: "umap_find (m_player_to_room s) host = Some rid" "umap_find (m_rooms s) rid = Some r"
      "[] \<notin> set (playerIds r)"
    and guards: "isHost host r" "\<not> hasActiveGame s" "canStart r"
    and store: "e_session_store E = Some S" "tokens_up S up" "redis_strings (ss_redis S) kv" "up (m_redis s)"
      "\<forall>q \<in> set (playerIds r). token_json_ok (ss_json S) q i"
  obtains t where "t = with_store E (\<lambda>S. registerGameSession S i) (s\<lparr>m_rng := snd (generateUuid (m_rng s)),
        m_rooms := umap_put rid (setSessionId i (setState ROOM_IN_GAME r)) (m_rooms s)\<rparr>)"
    and "distinct (playerIds r)"
    and "m_redis (handleStartGame E host s) = m_redis (fold (send_game_start E i) (playerIds r) t)"
    and "m_rng (handleStartGame E host s) = m_rng (fold (send_game_start E i) (playerIds r) t)"
    and "m_rooms (handleStartGame E host s) = m_rooms t" and "up (m_redis t)"
    and "\<forall>j < length (playerIds r). \<exists>sid. umap_find (m_sessions s) (playerIds r ! j) = Some sid \<and>
       outbox (handleStartGame E host s) sid = outbox s sid @ [encode (e_room_proto E)
         (GameStart i (nth_token E i (playerIds r) j t) (e_game_server_host E) (ucast (e_game_server_port E)))]"
proof -
  let ?ps = "playerIds r"
  obtain t where t: "t = with_store E (\<lambda>S. registerGameSession S i) (s\<lparr>m_rng := snd (generateUuid (m_rng s)),
        m_rooms := umap_put rid (setSessionId i (setState ROOM_IN_GAME r)) (m_rooms s)\<rparr>)"
    and parts: "outbox (handleStartGame E host s) = outbox (fold (send_game_start E i) ?ps t)"
      "m_redis (handleStartGame E host s) = m_redis (fold (send_game_start E i) ?ps t)"
      "m_rng (handleStartGame E host s) = m_rng (fold (send_game_start E i) ?ps t)"
      "m_rooms (handleStartGame E host s) = m_rooms t"
    unfolding i_def s_def by (rule start_accepted [OF room(1,2) guards, unfolded s_def])
  have frame: "m_sessions t = m_sessions s" "cview t = cview s" "outbox t = outbox s"
    "rng_ext (m_rng s) (m_rng t)" by (simp_all add: t)
  have up: "up (m_redis t)"
    using tokens_up_register [OF store(2,4)] store(1) by (simp add: t with_store_def rtry_def)
  have fresh: "uuids_fresh (m_rng s)"
    using rng_ext_fresh [OF rng_ext_trans [OF frame(4) rng_ext_game_starts]] run(2) parts(3) by simp
  have reg: "registered t ?ps"
    using registered_cong [OF frame(1,2)] reachable_registered [OF run(1)] fresh room(2,3) by (simp add: s_def)
  note out = outbox_fold_send [where I = "\<lambda>_. True" and f = "send_game_start E i", OF outbox_game_start _ _ _ reg]
  have sent: "\<exists>sid. umap_find (m_sessions s) (?ps ! j) = Some sid \<and>
      outbox (handleStartGame E host s) sid = outbox s sid @ [encode (e_room_proto E)
        (GameStart i (nth_token E i ?ps j t) (e_game_server_host E) (ucast (e_game_server_port E)))]"
    if j: "j < length ?ps" for j
  proof -
    obtain sid where sid: "umap_find (m_sessions s) (?ps ! j) = Some sid"
      using reg frame(1) j by (force simp: registered_def)
    have "\<forall>q \<in> set (take j ?ps). token_json_ok (ss_json S) q i" using store(5) set_take_subset by fast
    from tokens_keep_up [OF store(1-3) up this]
    have "fst (issue_token E (?ps ! j) i (fold (send_game_start E i) (take j ?ps) t)) = nth_token E i ?ps j t"
      using issue_token_works [OF store(1-3) _ store(5) [rule_format]] j by (metis nth_mem)
    with out j sid show ?thesis by (simp add: parts(1) frame)
  qed
  show ?thesis using that [OF t _ parts(2-4) up] reg sent by (simp add: registered_def)
qed

end
