(* ===== verification/RoomProperties.thy ===== *)
theory RoomProperties
  imports RoomDelivery
begin

text \<open>
  What the room server guarantees over whole runs, with the runs that show each guarantee at
  work.
\<close>

section \<open>Invariants of every run\<close>

text \<open>C1. In every state a run of the room server reaches, whatever clients, game servers,
  timers and Redis do (and also if handlers run late), as long as the generator has not
  repeated an identifier: a player is indexed under a room exactly if the room lists it, so
  no player is in two rooms; no room lists a player twice, exceeds its own capacity or the
  server's limit on capacities, or is stored under another room's identifier; there are at
  most \<open>max_rooms\<close> rooms, and at most one of them is in game.\<close>

theorem rooms_and_players_agree:
  assumes "room_reachable late E p" and "uuids_fresh (m_rng (rp_server p))"
  shows "(\<forall>pid rid. umap_find (m_player_to_room (rp_server p)) pid = Some rid \<longleftrightarrow>
            (\<exists>r. umap_find (m_rooms (rp_server p)) rid = Some r \<and> pid \<in> set (playerIds r))) \<and>
         (\<forall>rid r. umap_find (m_rooms (rp_server p)) rid = Some r \<longrightarrow>
            r_room_id r = rid \<and> distinct (playerIds r) \<and>
            length (playerIds r) \<le> unat (r_max_players r) \<and>
            r_max_players r \<le> e_max_players_per_room E) \<and>
         roomCount (rp_server p) \<le> unat (e_max_rooms E) \<and>
         length (filter (\<lambda>entry. r_state (snd entry) = ROOM_IN_GAME) (m_rooms (rp_server p))) \<le> 1"
proof -
  let ?s = "rp_server p"
  have inv: "rooms_inv E (m_rng ?s) (m_rooms ?s) (m_player_to_room ?s)"
    using reachable_rooms_safe [OF assms(1)] assms(2) by (simp add: rooms_safe_def)
  then show ?thesis
    by (simp add: rooms_inv_def index_ok_def room_ok_def room_wf_def roomCount_def length_playerIds
        umap_count_def comp_def)
qed

text \<open>Alice connects and creates a room for two.\<close>

definition demo_create :: "room_event list" where
  "demo_create = [ev_connect, ev_msg 0 1]"

definition demo_created :: "mem room_process" where
  "demo_created = demo_run False demo_create"

lemma demo_created_run:
  "\<exists>p. room_run False demo_env demo_create demo_start = Some p \<and> m_rng (rp_server p) = demo_rng 4 \<and>
     m_rooms (rp_server p) = [(demo_id0, Room_new demo_id0 ''room'' ''alice'' ''Alice'' 2)] \<and>
     m_player_to_room (rp_server p) = [(''alice'', demo_id0)] \<and> m_sessions (rp_server p) = [(''alice'', 0)]"
  by (simp add: demo_create_def demo_simps)

lemma demo_created_state:
  "room_run False demo_env demo_create demo_start \<noteq> None"
  "m_rng (rp_server demo_created) = demo_rng 4"
  "m_rooms (rp_server demo_created) = [(demo_id0, Room_new demo_id0 ''room'' ''alice'' ''Alice'' 2)]"
  "m_player_to_room (rp_server demo_created) = [(''alice'', demo_id0)]"
  "m_sessions (rp_server demo_created) = [(''alice'', 0)]"
  using demo_created_run by (auto simp: demo_created_def demo_run_def)

lemma demo_created_reachable: "room_reachable False demo_env demo_created"
  unfolding demo_created_def by (rule demo_run_reachable) (rule demo_created_state(1))

lemma demo_created_fresh: "uuids_fresh (m_rng (rp_server demo_created))"
  by (simp add: demo_created_state demo_fresh)

lemma demo_created_room:
  "umap_find (m_rooms (rp_server demo_created)) demo_id0 = Some (Room_new demo_id0 ''room'' ''alice'' ''Alice'' 2)"
  by (simp add: demo_created_state)

theorem rooms_and_players_agree_witness:
  "umap_find (m_player_to_room (rp_server demo_created)) ''alice'' = Some demo_id0 \<and>
   roomCount (rp_server demo_created) \<le> 2"
proof -
  have "\<exists>r. umap_find (m_rooms (rp_server demo_created)) demo_id0 = Some r \<and> ''alice'' \<in> set (playerIds r)"
    by (simp add: demo_created_room)
  with rooms_and_players_agree [OF demo_created_reachable demo_created_fresh] show ?thesis
    by (simp add: demo_env_simps)
qed

text \<open>C3. No ghosts: as long as no handler runs late, every member of a room (with a non-empty
  identifier) is registered with a session object that is alive, not closed and carries this
  identifier, so what the server sends to the member goes to its connection.\<close>

theorem room_members_are_connected:
  assumes "room_reachable False E p" and "uuids_fresh (m_rng (rp_server p))"
    and "umap_find (m_rooms (rp_server p)) rid = Some r" and "pid \<in> set (playerIds r)" and "pid \<noteq> []"
  shows "\<exists>sid c. umap_find (m_sessions (rp_server p)) pid = Some sid \<and>
           m_clients (rp_server p) sid = Some c \<and> \<not> cs_closed c \<and> cs_player_id c = pid \<and>
           sendTo E pid e (rp_server p) = session_send E e sid (rp_server p)"
proof -
  let ?s = "rp_server p"
  have "rooms_inv E (m_rng ?s) (m_rooms ?s) (m_player_to_room ?s)"
    using reachable_rooms_safe [OF assms(1)] assms(2) by (simp add: rooms_safe_def)
  then have "umap_find (m_player_to_room ?s) pid = Some rid"
    using index_memberD assms(3,4) rooms_invD(3) by blast
  then obtain sid where sid: "umap_find (m_sessions ?s) pid = Some sid" "cview ?s sid = Some (pid, False)"
    using sess_safe_registered [of ?s pid] reachable_sess_safe [OF assms(1)] assms(5) by auto
  then obtain c where "m_clients ?s sid = Some c" "\<not> cs_closed c" "cs_player_id c = pid"
    by (auto simp: cview_def)
  with sid show ?thesis by (simp add: sendTo_def lock_def)
qed

theorem room_members_are_connected_witness:
  "\<exists>sid c. umap_find (m_sessions (rp_server demo_created)) ''alice'' = Some sid \<and>
     m_clients (rp_server demo_created) sid = Some c \<and> \<not> cs_closed c \<and> cs_player_id c = ''alice''"
  using room_members_are_connected [OF demo_created_reachable demo_created_fresh demo_created_room,
      of "''alice''" LeaveRoom]
  by auto

text \<open>C9. A broadcast to a room reaches each of its members exactly once and nobody else: the
  frame is appended to what the member's own session was given before, and no other session
  is given anything.\<close>

theorem broadcast_reaches_exactly_the_members:
  assumes "room_reachable False E p" and "uuids_fresh (m_rng (rp_server p))"
    and "umap_find (m_rooms (rp_server p)) rid = Some r" and "[] \<notin> set (playerIds r)"
  shows "(\<forall>pid \<in> set (playerIds r). \<forall>sid. umap_find (m_sessions (rp_server p)) pid = Some sid \<longrightarrow>
            outbox (broadcastToRoom E r e (rp_server p)) sid =
              outbox (rp_server p) sid @ [encode (e_room_proto E) e]) \<and>
         (\<forall>sid. (\<forall>pid \<in> set (playerIds r). umap_find (m_sessions (rp_server p)) pid \<noteq> Some sid) \<longrightarrow>
            outbox (broadcastToRoom E r e (rp_server p)) sid = outbox (rp_server p) sid)"
  using outbox_broadcast [OF reachable_registered [OF assms]] by blast

theorem broadcast_reaches_exactly_the_members_witness:
  "outbox (broadcastToRoom demo_env (Room_new demo_id0 ''room'' ''alice'' ''Alice'' 2) LeaveRoom
     (rp_server demo_created)) 0 = outbox (rp_server demo_created) 0 @ [encode demo_proto LeaveRoom]"
  using broadcast_reaches_exactly_the_members [OF demo_created_reachable demo_created_fresh
      demo_created_room, of LeaveRoom]
  by (simp add: demo_created_state demo_env_simps)

section \<open>What the runs need to start a game\<close>

lemma mem_store_works:
  "redis_strings (ss_redis mem_store) mem_string" "token_json_ok (ss_json mem_store) q i"
  by (simp_all add: mem_store_def SessionStore_new_def mem_redis_strings toy_json_ok)

lemma demo_created_can_start:
  "umap_find (m_player_to_room (rp_server demo_created)) ''alice'' = Some demo_id0"
  "isHost ''alice'' (Room_new demo_id0 ''room'' ''alice'' ''Alice'' 2)"
  "\<not> hasActiveGame (rp_server demo_created)"
  "canStart (Room_new demo_id0 ''room'' ''alice'' ''Alice'' 2)"
  by (simp_all add: demo_created_state hasActiveGame_def Room_new_def isHost_def canStart_def)

end
