(* ===== verification/RoomPredicate.thy ===== *)
theory RoomPredicate
  imports RoomSafety
begin

text \<open>
  Predicates on the state of the room server that do not depend on its rooms. The locale
  \<open>room_predicate\<close> lists the primitive changes the handlers are made of; a predicate that survives
  each of them survives every handler, hence every run. It is interpreted for the timer of the lobby
  (\<open>RoomLobby\<close>) and for tokens that were used (\<open>TokenSafety\<close>).
\<close>

locale room_predicate =
  fixes E :: "'r room_env" and P :: "'r room_server \<Rightarrow> bool"
  assumes keeps_rooms: "P s \<Longrightarrow> P (s\<lparr>m_rooms := rooms\<rparr>)"
    and keeps_index: "P s \<Longrightarrow> P (s\<lparr>m_player_to_room := p2r\<rparr>)"
    and keeps_sessions: "P s \<Longrightarrow> P (s\<lparr>m_sessions := sessions\<rparr>)"
    and keeps_clients: "P s \<Longrightarrow> P (s\<lparr>m_clients := clients\<rparr>)"
    and keeps_games: "P s \<Longrightarrow> P (s\<lparr>m_games := games\<rparr>)"
    and keeps_next: "P s \<Longrightarrow> P (s\<lparr>m_next := n\<rparr>)"
    and keeps_chat: "P s \<Longrightarrow> P (s\<lparr>m_chat := link\<rparr>)"
    and keeps_add: "P s \<Longrightarrow> P (addLobbySession sid s)"
    and keeps_remove: "P s \<Longrightarrow> P (removeLobbySession sid s)"
    and keeps_expired: "P s \<Longrightarrow> P (s\<lparr>m_lobby_sessions := fold umap_erase ks (m_lobby_sessions s)\<rparr>)"
    and keeps_rehash: "P s \<Longrightarrow> rehashed (m_lobby_sessions s) lobby \<Longrightarrow> P (s\<lparr>m_lobby_sessions := lobby\<rparr>)"
    and keeps_notify: "P s \<Longrightarrow> P (notifyRoomListChanged s)"
    and keeps_timer: "P s \<Longrightarrow> 0 < m_lobby_waits s \<Longrightarrow>
      P (s\<lparr>m_lobby_waits := m_lobby_waits s - 1, m_lobby_pending := False\<rparr>)"
    and keeps_cancelled: "P s \<Longrightarrow> 0 < m_lobby_cancelled s \<Longrightarrow> P (lobby_timer_cancelled s)"
    and keeps_stop: "P s \<Longrightarrow> P (RoomManager_stop s)"
    and keeps_uuid: "P s \<Longrightarrow> P (s\<lparr>m_rng := snd (generateUuid (m_rng s))\<rparr>)"
    and keeps_token: "P s \<Longrightarrow> P (snd (issue_token E p i s))"
    and keeps_store: "P s \<Longrightarrow> e_session_store E = Some S \<Longrightarrow>
      m \<in> {registerGameSession S i, unregisterGameSession S i} \<Longrightarrow> P (s\<lparr>m_redis := snd (m (m_redis s))\<rparr>)"
    and keeps_validate: "P s \<Longrightarrow> e_session_store E = Some S \<Longrightarrow> P (s\<lparr>m_redis := snd (validateToken S t (m_redis s))\<rparr>)"
    and keeps_beat: "P s \<Longrightarrow> e_session_store E = Some S \<Longrightarrow>
      P (s\<lparr>m_redis := snd (updateGameServerHeartbeat S i (m_redis s))\<rparr>)"
    and keeps_limit: "P s \<Longrightarrow> e_rate_limiter E = Some L \<Longrightarrow> P (s\<lparr>m_redis := snd (allow L ip (m_redis s))\<rparr>)"
begin

lemma keeps_client: "P s \<Longrightarrow> P (upd_client f sid s)"
  by (simp add: upd_client_def keeps_clients split: option.split)

lemma keeps_game: "P s \<Longrightarrow> P (upd_game f gid s)"
  by (simp add: upd_game_def keeps_games split: option.split)

lemma keeps_link: "P s \<Longrightarrow> P (upd_chat f s)"
  by (simp add: upd_chat_def keeps_chat)

lemma keeps_send: "P s \<Longrightarrow> P (session_send E e sid s)"
  by (simp add: session_send_def keeps_client)

lemma keeps_sendTo: "P s \<Longrightarrow> P (sendTo E p e s)"
  by (simp add: sendTo_def keeps_send split: option.split)

lemma keeps_reject: "P s \<Longrightarrow> P (sendRejectTo E sid reason msg s)"
  by (simp add: sendRejectTo_def keeps_send)

lemma keeps_broadcast:
  "P s \<Longrightarrow> P (broadcastToRoom E room e s)" "P s \<Longrightarrow> P (broadcastToRoom_except E room e p s)"
  by (auto simp: broadcastToRoom_def broadcastToRoom_except_def keeps_sendTo intro!: fold_keeps [where P = P])

lemma keeps_registry:
  "P s \<Longrightarrow> P (registerSession p sid s)" "P s \<Longrightarrow> P (unregisterSession p s)"
  "P s \<Longrightarrow> P (set_session_player p sid s)"
  by (simp_all add: registerSession_def unregisterSession_def set_session_player_def keeps_sessions keeps_client)

lemma keeps_return: "P s \<Longrightarrow> P (return_to_lobby p s)"
  by (simp add: return_to_lobby_def keeps_add split: option.split)

lemma keeps_evict: "P s \<Longrightarrow> P (fold evict ps s)"
  by (rule fold_keeps) (simp_all add: evict_def Let_def keeps_return keeps_index)

lemma keeps_next_uuid: "P s \<Longrightarrow> P (snd (next_uuid s))"
  by (simp add: next_uuid_def case_prod_beta keeps_uuid)

lemma keeps_with_store:
  "P s \<Longrightarrow> P (with_store E (\<lambda>S. registerGameSession S i) s)"
  "P s \<Longrightarrow> P (with_store E (\<lambda>S. unregisterGameSession S i) s)"
  by (auto simp: with_store_def rtry_def intro!: keeps_store split: option.split)

lemma keeps_end_session: "P s \<Longrightarrow> P (end_session E i s)"
  by (simp add: end_session_def Let_def keeps_with_store keeps_chat)

lemma keeps_game_starts: "P s \<Longrightarrow> P (fold (send_game_start E i) ps s)"
  by (rule fold_keeps) (simp_all add: send_game_start_def case_prod_beta keeps_sendTo keeps_token)

lemmas keeps_parts = keeps_rooms keeps_index keeps_sessions keeps_chat keeps_client keeps_game keeps_link keeps_add keeps_remove
  keeps_notify keeps_next_uuid keeps_with_store keeps_end_session keeps_game_starts keeps_send keeps_sendTo
  keeps_reject keeps_broadcast keeps_registry keeps_return keeps_evict

lemma keeps_removeRoom: "P s \<Longrightarrow> P (removeRoom E rid x s)"
  by (simp add: removeRoom_def Let_def keeps_parts split: option.split)

lemma keeps_leave: "P s \<Longrightarrow> P (handleLeaveRoom E p s)"
  by (simp add: handleLeaveRoom_def Let_def keeps_parts keeps_removeRoom split: option.split)

lemma keeps_disconnect: "P s \<Longrightarrow> P (handleDisconnect E p s)"
  by (simp add: handleDisconnect_def keeps_leave keeps_registry)

lemma keeps_create: "P s \<Longrightarrow> P (handleCreateRoom E p pn n mp sid s)"
  by (simp add: handleCreateRoom_def Let_def case_prod_beta keeps_parts)

lemma keeps_join: "P s \<Longrightarrow> P (handleJoinRoom E p pn rid sid s)"
  by (simp add: handleJoinRoom_def Let_def keeps_parts split: option.split)

lemma keeps_toggle: "P s \<Longrightarrow> P (handleToggleReady E p s)"
  by (simp add: handleToggleReady_def Let_def keeps_parts split: option.split)

lemma keeps_start: "P s \<Longrightarrow> P (handleStartGame E p s)"
  by (simp add: handleStartGame_def Let_def case_prod_beta keeps_parts split: option.split)

lemma keeps_list: "P s \<Longrightarrow> P (handleRoomListRequest E pg n sid s)"
  by (simp add: handleRoomListRequest_def Let_def keeps_send)

lemma keeps_slot: "P s \<Longrightarrow> P (handleSlotReleased E p i s)"
  by (simp add: handleSlotReleased_def Let_def keeps_parts split: option.split)

lemma keeps_game_disconnect: "P s \<Longrightarrow> P (handleGameServerDisconnect E s)"
  unfolding handleGameServerDisconnect_def Let_def
  by (rule fold_keeps) (simp_all add: close_game_room_def Let_def keeps_parts split: option.split)

lemma keeps_lobby: "P s \<Longrightarrow> P (broadcastRoomListToLobby E s)"
  by (auto simp: broadcastRoomListToLobby_def Let_def keeps_send intro!: keeps_expired fold_keeps [where P = P]
      split: option.split)

lemma keeps_close: "P s \<Longrightarrow> P (ClientSession_close E sid s)" "P s \<Longrightarrow> P (GameServerSession_close E gid s)"
  by (simp_all add: ClientSession_close_def GameServerSession_close_def Let_def keeps_parts keeps_disconnect
      keeps_game_disconnect split: option.split)

lemma keeps_dispatch: "P s \<Longrightarrow> P (ClientSession_dispatch E env sid s)"
  by (cases env) (simp_all add: ClientSession_dispatch_def keeps_create keeps_join keeps_leave keeps_toggle
      keeps_start keeps_list keeps_add keeps_notify)

lemma keeps_process:
  assumes "P s"
  shows "P (ClientSession_processMessage E sid env s)"
proof (cases "e_rate_limiter E")
  case (Some L)
  obtain res r where a: "allow L (session_remote_ip sid s) (m_redis s) = (res, r)" by fastforce
  then have "P (s\<lparr>m_redis := r\<rparr>)" using keeps_limit [OF assms Some, of "session_remote_ip sid s"] by simp
  with Some a show ?thesis
    by (simp add: ClientSession_processMessage_def Let_def keeps_dispatch keeps_close keeps_send split: sum.split)
qed (simp add: ClientSession_processMessage_def assms keeps_dispatch)

lemma keeps_game_process:
  assumes "P s" and S: "e_session_store E = Some S"
  shows "P (GameServerSession_processMessage E S gid env s)"
proof -
  have "P ((upd_game f gid s)\<lparr>m_redis := snd (updateGameServerHeartbeat S i (m_redis (upd_game f gid s)))\<rparr>)" for f i
    using keeps_beat [OF keeps_game [OF assms(1)] S] by blast
  then show ?thesis
    using assms by (cases env) (simp_all add: GameServerSession_processMessage_def handleTokenValidate_def
        handleGameServerHeartbeat_def game_send_def rtry_def Let_def case_prod_beta keeps_slot keeps_game
        keeps_validate)
qed

end

sublocale room_predicate \<subseteq> client_loop: message_loop "e_room_proto E" "ClientSession_processMessage E sid"
  "client_closed sid" P for sid
  by unfold_locales (rule keeps_process)

sublocale room_predicate \<subseteq> game_loop: message_loop "e_room_proto E" "GameServerSession_processMessage E S gid"
  "\<lambda>_. False" "\<lambda>s. e_session_store E = Some S \<longrightarrow> P s" for S gid
  by unfold_locales (simp add: keeps_game_process)

context room_predicate
begin

lemma keeps_read: "P s \<Longrightarrow> P (ClientSession_onRead E result sid s)"
  by (simp add: ClientSession_onRead_def Let_def case_prod_beta keeps_close keeps_client client_loop.loop_keeps
      split: option.split)

lemma keeps_game_read:
  assumes "P s" and "e_session_store E = Some S"
  shows "P (GameServerSession_onRead E S result gid s)"
  using assms game_loop.loop_keeps [of S _ gid]
  by (simp add: GameServerSession_onRead_def Let_def case_prod_beta keeps_close keeps_game split: option.split)

text \<open>A handler keeps the predicate; of a step that only changes Redis this has to be known.\<close>

lemma keeps_handler:
  assumes "room_handler late E s s'" and "P s" and "s' = s\<lparr>m_redis := m_redis s'\<rparr> \<Longrightarrow> P s'"
  shows "P s'"
  using assms
proof (induction rule: room_handler.induct)
  case (rehash s rooms p2r sessions lobby)
  let ?t = "s\<lparr>m_rooms := rooms, m_player_to_room := p2r, m_sessions := sessions\<rparr>"
  have "P ?t" using rehash.prems(1) by (simp add: keeps_rooms keeps_index keeps_sessions)
  from keeps_rehash [OF this, of lobby] rehash.hyps(4) show ?case by simp
next
  case (lobby_timer s)
  then show ?case unfolding lobby_timer_fired_def by (intro keeps_lobby keeps_timer)
qed (simp_all add: keeps_read keeps_game_read keeps_cancelled keeps_parts keeps_close
    keeps_clients keeps_games keeps_disconnect keeps_game_disconnect
    ClientSession_onHeartbeat_def ClientSession_onWritten_def ClientSession_destroy_def
    GameServerSession_onWritten_def GameServerSession_destroy_def Let_def split: option.split)

lemma keeps_step:
  assumes "room_step late E p p'" and "P (rp_server p)"
    and "rp_server p' = (rp_server p)\<lparr>m_redis := m_redis (rp_server p')\<rparr> \<Longrightarrow> P (rp_server p')"
  shows "P (rp_server p')"
  using assms
proof (induction rule: room_step.induct)
  case (run p s')
  then show ?case by (auto intro: keeps_handler)
qed (auto simp: process_defs ClientSession_start_def GameServerSession_start_def keeps_client keeps_game
    keeps_clients keeps_games keeps_next keeps_add keeps_stop keeps_link split: option.split)

end

end
