(* ===== verification/RoomLobby.thy ===== *)
theory RoomLobby
  imports RoomDelivery RoomPredicate
begin

text \<open>
  The lobby: the sessions that wait outside a room are told about changes of the room list,
  at most once per delay. The theory shows that the timer and the flag
  \<open>lobby_broadcast_pending_\<close> agree in every run, and what a broadcast delivers; and that the
  room list requests are answered with the page that was asked for.
\<close>

section \<open>The timer\<close>

definition timer_ok :: "'r room_server \<Rightarrow> bool" where
  "timer_ok s \<longleftrightarrow> m_lobby_waits s + m_lobby_cancelled s = (if m_lobby_pending s then 1 else 0)"

text \<open>The lobby is keyed by the address of the session it refers to.\<close>

definition lobby_ok :: "'r room_server \<Rightarrow> bool" where
  "lobby_ok s \<longleftrightarrow> timer_ok s \<and> umap_ok (m_lobby_sessions s) \<and> (\<forall>(k, w) \<in> set (m_lobby_sessions s). k = w)"

lemma lobby_ok_update [simp]:
  "lobby_ok (s\<lparr>m_rooms := a\<rparr>) = lobby_ok s"
  "lobby_ok (s\<lparr>m_player_to_room := b\<rparr>) = lobby_ok s"
  "lobby_ok (s\<lparr>m_sessions := c\<rparr>) = lobby_ok s"
  "lobby_ok (s\<lparr>m_clients := d\<rparr>) = lobby_ok s"
  "lobby_ok (s\<lparr>m_games := e\<rparr>) = lobby_ok s"
  "lobby_ok (s\<lparr>m_next := n\<rparr>) = lobby_ok s"
  "lobby_ok (s\<lparr>m_chat := f\<rparr>) = lobby_ok s"
  "lobby_ok (s\<lparr>m_redis := g\<rparr>) = lobby_ok s"
  "lobby_ok (s\<lparr>m_rng := h\<rparr>) = lobby_ok s"
  by (simp_all add: lobby_ok_def timer_ok_def)

lemma set_put_subset: "set (umap_put k v m) \<subseteq> insert (k, v) (set m)"
  unfolding umap_put_def by (induction m) auto

lemma set_erase_subset: "set (umap_erase k m) \<subseteq> set m"
  unfolding umap_erase_def AList.delete_eq by auto

lemma lobby_ok_add [simp]: "lobby_ok s \<Longrightarrow> lobby_ok (addLobbySession sid s)"
  using set_put_subset [of sid sid "m_lobby_sessions s"]
  by (auto simp: lobby_ok_def timer_ok_def addLobbySession_def)

lemma lobby_ok_remove [simp]: "lobby_ok s \<Longrightarrow> lobby_ok (removeLobbySession sid s)"
  using set_erase_subset [of sid "m_lobby_sessions s"]
  by (auto simp: lobby_ok_def timer_ok_def removeLobbySession_def)

lemma lobby_ok_notify: "lobby_ok s \<Longrightarrow> lobby_ok (notifyRoomListChanged s)"
  by (auto simp: lobby_ok_def timer_ok_def notifyRoomListChanged_def)

lemma lobby_ok_token [simp]: "lobby_ok (snd (issue_token E p i s)) = lobby_ok s"
  by (simp add: lobby_ok_def timer_ok_def)

lemma lobby_ok_timer:
  "lobby_ok s \<Longrightarrow> 0 < m_lobby_waits s \<Longrightarrow>
     lobby_ok (s\<lparr>m_lobby_waits := m_lobby_waits s - 1, m_lobby_pending := False\<rparr>)"
  "lobby_ok s \<Longrightarrow> 0 < m_lobby_cancelled s \<Longrightarrow> lobby_ok (lobby_timer_cancelled s)"
  "lobby_ok s \<Longrightarrow> lobby_ok (RoomManager_stop s)"
  by (auto simp: lobby_ok_def timer_ok_def lobby_timer_cancelled_def RoomManager_stop_def split: if_splits)

lemma lobby_ok_rehash:
  assumes "lobby_ok s" and "rehashed (m_lobby_sessions s) lobby"
  shows "lobby_ok (s\<lparr>m_lobby_sessions := lobby\<rparr>)"
proof -
  have "umap_ok lobby" "set lobby = set (m_lobby_sessions s)"
    using assms rehashed_ok(1) [of "m_lobby_sessions s" lobby] by (auto simp: lobby_ok_def rehashed_def)
  with assms(1) show ?thesis by (simp add: lobby_ok_def timer_ok_def)
qed

lemma lobby_ok_fold_erase:
  assumes "lobby_ok s"
  shows "lobby_ok (s\<lparr>m_lobby_sessions := fold umap_erase ks (m_lobby_sessions s)\<rparr>)"
proof -
  have "set (fold umap_erase ks m) \<subseteq> set m" for m :: "(nat, nat) umap"
    by (induction ks arbitrary: m) (auto dest: subsetD [OF set_erase_subset])
  from this [of "m_lobby_sessions s"] assms show ?thesis
    by (auto simp: lobby_ok_def timer_ok_def umap_ok_fold_erase)
qed

interpretation lobby: room_predicate E lobby_ok for E
  by unfold_locales (simp_all add: lobby_ok_notify lobby_ok_timer [simplified] lobby_ok_rehash lobby_ok_fold_erase)

lemma reachable_lobby_ok: "room_reachable late E p \<Longrightarrow> lobby_ok (rp_server p)"
proof (induction rule: room_reachable.induct)
  case (room_init r g)
  show ?case
    by (simp add: process_defs upd_chat_def) (simp add: lobby_ok_def timer_ok_def RoomManager_new_def)
next
  case (room_next p p')
  from room_next.hyps(2) room_next.IH show ?case
    by (rule lobby.keeps_step) (use room_next.IH in \<open>metis lobby_ok_update(8)\<close>)
qed

section \<open>The broadcast\<close>

text \<open>The list the lobby is told: the first twenty waiting rooms, and how many there are.\<close>

definition lobby_message :: "'r room_server \<Rightarrow> envelope" where
  "lobby_message s = RoomListResponse
     (map toRoomSummary (take 20 (waiting_rooms s))) (of_nat (length (waiting_rooms s)))"

lemma first_page:
  assumes "length xs < 2 ^ 32"
  shows "map (\<lambda>i. f (xs ! i)) [0..<unat (min (of_nat (length xs) :: u32) kLobbyBroadcastPageSize)] =
    map f (take 20 xs)"
proof -
  have "unat (of_nat (length xs) :: u32) = length xs" using assms by (simp add: unat_of_nat)
  then have "unat (min (of_nat (length xs) :: u32) kLobbyBroadcastPageSize) = min (length xs) 20"
    by (simp add: min_def word_le_nat_alt kLobbyBroadcastPageSize_def)
  then show ?thesis by (auto intro!: nth_equalityI)
qed

lemma outbox_lobby_fold:
  assumes "distinct (map fst ls)" and "\<forall>(k, w) \<in> set ls. k = w"
  shows "outbox (fold (\<lambda>(ptr, w) s. case lock s w of None \<Rightarrow> s | Some sid \<Rightarrow> session_send E e sid s) ls s) sid =
    outbox s sid @ (if sid \<in> fst ` set ls \<and> m_clients s sid \<noteq> None then [encode (e_room_proto E) e] else [])"
  using assms
proof (induction ls arbitrary: s)
  case (Cons l ls)
  obtain k where l: "l = (k, k)" using Cons.prems(2) by (cases l) auto
  let ?t = "case lock s k of None \<Rightarrow> s | Some sid \<Rightarrow> session_send E e sid s"
  have t: "outbox ?t sid = outbox s sid @ (if sid = k \<and> m_clients s k \<noteq> None then [encode (e_room_proto E) e] else [])"
    using outbox_session_send [of s k E e] by (auto simp: lock_def)
  have "m_clients ?t sid = None \<longleftrightarrow> m_clients s sid = None"
    by (auto simp: lock_def session_send_def upd_client_def split: if_splits)
  with Cons.IH [of ?t] Cons.prems t show ?case by (auto simp: l)
qed simp

lemma lobby_broadcast_outbox:
  assumes "umap_ok (m_lobby_sessions s)" and "\<forall>(k, w) \<in> set (m_lobby_sessions s). k = w"
    and "length (m_rooms s) < 2 ^ 32"
  shows "outbox (broadcastRoomListToLobby E s) sid = outbox s sid @
    (if umap_contains (m_lobby_sessions s) sid \<and> m_clients s sid \<noteq> None
     then [encode (e_room_proto E) (lobby_message s)] else [])"
proof -
  have "length (waiting_rooms s) \<le> length (m_rooms s)"
    unfolding waiting_rooms_def using length_filter_le [of _ "map snd (m_rooms s)"] by simp
  then have n: "length (waiting_rooms s) < 2 ^ 32" using assms(3) by simp
  note out = outbox_lobby_fold [OF assms(1) [unfolded umap_ok_def] assms(2), of E "lobby_message s" s sid]
  have msg: "RoomListResponse (map (\<lambda>i. toRoomSummary (waiting_rooms s ! i))
      [0..<unat (min (of_nat (length (waiting_rooms s))) kLobbyBroadcastPageSize)])
      (of_nat (length (waiting_rooms s))) = lobby_message s"
    by (simp add: lobby_message_def first_page [OF n])
  show ?thesis
    unfolding broadcastRoomListToLobby_def Let_def msg using out by (simp add: umap_contains_iff)
qed

section \<open>Properties\<close>

text \<open>C29. A change of the room list is not forgotten and not announced twice: in every
  reachable state \<open>lobby_broadcast_pending_\<close> is set exactly if the one handler of the lobby
  timer is outstanding, so a set flag is always followed by a broadcast or by a shutdown, and
  a new change is never blocked by a flag that nobody will clear.\<close>

theorem lobby_timer_matches_flag:
  assumes "room_reachable late E p"
  shows "m_lobby_waits (rp_server p) + m_lobby_cancelled (rp_server p) \<le> 1 \<and>
    (m_lobby_pending (rp_server p) \<longleftrightarrow>
       m_lobby_waits (rp_server p) + m_lobby_cancelled (rp_server p) = 1)"
  using reachable_lobby_ok [OF assms] by (simp add: lobby_ok_def timer_ok_def)

text \<open>Alice creates a room while Bob waits in the lobby.\<close>

definition demo_lobby :: "mem room_process" where
  "demo_lobby = demo_run False [ev_connect, ev_connect, ev_msg 0 1]"

lemma demo_lobby_run:
  "\<exists>p. room_run False demo_env [ev_connect, ev_connect, ev_msg 0 1] demo_start = Some p \<and>
     m_lobby_pending (rp_server p) \<and> m_lobby_waits (rp_server p) = 1 \<and>
     m_lobby_sessions (rp_server p) = [(1, 1)] \<and> m_clients (rp_server p) 1 \<noteq> None \<and>
     length (m_rooms (rp_server p)) = 1"
  by (simp add: demo_simps)

lemma demo_lobby_state:
  "room_run False demo_env [ev_connect, ev_connect, ev_msg 0 1] demo_start \<noteq> None"
  "m_lobby_pending (rp_server demo_lobby)" "m_lobby_waits (rp_server demo_lobby) = 1"
  "m_lobby_sessions (rp_server demo_lobby) = [(1, 1)]" "m_clients (rp_server demo_lobby) 1 \<noteq> None"
  "length (m_rooms (rp_server demo_lobby)) = 1"
  using demo_lobby_run by (auto simp: demo_lobby_def demo_run_def)

lemma demo_lobby_waiting: "length (waiting_rooms (rp_server demo_lobby)) = 1"
proof -
  have "\<exists>p. room_run False demo_env [ev_connect, ev_connect, ev_msg 0 1] demo_start = Some p \<and>
      length (waiting_rooms (rp_server p)) = 1"
    by (simp add: demo_simps waiting_rooms_def)
  then show ?thesis by (auto simp: demo_lobby_def demo_run_def)
qed

lemma demo_lobby_reachable: "room_reachable False demo_env demo_lobby"
  unfolding demo_lobby_def by (rule demo_run_reachable) (rule demo_lobby_state(1))

theorem lobby_timer_matches_flag_witness:
  "m_lobby_pending (rp_server demo_lobby) \<and> m_lobby_cancelled (rp_server demo_lobby) = 0"
  using lobby_timer_matches_flag [OF demo_lobby_reachable] by (simp add: demo_lobby_state)

text \<open>C30. When the lobby timer fires, every live session in the lobby is given exactly one
  message, with the first twenty waiting rooms and their total number, and no other session
  is given anything.\<close>

theorem lobby_broadcast_delivers:
  assumes "room_reachable late E p" and "length (m_rooms (rp_server p)) < 2 ^ 32"
  shows "outbox (lobby_timer_fired E (rp_server p)) sid = outbox (rp_server p) sid @
    (if umap_contains (m_lobby_sessions (rp_server p)) sid \<and> m_clients (rp_server p) sid \<noteq> None
     then [encode (e_room_proto E) (RoomListResponse
             (map toRoomSummary (take 20 (waiting_rooms (rp_server p))))
             (of_nat (length (waiting_rooms (rp_server p)))))]
     else [])"
proof -
  let ?s = "rp_server p"
  let ?t = "?s\<lparr>m_lobby_waits := m_lobby_waits ?s - 1, m_lobby_pending := False\<rparr>"
  have ok: "umap_ok (m_lobby_sessions ?s)" "\<forall>(k, w) \<in> set (m_lobby_sessions ?s). k = w"
    using reachable_lobby_ok [OF assms(1)] by (simp_all add: lobby_ok_def)
  have "outbox (broadcastRoomListToLobby E ?t) sid = outbox ?t sid @
      (if umap_contains (m_lobby_sessions ?t) sid \<and> m_clients ?t sid \<noteq> None
       then [encode (e_room_proto E) (lobby_message ?t)] else [])"
    by (rule lobby_broadcast_outbox) (use ok assms(2) in simp_all)
  then show ?thesis by (simp add: lobby_timer_fired_def lobby_message_def waiting_rooms_def)
qed

theorem lobby_broadcast_delivers_witness:
  "outbox (lobby_timer_fired demo_env (rp_server demo_lobby)) 1 = outbox (rp_server demo_lobby) 1 @
     [encode demo_proto (RoomListResponse (map toRoomSummary (take 20 (waiting_rooms (rp_server demo_lobby))))
        (of_nat (length (waiting_rooms (rp_server demo_lobby)))))]"
proof -
  have "length (m_rooms (rp_server demo_lobby)) < 2 ^ 32" by (simp add: demo_lobby_state)
  from lobby_broadcast_delivers [OF demo_lobby_reachable this, of 1] show ?thesis
    using demo_lobby_state(4,5) by (simp add: umap_contains_def demo_env_simps)
qed

section \<open>Room list requests\<close>

lemma map_slice: "map (\<lambda>i. f (xs ! i)) [a..<min (length xs) (a + n)] = map f (take n (drop a xs))"
proof (rule nth_equalityI)
  fix i
  assume "i < length (map (\<lambda>i. f (xs ! i)) [a..<min (length xs) (a + n)])"
  then have i: "a + i < length xs" "i < n" by simp_all
  then have "[a..<min (length xs) (a + n)] ! i = a + i" by (intro nth_upt) simp
  with i show "map (\<lambda>i. f (xs ! i)) [a..<min (length xs) (a + n)] ! i = map f (take n (drop a xs)) ! i"
    by simp
qed simp

lemma room_list_page_wraps:
  assumes "length xs < 2 ^ 32" and "unat page * unat n mod 2 ^ 32 + unat n < 2 ^ 32"
  shows "room_list_page page n xs = map toRoomSummary (take (unat n) (drop (unat page * unat n mod 2 ^ 32) xs))"
proof -
  have off: "unat (page * n) = unat page * unat n mod 2 ^ 32"
    by (simp add: unat_word_ariths)
  then have "unat (page * n + n) = unat page * unat n mod 2 ^ 32 + unat n"
    using assms(2) by (simp add: unat_word_ariths(1) [of "page * n" n])
  moreover have "unat (of_nat (length xs) :: u32) = length xs" using assms(1) by (simp add: unat_of_nat)
  ultimately show ?thesis
    using off by (simp add: room_list_page_def Let_def map_slice)
qed

lemma room_list_page_eq:
  assumes "length xs < 2 ^ 32" and "unat page * unat n + unat n < 2 ^ 32"
  shows "room_list_page page n xs = map toRoomSummary (take (unat n) (drop (unat page * unat n) xs))"
  using room_list_page_wraps [OF assms(1), of page n] assms(2) by simp

text \<open>C31. A room list request is answered with the page it asks for, cut out of the waiting
  rooms: pages have 20 rooms if the request names no size and at most 100 otherwise. Nothing
  else changes. The page number must be small enough for the offset to fit in 32 bits.\<close>

theorem room_list_request_returns_page:
  assumes "length (m_rooms s) < 2 ^ 32"
    and "unat page * (if page_size = 0 then 20 else min 100 (unat page_size)) +
      (if page_size = 0 then 20 else min 100 (unat page_size)) < 2 ^ 32"
  shows "handleRoomListRequest E page page_size sid s =
    session_send E (RoomListResponse
      (map toRoomSummary (take (if page_size = 0 then 20 else min 100 (unat page_size))
        (drop (unat page * (if page_size = 0 then 20 else min 100 (unat page_size))) (waiting_rooms s))))
      (of_nat (length (waiting_rooms s)))) sid s"
proof -
  let ?n = "let n = (if page_size = 0 then 20 else page_size) in if n > 100 then 100 else n"
  have n: "unat ?n = (if page_size = 0 then 20 else min 100 (unat page_size))"
    by (auto simp: Let_def min_def word_less_nat_alt)
  have "length (waiting_rooms s) \<le> length (m_rooms s)"
    unfolding waiting_rooms_def using length_filter_le [of _ "map snd (m_rooms s)"] by simp
  then have "length (waiting_rooms s) < 2 ^ 32" using assms(1) by simp
  moreover have "unat page * unat ?n + unat ?n < 2 ^ 32" using assms(2) by (simp only: n)
  ultimately have "room_list_page page ?n (waiting_rooms s) =
      map toRoomSummary (take (unat ?n) (drop (unat page * unat ?n) (waiting_rooms s)))"
    by (rule room_list_page_eq)
  moreover have "handleRoomListRequest E page page_size sid s =
      session_send E (RoomListResponse (room_list_page page ?n (waiting_rooms s))
        (of_nat (length (waiting_rooms s)))) sid s"
    by (simp add: handleRoomListRequest_def Let_def)
  ultimately show ?thesis by (simp only: n)
qed

theorem room_list_request_returns_page_witness:
  "handleRoomListRequest demo_env 0 0 1 (rp_server demo_lobby) =
     session_send demo_env (RoomListResponse (map toRoomSummary (take 20 (waiting_rooms (rp_server demo_lobby))))
       (of_nat (length (waiting_rooms (rp_server demo_lobby))))) 1 (rp_server demo_lobby)"
  using room_list_request_returns_page [of "rp_server demo_lobby" 0 0 demo_env 1]
  by (simp add: demo_lobby_state)

text \<open>C38. The offset of a page is computed in 32 bits and wraps. For every page number and page size:
  if page number times page size is \<open>2 ^ 32\<close> or more, the list of waiting rooms has nothing at that
  offset, but the request is answered with the rooms at the offset modulo \<open>2 ^ 32\<close>, as long as that
  page does not itself reach beyond 32 bits; if there are waiting rooms at the reduced offset, a page
  that should be empty is not.\<close>

theorem room_list_offset_wraps:
  assumes "length (m_rooms s) < 2 ^ 32" and n: "n = (if page_size = 0 then 20 else min 100 (unat page_size))"
    and "2 ^ 32 \<le> unat page * n" and "unat page * n mod 2 ^ 32 + n < 2 ^ 32"
    and "unat page * n mod 2 ^ 32 < length (waiting_rooms s)"
  shows "\<exists>page_rooms. handleRoomListRequest E page page_size sid s =
      session_send E (RoomListResponse page_rooms (of_nat (length (waiting_rooms s)))) sid s \<and>
    page_rooms = map toRoomSummary (take n (drop (unat page * n mod 2 ^ 32) (waiting_rooms s))) \<and>
    page_rooms \<noteq> [] \<and> drop (unat page * n) (waiting_rooms s) = []"
proof -
  let ?n = "let n = (if page_size = 0 then 20 else page_size) in if n > 100 then 100 else n"
  have n': "unat ?n = n" by (auto simp: n Let_def min_def word_less_nat_alt)
  have "length (waiting_rooms s) \<le> length (m_rooms s)"
    unfolding waiting_rooms_def using length_filter_le [of _ "map snd (m_rooms s)"] by simp
  then have short: "length (waiting_rooms s) < 2 ^ 32" using assms(1) by simp
  have page: "room_list_page page ?n (waiting_rooms s) =
      map toRoomSummary (take n (drop (unat page * n mod 2 ^ 32) (waiting_rooms s)))"
    using room_list_page_wraps [OF short, of page ?n] assms(4) by (simp only: n')
  have "0 < n" using n by (auto simp: min_def unat_gt_0)
  then have "take n (drop (unat page * n mod 2 ^ 32) (waiting_rooms s)) \<noteq> []" using assms(5) by simp
  moreover have "drop (unat page * n) (waiting_rooms s) = []" using short assms(3) by simp
  moreover have "handleRoomListRequest E page page_size sid s =
      session_send E (RoomListResponse (room_list_page page ?n (waiting_rooms s))
        (of_nat (length (waiting_rooms s)))) sid s"
    by (simp add: handleRoomListRequest_def Let_def)
  ultimately show ?thesis unfolding page by (metis map_is_Nil_conv)
qed

theorem room_list_offset_wraps_witness:
  "\<exists>page_rooms. handleRoomListRequest demo_env 0x10000000 16 1 (rp_server demo_lobby) =
     session_send demo_env (RoomListResponse page_rooms 1) 1 (rp_server demo_lobby) \<and> page_rooms \<noteq> []"
proof -
  have "length (waiting_rooms (rp_server demo_lobby)) = 1" by (rule demo_lobby_waiting)
  then show ?thesis
    using room_list_offset_wraps [of "rp_server demo_lobby" 16 16 "0x10000000" demo_env 1]
    by (auto simp: demo_lobby_state)
qed

end
