(* ===== verification/RoomRefinement.thy ===== *)
theory RoomRefinement
  imports RoomSpec
begin

text \<open>
  The room manager implements its specification: the abstraction of its tables, and for each
  handler the command it carries out.
\<close>

section \<open>The abstraction\<close>

definition abs_member :: "string \<Rightarrow> player_data \<Rightarrow> spec_member" where
  "abs_member rid x = \<lparr>sm_room = rid, sm_name = pd_player_name x, sm_ready = pd_is_ready x, sm_host = pd_is_host x\<rparr>"

definition room_member :: "room \<Rightarrow> string \<Rightarrow> player_data option" where
  "room_member r p = find (\<lambda>x. pd_player_id x = p) (r_players r)"

definition abs_room :: "room \<Rightarrow> spec_room" where
  "abs_room r = \<lparr>sr_name = r_room_name r, sr_host = r_host_id r, sr_capacity = r_max_players r,
     sr_game = (if r_state r = ROOM_IN_GAME then Some (r_session_id r) else None)\<rparr>"

definition tables_abs :: "(string, room) umap \<Rightarrow> (string, string) umap \<Rightarrow> room_spec" where
  "tables_abs rooms p2r =
     \<lparr>rs_members = (\<lambda>p. case umap_find p2r p of None \<Rightarrow> None
        | Some rid \<Rightarrow> (case umap_find rooms rid of None \<Rightarrow> None
            | Some r \<Rightarrow> map_option (abs_member rid) (room_member r p))),
      rs_rooms = (\<lambda>rid. map_option abs_room (umap_find rooms rid))\<rparr>"

definition room_abs :: "'r room_server \<Rightarrow> room_spec" where
  "room_abs s = tables_abs (m_rooms s) (m_player_to_room s)"

lemma tables_abs_sel:
  "rs_members (tables_abs rooms p2r) p = (case umap_find p2r p of None \<Rightarrow> None
        | Some rid \<Rightarrow> (case umap_find rooms rid of None \<Rightarrow> None
            | Some r \<Rightarrow> map_option (abs_member rid) (room_member r p)))"
  "rs_rooms (tables_abs rooms p2r) rid = map_option abs_room (umap_find rooms rid)"
  by (simp_all add: tables_abs_def)

lemma abs_member_sel [simp]:
  "sm_room (abs_member rid x) = rid" "sm_name (abs_member rid x) = pd_player_name x"
  "sm_ready (abs_member rid x) = pd_is_ready x" "sm_host (abs_member rid x) = pd_is_host x"
  by (simp_all add: abs_member_def)

lemma abs_room_sel [simp]:
  "sr_name (abs_room r) = r_room_name r" "sr_host (abs_room r) = r_host_id r"
  "sr_capacity (abs_room r) = r_max_players r"
  "sr_game (abs_room r) = (if r_state r = ROOM_IN_GAME then Some (r_session_id r) else None)"
  by (simp_all add: abs_room_def)

text \<open>One room.\<close>

lemma find_none_iff: "find (\<lambda>x. f x = p) xs = None \<longleftrightarrow> p \<notin> f ` set xs"
  by (induction xs) auto

lemma find_distinct:
  assumes "distinct (map f xs)"
  shows "find (\<lambda>x. f x = p) xs = Some x \<longleftrightarrow> x \<in> set xs \<and> f x = p"
  using assms by (induction xs) auto

lemma find_app: "find P (xs @ ys) = (case find P xs of None \<Rightarrow> find P ys | Some x \<Rightarrow> Some x)"
  by (induction xs) auto

lemma room_member_none: "room_member r p = None \<longleftrightarrow> p \<notin> set (playerIds r)"
  by (simp add: room_member_def playerIds_def find_none_iff)

lemma room_member_some:
  "room_wf r \<Longrightarrow> room_member r p = Some x \<longleftrightarrow> x \<in> set (r_players r) \<and> pd_player_id x = p"
  by (simp add: room_member_def room_wf_def playerIds_def find_distinct)

lemma room_member_new: "room_member (Room_new rid n p pn mp) q =
    (if q = p then Some \<lparr>pd_player_id = p, pd_player_name = pn, pd_is_ready = False, pd_is_host = True\<rparr> else None)"
  by (simp add: room_member_def Room_new_def)

lemma room_member_add:
  assumes "\<not> isFull r" and "p \<notin> set (playerIds r)" and "r_state r = ROOM_WAITING"
  shows "room_member (snd (addPlayer p n r)) q =
    (if q = p then Some \<lparr>pd_player_id = p, pd_player_name = n, pd_is_ready = False, pd_is_host = False\<rparr>
     else room_member r q)"
proof -
  have "find (\<lambda>x. pd_player_id x = p) (r_players r) = None"
    using assms(2) by (simp add: find_none_iff playerIds_def)
  with assms show ?thesis
    by (simp add: addPlayer_def room_member_def find_app split: option.split)
qed

lemma find_erase_player:
  assumes "distinct (map pd_player_id xs)"
  shows "find (\<lambda>x. pd_player_id x = q) (erase_player p xs) =
    (if q = p then None else find (\<lambda>x. pd_player_id x = q) xs)"
  using assms by (induction xs) (auto simp: find_none_iff)

lemma find_flip:
  "find (\<lambda>x. pd_player_id x = q) (flip_ready p xs) =
    map_option (\<lambda>x. if q = p then x\<lparr>pd_is_ready := \<not> pd_is_ready x\<rparr> else x) (find (\<lambda>x. pd_player_id x = q) xs)"
  by (induction xs) (auto simp: option.map_ident)

lemma room_member_remove:
  "room_wf r \<Longrightarrow> room_member (snd (removePlayer p r)) q = (if q = p then None else room_member r q)"
proof (cases "p \<in> set (playerIds r)")
  case True
  assume "room_wf r"
  with True show ?thesis
    by (simp add: removePlayer_def room_member_def room_wf_def playerIds_def find_erase_player)
qed (simp add: removePlayer_def room_member_none)

lemma room_member_toggle:
  "room_member (toggleReady p r) q = (if p = r_host_id r then room_member r q else
    map_option (\<lambda>x. if q = p then x\<lparr>pd_is_ready := \<not> pd_is_ready x\<rparr> else x) (room_member r q))"
  by (simp add: toggleReady_def room_member_def find_flip)

lemma room_member_set [simp]:
  "room_member (setSessionId i (setState st r)) = room_member r"
  by (simp add: fun_eq_iff room_member_def setSessionId_def setState_def)

lemma abs_room_fields [simp]:
  "abs_room (snd (addPlayer p n r)) = abs_room r"
  "abs_room (snd (removePlayer p r)) = abs_room r"
  "abs_room (toggleReady p r) = abs_room r"
  "abs_room (Room_new rid n p pn mp) = \<lparr>sr_name = n, sr_host = p, sr_capacity = mp, sr_game = None\<rparr>"
  "abs_room (setSessionId i (setState ROOM_IN_GAME r)) = (abs_room r)\<lparr>sr_game := Some i\<rparr>"
  by (simp_all add: abs_room_def addPlayer_def removePlayer_def toggleReady_def Room_new_def
      setSessionId_def setState_def)

text \<open>The tables of a consistent state.\<close>

lemma abs_member_iff:
  assumes inv: "rooms_inv E g rooms p2r"
  shows "rs_members (tables_abs rooms p2r) p = Some m \<longleftrightarrow>
    (\<exists>rid r x. umap_find rooms rid = Some r \<and> x \<in> set (r_players r) \<and> pd_player_id x = p \<and> m = abs_member rid x)"
proof
  assume "rs_members (tables_abs rooms p2r) p = Some m"
  then obtain rid r x where "umap_find rooms rid = Some r" "room_member r p = Some x" "m = abs_member rid x"
    by (auto simp: tables_abs_sel split: option.splits)
  moreover from this have "room_wf r" using rooms_invD(4) [OF inv] by (auto simp: room_ok_def)
  ultimately show "\<exists>rid r x. umap_find rooms rid = Some r \<and> x \<in> set (r_players r) \<and> pd_player_id x = p \<and> m = abs_member rid x"
    using room_member_some by blast
next
  assume "\<exists>rid r x. umap_find rooms rid = Some r \<and> x \<in> set (r_players r) \<and> pd_player_id x = p \<and> m = abs_member rid x"
  then obtain rid r x where r: "umap_find rooms rid = Some r" "x \<in> set (r_players r)" "pd_player_id x = p"
    and m: "m = abs_member rid x" by blast
  then have "room_member r p = Some x"
    using rooms_invD(4) [OF inv] room_member_some by (auto simp: room_ok_def)
  moreover have "umap_find p2r p = Some rid"
    using index_memberD [OF rooms_invD(3) [OF inv] r(1)] r(2,3) by (auto simp: playerIds_def)
  ultimately show "rs_members (tables_abs rooms p2r) p = Some m" using r m by (simp add: tables_abs_sel)
qed

lemma abs_member_None:
  assumes "index_ok rooms p2r"
  shows "rs_members (tables_abs rooms p2r) p = None \<longleftrightarrow> umap_find p2r p = None"
proof (cases "umap_find p2r p")
  case (Some rid)
  from index_roomD [OF assms Some] obtain r where "umap_find rooms rid = Some r" "p \<in> set (playerIds r)" .
  with Some room_member_none [of r p] show ?thesis by (simp add: tables_abs_sel)
qed (simp add: tables_abs_sel)

lemma abs_memberE:
  assumes inv: "rooms_inv E g rooms p2r" and "umap_find p2r p = Some rid"
  obtains r x where "umap_find rooms rid = Some r" and "room_member r p = Some x"
    and "rs_members (tables_abs rooms p2r) p = Some (abs_member rid x)" and "room_wf r"
proof -
  from index_roomD [OF rooms_invD(3) [OF inv] assms(2)] obtain r where
    r: "umap_find rooms rid = Some r" "p \<in> set (playerIds r)" .
  moreover from r(2) obtain x where "room_member r p = Some x"
    using room_member_none [of r p] by fastforce
  moreover have "room_wf r" using rooms_invD(4) [OF inv r(1)] by (simp add: room_ok_def)
  ultimately show ?thesis using that assms(2) by (simp add: tables_abs_sel)
qed

lemma players_in_abs:
  assumes inv: "rooms_inv E g rooms p2r" and "umap_find rooms rid = Some r"
  shows "players_in (tables_abs rooms p2r) rid = set (playerIds r)"
  using assms(2) by (auto simp: players_in_def abs_member_iff [OF inv] playerIds_def) (metis abs_member_sel(1))

lemma card_players_abs:
  assumes inv: "rooms_inv E g rooms p2r" and "umap_find rooms rid = Some r"
  shows "card (players_in (tables_abs rooms p2r) rid) = length (r_players r)"
proof -
  have "distinct (playerIds r)" using rooms_invD(4) [OF assms] by (simp add: room_ok_def room_wf_def)
  then show ?thesis by (simp add: players_in_abs [OF assms] distinct_card length_playerIds)
qed

lemma card_rooms_abs: "umap_ok rooms \<Longrightarrow> card (dom (rs_rooms (tables_abs rooms p2r))) = length rooms"
proof -
  assume "umap_ok rooms"
  moreover have "dom (rs_rooms (tables_abs rooms p2r)) = fst ` set rooms"
    using umap_contains_iff [of rooms] by (auto simp: tables_abs_sel umap_contains_def dom_def)
  ultimately show ?thesis by (simp add: umap_ok_def distinct_card flip: set_map)
qed

lemma game_running_abs:
  assumes "umap_ok rooms"
  shows "game_running (tables_abs rooms p2r) \<longleftrightarrow> umap_count in_game rooms \<noteq> 0"
proof -
  have "umap_count in_game rooms \<noteq> 0 \<longleftrightarrow> (\<exists>rid r. umap_find rooms rid = Some r \<and> in_game r)"
    by (auto simp: umap_count_zero_iff set_umap_iff [OF assms])
  also have "\<dots> \<longleftrightarrow> (\<exists>rid r. umap_find rooms rid = Some r \<and> sr_game (abs_room r) \<noteq> None)"
    by (simp split: if_split) blast
  finally show ?thesis by (auto simp only: game_running_def tables_abs_sel option.map map_option_eq_Some)
qed

lemma all_prepared_abs:
  assumes inv: "rooms_inv E g rooms p2r" and "umap_find rooms rid = Some r"
  shows "all_prepared (tables_abs rooms p2r) rid \<longleftrightarrow> canStart r"
proof -
  have "all_prepared (tables_abs rooms p2r) rid \<longleftrightarrow>
      (\<forall>x \<in> set (r_players r). sm_host (abs_member rid x) \<or> sm_ready (abs_member rid x))"
    using assms(2) unfolding all_prepared_def abs_member_iff [OF inv] by fastforce
  then show ?thesis by (simp add: canStart_def all_ready_iff)
qed

section \<open>Changes of the tables\<close>

lemma tables_open:
  assumes idx: "index_ok rooms p2r" and new: "umap_find rooms rid = None"
  shows "tables_abs (umap_put rid (Room_new rid n p pn cap) rooms) (umap_put p rid p2r) =
    \<lparr>rs_members = (rs_members (tables_abs rooms p2r))(p \<mapsto>
        \<lparr>sm_room = rid, sm_name = pn, sm_ready = False, sm_host = True\<rparr>),
     rs_rooms = (rs_rooms (tables_abs rooms p2r))(rid \<mapsto>
        \<lparr>sr_name = n, sr_host = p, sr_capacity = cap, sr_game = None\<rparr>)\<rparr>"
proof (rule room_specI)
  fix q
  have "umap_find p2r q \<noteq> Some rid" using idx new by (auto simp: index_ok_def)
  then show "rs_members (tables_abs (umap_put rid (Room_new rid n p pn cap) rooms) (umap_put p rid p2r)) q =
      rs_members \<lparr>rs_members = (rs_members (tables_abs rooms p2r))(p \<mapsto>
          \<lparr>sm_room = rid, sm_name = pn, sm_ready = False, sm_host = True\<rparr>),
        rs_rooms = (rs_rooms (tables_abs rooms p2r))(rid \<mapsto>
          \<lparr>sr_name = n, sr_host = p, sr_capacity = cap, sr_game = None\<rparr>)\<rparr> q"
    by (simp add: tables_abs_sel room_member_new abs_member_def split: option.split)
qed (simp add: tables_abs_sel)

lemma tables_enter:
  assumes idx: "index_ok rooms p2r" and r: "umap_find rooms rid = Some r"
    and "umap_find p2r p = None" "r_state r = ROOM_WAITING" "\<not> isFull r"
  shows "tables_abs (umap_put rid (snd (addPlayer p pn r)) rooms) (umap_put p rid p2r) =
    (tables_abs rooms p2r)\<lparr>rs_members := (rs_members (tables_abs rooms p2r))(p \<mapsto>
      \<lparr>sm_room = rid, sm_name = pn, sm_ready = False, sm_host = False\<rparr>)\<rparr>"
proof -
  have "p \<notin> set (playerIds r)" using index_memberD [OF idx r] assms(3) by auto
  note add = room_member_add [OF assms(5) this assms(4)]
  show ?thesis
    by (rule room_specI) (simp_all add: tables_abs_sel add r abs_member_def split: option.split)
qed

lemma tables_remove:
  assumes "room_wf r" and "umap_find rooms rid = Some r"
  shows "tables_abs (umap_put rid (snd (removePlayer p r)) rooms) (umap_erase p p2r) =
    drop_member p (tables_abs rooms p2r)"
  by (rule room_specI) (simp_all add: tables_abs_sel room_member_remove assms split: option.split)

lemma tables_close:
  assumes idx: "index_ok rooms p2r" and r: "umap_find rooms rid = Some r"
    and ps: "set ps = set (playerIds r)"
  shows "tables_abs (umap_erase rid rooms) (fold umap_erase ps p2r) = drop_rooms {rid} (tables_abs rooms p2r)"
proof (rule room_specI)
  fix q
  have "q \<in> set ps \<longleftrightarrow> umap_find p2r q = Some rid"
    using ps index_memberD [OF idx r, of q] index_roomD [OF idx, of q rid] r by fastforce
  then show "rs_members (tables_abs (umap_erase rid rooms) (fold umap_erase ps p2r)) q =
      rs_members (drop_rooms {rid} (tables_abs rooms p2r)) q"
    by (auto simp: tables_abs_sel find_fold_erase split: option.splits)
qed (simp add: tables_abs_sel)

lemma tables_toggle:
  assumes "umap_find rooms rid = Some r" and "umap_find p2r p = Some rid" and "room_member r p = Some x"
    and "p \<noteq> r_host_id r"
  shows "tables_abs (umap_put rid (toggleReady p r) rooms) p2r =
    (tables_abs rooms p2r)\<lparr>rs_members := (rs_members (tables_abs rooms p2r))(p \<mapsto>
      (abs_member rid x)\<lparr>sm_ready := \<not> sm_ready (abs_member rid x)\<rparr>)\<rparr>"
proof (rule room_specI)
  fix q
  show "rs_members (tables_abs (umap_put rid (toggleReady p r) rooms) p2r) q =
      rs_members ((tables_abs rooms p2r)\<lparr>rs_members := (rs_members (tables_abs rooms p2r))(p \<mapsto>
        (abs_member rid x)\<lparr>sm_ready := \<not> sm_ready (abs_member rid x)\<rparr>)\<rparr>) q"
    using assms by (simp add: tables_abs_sel room_member_toggle abs_member_def option.map_ident split: option.split)
qed (simp add: tables_abs_sel assms(1))

lemma tables_begin:
  assumes "umap_find rooms rid = Some r"
  shows "tables_abs (umap_put rid (setSessionId i (setState ROOM_IN_GAME r)) rooms) p2r =
    (tables_abs rooms p2r)\<lparr>rs_rooms := (rs_rooms (tables_abs rooms p2r))(rid \<mapsto> (abs_room r)\<lparr>sr_game := Some i\<rparr>)\<rparr>"
  by (rule room_specI) (simp_all add: tables_abs_sel assms split: option.split)

lemma drop_rooms_drop_member:
  assumes "rs_members a p = Some m" and "sm_room m \<in> R"
  shows "drop_rooms R (drop_member p a) = drop_rooms R a"
  by (rule room_specI) (simp_all add: assms)

lemma drop_rooms_compose: "drop_rooms R (drop_rooms R' a) = drop_rooms (R \<union> R') a"
  by (rule room_specI) (auto split: option.split)

section \<open>Handlers\<close>

abbreviation lobby_cmd :: "'r room_env \<Rightarrow> room_command \<Rightarrow> room_spec \<Rightarrow> room_spec" where
  "lobby_cmd E \<equiv> lobby_exec (e_max_rooms E) (e_max_players_per_room E)"

abbreviation consistent :: "'r room_env \<Rightarrow> 'r room_server \<Rightarrow> bool" where
  "consistent E s \<equiv> rooms_inv E (m_rng s) (m_rooms s) (m_player_to_room s)"

text \<open>The two tests on the session that create and join make before they look at the rooms.\<close>

definition admitted :: "string \<Rightarrow> nat \<Rightarrow> 'r room_server \<Rightarrow> bool" where
  "admitted p sid s \<longleftrightarrow> \<not> duplicate_player p sid s \<and>
     (session_playerId sid s = [] \<or> session_playerId sid s = p)"

lemma room_abs_frame [simp]:
  "room_abs (session_send E e sid s) = room_abs s"
  "room_abs (sendTo E p e s) = room_abs s"
  "room_abs (sendRejectTo E sid reason msg s) = room_abs s"
  "room_abs (broadcastToRoom E room e s) = room_abs s"
  "room_abs (broadcastToRoom_except E room e p s) = room_abs s"
  "room_abs (notifyRoomListChanged s) = room_abs s"
  "room_abs (addLobbySession sid s) = room_abs s"
  "room_abs (removeLobbySession sid s) = room_abs s"
  "room_abs (registerSession p sid s) = room_abs s"
  "room_abs (unregisterSession p s) = room_abs s"
  "room_abs (set_session_player p sid s) = room_abs s"
  "room_abs (end_session E i s) = room_abs s"
  "room_abs (handleRoomListRequest E pg n sid s) = room_abs s"
  by (simp_all add: room_abs_def addLobbySession_def removeLobbySession_def
      registerSession_def unregisterSession_def handleRoomListRequest_def Let_def)

lemma create_rng:
  "m_rng (handleCreateRoom E p pn n cap sid s) =
     (if \<not> admitted p sid s \<or> umap_contains (m_player_to_room s) p \<or>
         length (m_rooms s) \<ge> unat (e_max_rooms E) \<or> cap < 1 \<or> cap > e_max_players_per_room E
      then m_rng s else snd (generateUuid (m_rng s)))"
  by (auto simp: handleCreateRoom_def admitted_def Let_def case_prod_beta registerSession_def
      removeLobbySession_def)

lemma create_refines:
  assumes inv: "consistent E s" and fresh: "uuids_fresh (m_rng (handleCreateRoom E p pn n cap sid s))"
  shows "room_abs (handleCreateRoom E p pn n cap sid s) =
    (if admitted p sid s then lobby_cmd E (Open_room (fst (generateUuid (m_rng s))) p pn n cap) (room_abs s)
     else room_abs s)"
proof -
  let ?u = "fst (generateUuid (m_rng s))"
  let ?refused = "umap_contains (m_player_to_room s) p \<or> length (m_rooms s) \<ge> unat (e_max_rooms E) \<or>
    cap < 1 \<or> cap > e_max_players_per_room E"
  have refused: "rs_members (room_abs s) p \<noteq> None \<or> card (dom (rs_rooms (room_abs s))) \<ge> unat (e_max_rooms E) \<or>
      cap < 1 \<or> cap > e_max_players_per_room E \<longleftrightarrow> ?refused"
    using abs_member_None [OF rooms_invD(3) [OF inv], of p] card_rooms_abs [OF rooms_invD(1) [OF inv]]
    by (simp add: room_abs_def umap_contains_def)
  show ?thesis
  proof (cases "admitted p sid s \<and> \<not> ?refused")
    case True
    then have "uuids_fresh (snd (generateUuid (m_rng s)))" using fresh by (simp add: create_rng)
    then have "?u \<notin> set (issued (m_rng s))" by (simp add: uuids_fresh_def issued_generateUuid)
    then have "umap_find (m_rooms s) ?u = None"
      using rooms_invD(4) [OF inv, of ?u] by (cases "umap_find (m_rooms s) ?u") (auto simp: room_ok_def)
    note new = tables_open [OF rooms_invD(3) [OF inv] this, of n p pn cap]
    have "room_abs (handleCreateRoom E p pn n cap sid s) =
      tables_abs (umap_put ?u (Room_new ?u n p pn cap) (m_rooms s)) (umap_put p ?u (m_player_to_room s))"
      using True by (simp add: handleCreateRoom_def admitted_def Let_def case_prod_beta)
        (auto simp: room_abs_def)
    with True refused show ?thesis unfolding new by (simp add: room_abs_def)
  next
    case False
    then have "room_abs (handleCreateRoom E p pn n cap sid s) = room_abs s"
      by (auto simp: handleCreateRoom_def admitted_def)
    with False refused show ?thesis by auto
  qed
qed

lemma join_refines:
  assumes inv: "consistent E s"
  shows "room_abs (handleJoinRoom E p pn rid sid s) =
    (if admitted p sid s then lobby_cmd E (Enter_room p pn rid) (room_abs s) else room_abs s)"
proof (cases "umap_find (m_rooms s) rid")
  case None
  then show ?thesis by (simp add: handleJoinRoom_def room_abs_def tables_abs_sel)
next
  case (Some r)
  let ?refused = "umap_contains (m_player_to_room s) p \<or> r_state r \<noteq> ROOM_WAITING \<or> isFull r"
  have spec: "lobby_cmd E (Enter_room p pn rid) (room_abs s) =
      (if ?refused then room_abs s else (room_abs s)\<lparr>rs_members := (rs_members (room_abs s))(p \<mapsto>
        \<lparr>sm_room = rid, sm_name = pn, sm_ready = False, sm_host = False\<rparr>)\<rparr>)"
    using abs_member_None [OF rooms_invD(3) [OF inv], of p] card_players_abs [OF inv Some] Some
    by (cases "r_state r") (auto simp: room_abs_def tables_abs_sel umap_contains_def isFull_def)
  show ?thesis
  proof (cases "admitted p sid s \<and> \<not> ?refused")
    case True
    then have "room_abs (handleJoinRoom E p pn rid sid s) =
      tables_abs (umap_put rid (snd (addPlayer p pn r)) (m_rooms s)) (umap_put p rid (m_player_to_room s))"
      using Some by (simp add: handleJoinRoom_def admitted_def Let_def) (auto simp: room_abs_def)
    with True spec tables_enter [OF rooms_invD(3) [OF inv] Some, of p pn] show ?thesis
      by (simp add: umap_contains_def) (simp add: room_abs_def)
  next
    case False
    then have "room_abs (handleJoinRoom E p pn rid sid s) = room_abs s"
      using Some by (auto simp: handleJoinRoom_def admitted_def)
    with False spec show ?thesis by auto
  qed
qed

lemma toggle_refines:
  assumes inv: "consistent E s"
  shows "room_abs (handleToggleReady E p s) = lobby_cmd E (Flip_ready p) (room_abs s)"
proof (cases "umap_find (m_player_to_room s) p")
  case None
  then show ?thesis by (simp add: handleToggleReady_def room_abs_def tables_abs_sel)
next
  case (Some rid)
  from abs_memberE [OF inv Some] obtain r x where r: "umap_find (m_rooms s) rid = Some r"
    "room_member r p = Some x" "rs_members (tables_abs (m_rooms s) (m_player_to_room s)) p = Some (abs_member rid x)" .
  with Some tables_toggle [OF r(1) Some r(2)] show ?thesis
    by (auto simp: handleToggleReady_def isHost_def Let_def room_abs_def tables_abs_sel)
qed

lemma leave_refines:
  assumes inv: "consistent E s"
  shows "room_abs (handleLeaveRoom E p s) = lobby_cmd E (Leave_room p) (room_abs s)"
proof (cases "umap_find (m_player_to_room s) p")
  case None
  then show ?thesis by (simp add: leave_nothing room_abs_def tables_abs_sel)
next
  case (Some rid)
  from abs_memberE [OF inv Some] obtain r x where r: "umap_find (m_rooms s) rid = Some r"
    and m: "rs_members (tables_abs (m_rooms s) (m_player_to_room s)) p = Some (abs_member rid x)"
    and wf: "room_wf r" .
  note left = rooms_inv_leave [OF inv r Some]
  have "tables_abs (umap_erase rid (umap_put rid (snd (removePlayer p r)) (m_rooms s)))
      (fold umap_erase (remove1 p (playerIds r)) (umap_erase p (m_player_to_room s))) =
    drop_rooms {rid} (tables_abs (m_rooms s) (m_player_to_room s))"
    using tables_close [OF rooms_invD(3) [OF left], of rid "snd (removePlayer p r)" "remove1 p (playerIds r)"]
      drop_rooms_drop_member [OF m, of "{rid}"] by (simp add: tables_remove [OF wf r])
  with tables_remove [OF wf r, of p "m_player_to_room s"] m r show ?thesis
    by (auto simp: room_abs_def leave_parts [OF Some r] isHost_def tables_abs_sel)
qed

lemma disconnect_refines: "consistent E s \<Longrightarrow>
    room_abs (handleDisconnect E p s) = lobby_cmd E (Leave_room p) (room_abs s)"
  by (simp add: handleDisconnect_def leave_refines)

lemma start_refines:
  assumes inv: "consistent E s"
  shows "room_abs (handleStartGame E p s) =
    lobby_cmd E (Begin_game p (fst (generateUuid (m_rng s)))) (room_abs s)"
proof (cases "umap_find (m_player_to_room s) p")
  case None
  then show ?thesis by (simp add: handleStartGame_def room_abs_def tables_abs_sel)
next
  case (Some rid)
  let ?i = "fst (generateUuid (m_rng s))"
  from abs_memberE [OF inv Some] obtain r x where r: "umap_find (m_rooms s) rid = Some r"
    and m: "rs_members (tables_abs (m_rooms s) (m_player_to_room s)) p = Some (abs_member rid x)" .
  have spec: "lobby_cmd E (Begin_game p ?i) (room_abs s) =
      (if \<not> isHost p r \<or> hasActiveGame s \<or> \<not> canStart r then room_abs s
       else (room_abs s)\<lparr>rs_rooms := (rs_rooms (room_abs s))(rid \<mapsto> (abs_room r)\<lparr>sr_game := Some ?i\<rparr>)\<rparr>)"
    using m r game_running_abs [OF rooms_invD(1) [OF inv]] all_prepared_abs [OF inv r]
    by (auto simp: room_abs_def tables_abs_sel hasActiveGame_iff isHost_def)
  show ?thesis
  proof (cases "\<not> isHost p r \<or> hasActiveGame s \<or> \<not> canStart r")
    case True
    then have "room_abs (handleStartGame E p s) = room_abs s"
      using Some r by (auto simp: handleStartGame_def)
    with spec True show ?thesis by simp
  next
    case False
    then have "room_abs (handleStartGame E p s) =
      tables_abs (umap_put rid (setSessionId ?i (setState ROOM_IN_GAME r)) (m_rooms s)) (m_player_to_room s)"
      using Some r by (simp add: handleStartGame_def Let_def case_prod_beta) (simp add: room_abs_def)
    with spec False tables_begin [OF r] show ?thesis by (simp add: room_abs_def)
  qed
qed

lemma slot_refines:
  assumes inv: "consistent E s"
  shows "room_abs (handleSlotReleased E p i s) = lobby_cmd E (Free_slot p i) (room_abs s)"
proof (cases "umap_find (m_player_to_room s) p")
  case None
  then show ?thesis by (simp add: handleSlotReleased_def room_abs_def tables_abs_sel)
next
  case (Some rid)
  from abs_memberE [OF inv Some] obtain r x where r: "umap_find (m_rooms s) rid = Some r"
    and x: "room_member r p = Some x"
    and m: "rs_members (tables_abs (m_rooms s) (m_player_to_room s)) p = Some (abs_member rid x)"
    and wf: "room_wf r" .
  let ?r = "snd (removePlayer p r)"
  let ?put = "umap_put rid ?r (m_rooms s)" and ?p2r = "umap_erase p (m_player_to_room s)"
  note left = rooms_inv_leave [OF inv r Some] and removed = tables_remove [OF wf r, of p]
  have other: "i \<noteq> [] \<and> r_session_id r \<noteq> i \<longleftrightarrow>
      i \<noteq> [] \<and> map_option sr_game (rs_rooms (room_abs s) rid) \<noteq> Some (Some i)"
    using wf r by (auto simp: room_abs_def tables_abs_sel room_wf_def)
  have last: "playerCount ?r = 0 \<longleftrightarrow> players_in (room_abs s) rid = {p}"
  proof -
    have "p \<in> set (playerIds r)" using x room_member_none [of r p] by fastforce
    moreover have "set (playerIds ?r) = set (playerIds r) - {p}"
      using wf by (simp add: room_wf_def set_remove1_eq)
    moreover have "playerCount ?r = 0 \<longleftrightarrow> set (playerIds ?r) = {}"
      using playerCount_zero_iff [OF removePlayer_wf [OF wf], of p] by (simp del: playerIds_removePlayer)
    ultimately show ?thesis using players_in_abs [OF inv r] by (auto simp: room_abs_def)
  qed
  have closed: "tables_abs (umap_erase rid ?put) ?p2r = drop_rooms {rid} (tables_abs (m_rooms s) (m_player_to_room s))"
    if "playerCount ?r = 0"
    using tables_close [OF rooms_invD(3) [OF left], of rid ?r "[]"] that removed
      playerCount_zero_iff [OF removePlayer_wf [OF wf], of p] drop_rooms_drop_member [OF m, of "{rid}"]
    by simp
  have "room_abs (handleSlotReleased E p i s) =
      (if i \<noteq> [] \<and> r_session_id r \<noteq> i then room_abs s
       else if playerCount ?r = 0 then tables_abs (umap_erase rid ?put) ?p2r else tables_abs ?put ?p2r)"
    using Some r by (simp add: handleSlotReleased_def Let_def room_abs_def)
  also have "\<dots> = lobby_cmd E (Free_slot p i) (room_abs s)"
    using other last closed removed m by (simp add: room_abs_def) auto
  finally show ?thesis .
qed

lemma close_games_refines:
  assumes "consistent E s"
  shows "room_abs (fold (close_game_room E) ids s) = drop_rooms (set ids) (room_abs s)"
  using assms
proof (induction ids arbitrary: s)
  case Nil
  show ?case by (rule room_specI) (simp_all split: option.split)
next
  case (Cons rid ids)
  have "room_abs (close_game_room E rid s) = drop_rooms {rid} (room_abs s) \<and> consistent E (close_game_room E rid s)"
  proof (cases "umap_find (m_rooms s) rid")
    case None
    then have "rs_members (room_abs s) q = Some m \<Longrightarrow> sm_room m \<noteq> rid" for q m
      using abs_member_iff [OF Cons.prems] by (auto simp: room_abs_def)
    then have "drop_rooms {rid} (room_abs s) = room_abs s"
      by (intro room_specI) (auto simp: room_abs_def tables_abs_sel(2) None split: option.split)
    with None Cons.prems show ?thesis by (simp add: close_game_room_def)
  next
    case (Some r)
    then show ?thesis
      using tables_close [OF rooms_invD(3) [OF Cons.prems] Some refl] rooms_inv_erase [OF Cons.prems Some refl]
      by (simp add: room_abs_def close_game_room_parts)
  qed
  with Cons.IH show ?case by (simp add: drop_rooms_compose insert_absorb Un_commute)
qed

lemma game_disconnect_refines:
  assumes inv: "consistent E s"
  shows "room_abs (handleGameServerDisconnect E s) = lobby_cmd E Lose_games (room_abs s)"
proof -
  have "set (map fst (filter (\<lambda>(_, room). in_game room) (m_rooms s))) =
      {rid. \<exists>r. rs_rooms (room_abs s) rid = Some r \<and> sr_game r \<noteq> None}"
    using set_umap_iff [OF rooms_invD(1) [OF inv]]
    by (force simp: room_abs_def tables_abs_sel split: if_splits)
  then show ?thesis by (simp add: handleGameServerDisconnect_def close_games_refines [OF inv])
qed

end
