(* ===== verification/RoomService.thy ===== *)
theory RoomService
  imports RoomRefinement
begin

text \<open>
  The contract of the room manager with its callers: whatever serves requests, as long as the
  generator has not repeated an identifier, has the effect of the commands it gives. The
  contract holds of the manager's handlers, of the messages of a client session and of those
  of a game server session. Runs of the server are labelled with the commands that happen in them,
  and are runs of the specification.
\<close>

section \<open>The contract\<close>

primrec trace :: "('q \<Rightarrow> 's \<Rightarrow> 's) \<Rightarrow> ('q \<Rightarrow> 's \<Rightarrow> 'c list) \<Rightarrow> 'q list \<Rightarrow> 's \<Rightarrow> 'c list" where
  "trace serve commands [] s = []"
| "trace serve commands (q # qs) s = commands q s @ trace serve commands qs (serve q s)"

locale room_service =
  fixes serve :: "'q \<Rightarrow> 's \<Rightarrow> 's" and commands :: "'q \<Rightarrow> 's \<Rightarrow> room_command list"
    and exec :: "room_command \<Rightarrow> room_spec \<Rightarrow> room_spec" and abs :: "'s \<Rightarrow> room_spec"
    and ok :: "'s \<Rightarrow> bool" and fresh :: "'s \<Rightarrow> bool"
  assumes ok_serve: "ok s \<Longrightarrow> ok (serve q s)"
    and fresh_serve: "fresh (serve q s) \<Longrightarrow> fresh s"
    and serve_refines: "ok s \<Longrightarrow> fresh (serve q s) \<Longrightarrow> abs (serve q s) = fold exec (commands q s) (abs s)"
begin

lemma ok_serves: "ok s \<Longrightarrow> ok (fold serve qs s)"
  by (rule fold_keeps [where P = ok, OF ok_serve])

lemma fresh_serves: "fresh (fold serve qs s) \<Longrightarrow> fresh s"
  by (induction qs arbitrary: s) (auto dest: fresh_serve)

lemma serves_refine:
  "ok s \<Longrightarrow> fresh (fold serve qs s) \<Longrightarrow>
   abs (fold serve qs s) = fold exec (trace serve commands qs s) (abs s)"
proof (induction qs arbitrary: s)
  case (Cons q qs)
  then have "fresh (serve q s)" using fresh_serves by simp
  with Cons show ?case by (simp add: ok_serve serve_refines)
qed simp

end

section \<open>The handlers of the manager\<close>

datatype room_request =
    Create_request string string string u32 nat  \<comment> \<open>player, name, room's name, capacity, session\<close>
  | Join_request string string string nat  \<comment> \<open>player, name, room, session\<close>
  | Leave_request string
  | Ready_request string
  | Start_request string
  | Release_request string string  \<comment> \<open>player, session\<close>
  | Server_lost

fun room_serve :: "'r room_env \<Rightarrow> room_request \<Rightarrow> 'r room_server \<Rightarrow> 'r room_server" where
  "room_serve E (Create_request p pn n cap sid) s = handleCreateRoom E p pn n cap sid s"
| "room_serve E (Join_request p pn rid sid) s = handleJoinRoom E p pn rid sid s"
| "room_serve E (Leave_request p) s = handleLeaveRoom E p s"
| "room_serve E (Ready_request p) s = handleToggleReady E p s"
| "room_serve E (Start_request p) s = handleStartGame E p s"
| "room_serve E (Release_request p i) s = handleSlotReleased E p i s"
| "room_serve E Server_lost s = handleGameServerDisconnect E s"

text \<open>The identifier of a new room or game is the one the generator yields next.\<close>

fun request_commands :: "room_request \<Rightarrow> 'r room_server \<Rightarrow> room_command list" where
  "request_commands (Create_request p pn n cap sid) s =
     (if admitted p sid s then [Open_room (fst (generateUuid (m_rng s))) p pn n cap] else [])"
| "request_commands (Join_request p pn rid sid) s =
     (if admitted p sid s then [Enter_room p pn rid] else [])"
| "request_commands (Leave_request p) s = [Leave_room p]"
| "request_commands (Ready_request p) s = [Flip_ready p]"
| "request_commands (Start_request p) s = [Begin_game p (fst (generateUuid (m_rng s)))]"
| "request_commands (Release_request p i) s = [Free_slot p i]"
| "request_commands Server_lost s = [Lose_games]"

lemma handler_rng [simp]:
  "m_rng (handleJoinRoom E p pn rid sid s) = m_rng s"
  "m_rng (handleToggleReady E p s) = m_rng s"
  "m_rng (handleDisconnect E p s) = m_rng s"
  "m_rng (handleSlotReleased E p i s) = m_rng s"
  "m_rng (handleGameServerDisconnect E s) = m_rng s"
  "m_rng (handleRoomListRequest E pg n sid s) = m_rng s"
  "m_rng (addLobbySession sid s) = m_rng s"
  "m_rng (removeLobbySession sid s) = m_rng s"
  by (simp_all add: handleJoinRoom_def handleToggleReady_def handleDisconnect_def handleSlotReleased_def
      handleGameServerDisconnect_def handleRoomListRequest_def registerSession_def unregisterSession_def
      removeLobbySession_def addLobbySession_def Let_def fold_frame split: option.split)

lemma rng_ext_create: "rng_ext (m_rng s) (m_rng (handleCreateRoom E p pn n cap sid s))"
  by (simp add: create_rng)

lemma rng_ext_start: "rng_ext (m_rng s) (m_rng (handleStartGame E p s))"
proof -
  have "rng_ext (m_rng s) (m_rng (fold (send_game_start E i) ps t))"
    if "m_rng t = snd (generateUuid (m_rng s))" for i ps t
    using that rng_ext_trans [OF rng_ext_generate [of "m_rng s"]] rng_ext_game_starts [of t] by simp
  then show ?thesis
    by (simp add: handleStartGame_def Let_def case_prod_beta split: option.split)
qed

lemma rng_ext_request: "rng_ext (m_rng s) (m_rng (room_serve E q s))"
  by (cases q) (simp_all add: rng_ext_create rng_ext_start)

lemma rooms_safe_request: "rooms_safe E s \<Longrightarrow> rooms_safe E (room_serve E q s)"
  by (cases q) (simp_all add: rooms_safe_handlers)

lemma consistent_before:
  assumes "rooms_safe E s" and "rng_ext (m_rng s) g" and "uuids_fresh g"
  shows "consistent E s"
  using assms rng_ext_fresh by (auto simp: rooms_safe_def)

lemma request_refines:
  assumes "rooms_safe E s" and "uuids_fresh (m_rng (room_serve E q s))"
  shows "room_abs (room_serve E q s) = fold (lobby_cmd E) (request_commands q s) (room_abs s)"
proof -
  note inv = consistent_before [OF assms(1) rng_ext_request assms(2)]
  show ?thesis
    using assms(2)
    by (cases q) (simp_all add: create_refines [OF inv] join_refines [OF inv] leave_refines [OF inv]
        toggle_refines [OF inv] start_refines [OF inv] slot_refines [OF inv] game_disconnect_refines [OF inv]
        del: lobby_exec.simps)
qed

interpretation manager: room_service "room_serve E" request_commands "lobby_cmd E" room_abs "rooms_safe E"
  "\<lambda>s. uuids_fresh (m_rng s)" for E :: "'r room_env"
  by unfold_locales (rule rooms_safe_request, assumption, rule rng_ext_fresh [OF rng_ext_request],
    assumption, rule request_refines)

section \<open>Client sessions\<close>

text \<open>What a message asks of the manager, and what it amounts to with the rate limiter in front
  of it: a client over its limit is disconnected.\<close>

definition player_requests :: "nat \<Rightarrow> envelope \<Rightarrow> 'r room_server \<Rightarrow> room_request list" where
  "player_requests sid m s =
     (case m of
        CreateRoom p pn n cap \<Rightarrow> [Create_request p pn n cap sid]
      | JoinRoom p pn rid \<Rightarrow> [Join_request p pn rid sid]
      | LeaveRoom \<Rightarrow> if session_playerId sid s \<noteq> [] then [Leave_request (session_playerId sid s)] else []
      | ToggleReady \<Rightarrow> if session_playerId sid s \<noteq> [] then [Ready_request (session_playerId sid s)] else []
      | StartGame \<Rightarrow> if session_playerId sid s \<noteq> [] then [Start_request (session_playerId sid s)] else []
      | _ \<Rightarrow> [])"

definition departure :: "nat \<Rightarrow> 'r room_server \<Rightarrow> room_command list" where
  "departure sid s =
     (if client_closed sid s \<or> session_playerId sid s = [] then [] else [Leave_room (session_playerId sid s)])"

definition over_limit :: "'r room_env \<Rightarrow> nat \<Rightarrow> 'r room_server \<Rightarrow> bool" where
  "over_limit E sid s =
     (case e_rate_limiter E of None \<Rightarrow> False
      | Some L \<Rightarrow> fst (allow L (session_remote_ip sid s) (m_redis s)) = Inr False)"

definition player_commands :: "'r room_env \<Rightarrow> nat \<Rightarrow> envelope \<Rightarrow> 'r room_server \<Rightarrow> room_command list" where
  "player_commands E sid m s =
     (if over_limit E sid s then departure sid s
      else concat (map (\<lambda>q. request_commands q s) (player_requests sid m s)))"

lemma room_abs_updates [simp]:
  "room_abs (upd_client f sid s) = room_abs s"
  "room_abs (upd_game h gid s) = room_abs s"
  "room_abs (upd_chat k s) = room_abs s"
  "room_abs (game_send F e gid s) = room_abs s"
  "room_abs (s\<lparr>m_redis := r\<rparr>) = room_abs s"
  "room_abs (s\<lparr>m_clients := cs\<rparr>) = room_abs s"
  "room_abs (s\<lparr>m_games := gs\<rparr>) = room_abs s"
  "room_abs (s\<lparr>m_next := n\<rparr>) = room_abs s"
  "room_abs (s\<lparr>m_lobby_sessions := ls\<rparr>) = room_abs s"
  "room_abs (s\<lparr>m_lobby_waits := n\<rparr>) = room_abs s"
  "room_abs (s\<lparr>m_lobby_cancelled := n\<rparr>) = room_abs s"
  "room_abs (s\<lparr>m_lobby_pending := b\<rparr>) = room_abs s"
  "room_abs (broadcastRoomListToLobby F s) = room_abs s"
  by (simp_all add: room_abs_def upd_client_def upd_game_def upd_chat_def game_send_def split: option.split)

lemma rng_updates [simp]:
  "m_rng (upd_game h gid s) = m_rng s"
  "m_rng (upd_chat k s) = m_rng s"
  "m_rng (game_send F e gid s) = m_rng s"
  by (simp_all add: upd_game_def upd_chat_def game_send_def split: option.split)

lemma close_rng [simp]: "m_rng (ClientSession_close E sid s) = m_rng s"
  by (simp add: ClientSession_close_def Let_def)

lemma dispatch_serves:
  "m_rng (ClientSession_dispatch E m sid s) = m_rng (fold (room_serve E) (player_requests sid m s) s)"
  "room_abs (ClientSession_dispatch E m sid s) = room_abs (fold (room_serve E) (player_requests sid m s) s)"
  by (cases m; simp add: ClientSession_dispatch_def player_requests_def)+

lemma admitted_redis [simp]: "admitted p sid (s\<lparr>m_redis := r\<rparr>) = admitted p sid s"
proof -
  have "lock (s\<lparr>m_redis := r\<rparr>) w = lock s w" for w by (simp add: lock_def)
  then show ?thesis
    by (auto simp: admitted_def duplicate_player_def session_playerId_def split: option.split)
qed

lemma request_commands_redis [simp]:
  "request_commands q (s\<lparr>m_redis := r\<rparr>) = request_commands q s"
  "player_requests sid m (s\<lparr>m_redis := r\<rparr>) = player_requests sid m s"
  by (cases q; simp) (cases m; simp add: player_requests_def session_playerId_def)

lemma trace_single:
  "length qs \<le> 1 \<Longrightarrow> trace serve commands qs s = concat (map (\<lambda>q. commands q s) qs)"
  by (cases qs) auto

lemma one_request: "length (player_requests sid m s) \<le> 1"
  by (cases m) (simp_all add: player_requests_def)

lemma dispatch_refines:
  assumes "rooms_safe E s" and "uuids_fresh (m_rng (ClientSession_dispatch E m sid s))"
  shows "room_abs (ClientSession_dispatch E m sid s) =
    fold (lobby_cmd E) (concat (map (\<lambda>q. request_commands q s) (player_requests sid m s))) (room_abs s)"
  using manager.serves_refine [OF assms(1), of "player_requests sid m s"] assms(2)
  by (simp add: dispatch_serves trace_single [OF one_request])

lemma close_refines:
  assumes "rooms_safe E s" and "uuids_fresh (m_rng s)"
  shows "room_abs (ClientSession_close E sid s) = fold (lobby_cmd E) (departure sid s) (room_abs s)"
proof -
  let ?s = "removeLobbySession sid (upd_client (\<lambda>c. c\<lparr>cs_closed := True, cs_heartbeat := False\<rparr>) sid s)"
  have "consistent E ?s" using assms by (simp add: rooms_safe_def)
  moreover have "session_playerId sid ?s = session_playerId sid s"
    by (simp add: session_playerId_def upd_client_def split: option.split)
  ultimately show ?thesis
    by (simp add: ClientSession_close_def departure_def Let_def disconnect_refines del: lobby_exec.simps)
qed

lemma sent_session [simp]:
  "client_closed sid (session_send E e sid s) = client_closed sid s"
  "session_playerId sid (session_send E e sid s) = session_playerId sid s"
  "client_closed sid (s\<lparr>m_redis := r\<rparr>) = client_closed sid s"
  "session_playerId sid (s\<lparr>m_redis := r\<rparr>) = session_playerId sid s"
  by (auto simp: client_closed_def session_playerId_def session_send_def upd_client_def
      ClientSession_send_def split: option.split)

lemma rng_ext_dispatch: "rng_ext (m_rng s) (m_rng (ClientSession_dispatch E m sid s))"
  by (simp add: dispatch_serves rng_ext_fold rng_ext_request)

lemma rng_ext_process: "rng_ext (m_rng s) (m_rng (ClientSession_processMessage E sid m s))"
  using rng_ext_dispatch [of "s\<lparr>m_redis := r\<rparr>" for r]
  by (simp add: ClientSession_processMessage_def Let_def rng_ext_dispatch
      split: option.split prod.split sum.split)

lemma process_refines:
  assumes "rooms_safe E s" and "uuids_fresh (m_rng (ClientSession_processMessage E sid m s))"
  shows "room_abs (ClientSession_processMessage E sid m s) =
    fold (lobby_cmd E) (player_commands E sid m s) (room_abs s)"
proof (cases "over_limit E sid s")
  case True
  then obtain L r where L: "e_rate_limiter E = Some L"
    "allow L (session_remote_ip sid s) (m_redis s) = (Inr False, r)"
    by (cases "e_rate_limiter E") (auto simp: over_limit_def prod_eq_iff)
  have "uuids_fresh (m_rng s)" using assms(2) rng_ext_fresh rng_ext_process by blast
  with True L close_refines [of E "session_send E e sid (s\<lparr>m_redis := r\<rparr>)" sid for e] assms(1)
  show ?thesis
    by (simp add: ClientSession_processMessage_def player_commands_def departure_def)
next
  case False
  obtain r where "ClientSession_processMessage E sid m s = ClientSession_dispatch E m sid (s\<lparr>m_redis := r\<rparr>)"
  proof (cases "e_rate_limiter E")
    case None
    then show ?thesis using that [of "m_redis s"] by (simp add: ClientSession_processMessage_def)
  next
    case (Some L)
    obtain v r where "allow L (session_remote_ip sid s) (m_redis s) = (v, r)" by fastforce
    with Some False that [of r] show ?thesis
      by (cases v) (auto simp: ClientSession_processMessage_def over_limit_def Let_def)
  qed
  with False dispatch_refines [of E "s\<lparr>m_redis := r\<rparr>" m sid] assms show ?thesis
    by (simp add: player_commands_def)
qed

interpretation client_messages: room_service "ClientSession_processMessage E sid" "player_commands E sid"
  "lobby_cmd E" room_abs "rooms_safe E" "\<lambda>s. uuids_fresh (m_rng s)" for E :: "'r room_env" and sid
  by unfold_locales (rule rooms_safe_process, assumption, rule rng_ext_fresh [OF rng_ext_process],
    assumption, rule process_refines)

section \<open>Game server sessions\<close>

definition game_commands :: "envelope \<Rightarrow> 'r room_server \<Rightarrow> room_command list" where
  "game_commands m s = (case m of SlotReleased p i \<Rightarrow> [Free_slot p i] | _ \<Rightarrow> [])"

lemma game_message_rng [simp]: "m_rng (GameServerSession_processMessage E S gid m s) = m_rng s"
  by (cases m) (simp_all add: GameServerSession_processMessage_def handleTokenValidate_def
      handleGameServerHeartbeat_def Let_def split: prod.split)

lemma game_message_refines:
  assumes "rooms_safe E s" and "uuids_fresh (m_rng s)"
  shows "room_abs (GameServerSession_processMessage E S gid m s) =
    fold (lobby_cmd E) (game_commands m s) (room_abs s)"
  using assms slot_refines [of E s]
  by (cases m) (simp_all add: rooms_safe_def GameServerSession_processMessage_def game_commands_def
      handleTokenValidate_def handleGameServerHeartbeat_def Let_def split: prod.split del: lobby_exec.simps)

interpretation game_messages: room_service "GameServerSession_processMessage E S gid" game_commands
  "lobby_cmd E" room_abs "rooms_safe E" "\<lambda>s. uuids_fresh (m_rng s)" for E :: "'r room_env" and S gid
  by unfold_locales (simp_all add: rooms_safe_game_process game_message_refines)

section \<open>What happens in a run\<close>

text \<open>
  The commands each handler of the server amounts to. A read amounts to the commands of the
  messages it completes, in their order; where a connection ends (a failed read or write, a
  heartbeat that did not come, the destructor), the player of the session leaves its room, and
  with a game server that had identified itself the games are lost.
\<close>

definition read_commands ::
  "'r room_env \<Rightarrow> byte list option \<Rightarrow> nat \<Rightarrow> 'r room_server \<Rightarrow> room_command list" where
  "read_commands E result sid s =
     (let s0 = upd_client (\<lambda>c. c\<lparr>cs_reading := False\<rparr>) sid s
      in case result of
           None \<Rightarrow> departure sid s0
         | Some data \<Rightarrow>
             let buffer = feed (case m_clients s0 sid of None \<Rightarrow> [] | Some c \<Rightarrow> cs_buffer c) data
             in trace (ClientSession_processMessage E sid) (player_commands E sid)
                  (loop_messages (e_room_proto E) (ClientSession_processMessage E sid) (client_closed sid) buffer s0) s0)"

definition lost_game :: "nat \<Rightarrow> 'r room_server \<Rightarrow> room_command list" where
  "lost_game gid s =
     (case m_games s gid of None \<Rightarrow> []
      | Some g \<Rightarrow> if gs_closed g \<or> gs_server_id g = [] then [] else [Lose_games])"

definition game_read_commands ::
  "'r room_env \<Rightarrow> 'r session_store \<Rightarrow> byte list option \<Rightarrow> nat \<Rightarrow> 'r room_server \<Rightarrow> room_command list" where
  "game_read_commands E S result gid s =
     (let s0 = upd_game (\<lambda>g. g\<lparr>gs_reading := False\<rparr>) gid s
      in case result of
           None \<Rightarrow> lost_game gid s0
         | Some data \<Rightarrow>
             let buffer = feed (case m_games s0 gid of None \<Rightarrow> [] | Some g \<Rightarrow> gs_buffer g) data
             in trace (GameServerSession_processMessage E S gid) game_commands
                  (loop_messages (e_room_proto E) (GameServerSession_processMessage E S gid) (\<lambda>_. False) buffer s0) s0)"

text \<open>The handlers, labelled with their commands: the rules are those of \<open>room_handler\<close>.\<close>

inductive room_does ::
  "bool \<Rightarrow> 'r room_env \<Rightarrow> 'r room_server \<Rightarrow> room_command list \<Rightarrow> 'r room_server \<Rightarrow> bool"
  for late E where
  does_read: "m_clients s sid = Some c \<Longrightarrow> cs_reading c \<Longrightarrow> result = None \<or> \<not> cs_closed c \<or> late \<Longrightarrow>
    room_does late E s (read_commands E result sid s) (ClientSession_onRead E result sid s)"
| does_heartbeat: "m_clients s sid = Some c \<Longrightarrow> cs_heartbeat c \<Longrightarrow>
    room_does late E s (departure sid s) (ClientSession_onHeartbeat E sid s)"
| does_written: "m_clients s sid = Some c \<Longrightarrow> 0 < cs_writes c \<Longrightarrow>
    room_does late E s (if ec then departure sid s else []) (ClientSession_onWritten E ec sid s)"
| does_destroy: "m_clients s sid = Some c \<Longrightarrow> ClientSession_idle c \<Longrightarrow>
    room_does late E s (departure sid s) (ClientSession_destroy E sid s)"
| does_game_read: "m_games s gid = Some g \<Longrightarrow> gs_reading g \<Longrightarrow> e_session_store E = Some S \<Longrightarrow>
    result = None \<or> \<not> gs_closed g \<or> late \<Longrightarrow>
    room_does late E s (game_read_commands E S result gid s) (GameServerSession_onRead E S result gid s)"
| does_game_written: "m_games s gid = Some g \<Longrightarrow> 0 < gs_writes g \<Longrightarrow>
    room_does late E s (if ec then lost_game gid s else []) (GameServerSession_onWritten E ec gid s)"
| does_game_destroy: "m_games s gid = Some g \<Longrightarrow> GameServerSession_idle g \<Longrightarrow>
    room_does late E s (lost_game gid s) (GameServerSession_destroy E gid s)"
| does_lobby_timer: "0 < m_lobby_waits s \<Longrightarrow> room_does late E s [] (lobby_timer_fired E s)"
| does_lobby_cancelled: "0 < m_lobby_cancelled s \<Longrightarrow> room_does late E s [] (lobby_timer_cancelled s)"
| does_chat_link: "cc_handler (m_chat s) c' \<Longrightarrow> room_does late E s [] (upd_chat (\<lambda>_. c') s)"
| does_redis: "room_does late E s [] (s\<lparr>m_redis := r\<rparr>)"
| does_rehash: "rehashed (m_rooms s) rooms \<Longrightarrow> rehashed (m_player_to_room s) p2r \<Longrightarrow>
    rehashed (m_sessions s) sessions \<Longrightarrow> rehashed (m_lobby_sessions s) lobby \<Longrightarrow>
    room_does late E s [] (s\<lparr>m_rooms := rooms, m_player_to_room := p2r, m_sessions := sessions,
      m_lobby_sessions := lobby\<rparr>)"

lemma room_does_handler: "(\<exists>cs. room_does late E s cs s') \<longleftrightarrow> room_handler late E s s'"
proof
  assume "\<exists>cs. room_does late E s cs s'"
  then obtain cs where "room_does late E s cs s'" ..
  then show "room_handler late E s s'"
    by (induction rule: room_does.induct) (auto intro: room_handler.intros)
next
  assume "room_handler late E s s'"
  then show "\<exists>cs. room_does late E s cs s'"
    by (induction rule: room_handler.induct) (blast intro: room_does.intros)+
qed

text \<open>A stretch of a run and the commands it amounts to; accepting connections and the signal
  handler add none.\<close>

inductive room_goes ::
  "bool \<Rightarrow> 'r room_env \<Rightarrow> 'r room_process \<Rightarrow> room_command list \<Rightarrow> 'r room_process \<Rightarrow> bool"
  for late E p where
  goes_stay: "room_goes late E p [] p"
| goes_run: "room_goes late E p cs q \<Longrightarrow> room_does late E (rp_server q) cs' s' \<Longrightarrow>
    room_goes late E p (cs @ cs') (q\<lparr>rp_server := s'\<rparr>)"
| goes_accept: "room_goes late E p cs q \<Longrightarrow> rp_accepting q \<Longrightarrow> conn = None \<or> rp_acceptor_open q \<or> late \<Longrightarrow>
    room_goes late E p cs (RoomServer_onAccept E conn q)"
| goes_game_accept: "room_goes late E p cs q \<Longrightarrow> rp_game_accepting q \<Longrightarrow> ec \<or> rp_game_acceptor_open q \<or> late \<Longrightarrow>
    room_goes late E p cs (GameServerChannel_onAccept ec q)"
| goes_signal: "room_goes late E p cs q \<Longrightarrow> room_goes late E p cs (room_signal q)"

text \<open>Every step of the server is a step of a labelled run, and the other way round.\<close>

lemma room_goes_next:
  assumes "room_goes late E p cs q" and "room_step late E q q'"
  shows "\<exists>cs'. room_goes late E p (cs @ cs') q'"
  using assms(2,1)
proof (induction rule: room_step.induct)
  case (run q s')
  then show ?case using room_does_handler goes_run by metis
qed (metis append_Nil2 room_goes.intros)+

lemma room_goes_reachable:
  assumes "room_goes late E p cs q" and "room_reachable late E p"
  shows "room_reachable late E q"
  using assms
proof (induction rule: room_goes.induct)
  case (goes_run cs q cs' s')
  then have "room_step late E q (q\<lparr>rp_server := s'\<rparr>)" using room_does_handler room_step.run by metis
  with goes_run show ?case by (blast intro: room_next)
qed (auto intro: room_next room_step.intros)

section \<open>Runs\<close>

text \<open>
  \<open>s'\<close> comes from \<open>s\<close> by the commands \<open>cs\<close> of the specification, and a command that opens a
  room does so under an identifier that no room has.
\<close>

fun opens_new :: "'r room_env \<Rightarrow> room_command list \<Rightarrow> room_spec \<Rightarrow> bool" where
  "opens_new E [] a = True"
| "opens_new E (c # cs) a =
     ((\<forall>rid p pn n cap. c = Open_room rid p pn n cap \<longrightarrow> rs_rooms a rid = None \<or> lobby_cmd E c a = a) \<and>
      opens_new E cs (lobby_cmd E c a))"

lemma opens_new_append:
  "opens_new E (cs @ cs') a \<longleftrightarrow> opens_new E cs a \<and> opens_new E cs' (fold (lobby_cmd E) cs a)"
  by (induction cs arbitrary: a) (simp_all del: lobby_exec.simps)

definition governed :: "'r room_env \<Rightarrow> 'r room_server \<Rightarrow> room_command list \<Rightarrow> 'r room_server \<Rightarrow> bool" where
  "governed E s cs s' \<longleftrightarrow> rooms_safe E s' \<and> rng_ext (m_rng s) (m_rng s') \<and>
     (uuids_fresh (m_rng s') \<longrightarrow>
        room_abs s' = fold (lobby_cmd E) cs (room_abs s) \<and> opens_new E cs (room_abs s))"

lemma governed_refl [simp]: "governed E s [] s \<longleftrightarrow> rooms_safe E s"
  by (auto simp: governed_def)

lemma governed_safe: "governed E s cs s' \<Longrightarrow> rooms_safe E s'"
  by (simp add: governed_def)

lemma governed_trans:
  assumes "governed E s cs s'" and "governed E s' cs' s''"
  shows "governed E s (cs @ cs') s''"
proof -
  from assms have ext: "rng_ext (m_rng s) (m_rng s')" "rng_ext (m_rng s') (m_rng s'')"
    by (simp_all add: governed_def)
  with assms rng_ext_fresh [OF ext(2)] rng_ext_trans [OF ext] show ?thesis
    by (auto simp: governed_def opens_new_append)
qed

lemma governed_updates [simp]:
  "governed E s cs (upd_client f sid t) = governed E s cs t" "governed E (upd_client f sid s) cs t = governed E s cs t"
  "governed E s cs (upd_game h gid t) = governed E s cs t" "governed E (upd_game h gid s) cs t = governed E s cs t"
  "governed E s cs (upd_chat k t) = governed E s cs t" "governed E s cs (s\<lparr>m_redis := r\<rparr>) = governed E s cs s"
  "governed E s cs (t\<lparr>m_clients := ts\<rparr>) = governed E s cs t" "governed E (s\<lparr>m_clients := ts\<rparr>) cs t = governed E s cs t"
  "governed E s cs (t\<lparr>m_games := gs\<rparr>) = governed E s cs t" "governed E (s\<lparr>m_games := gs\<rparr>) cs t = governed E s cs t"
  "governed E s cs (t\<lparr>m_next := n\<rparr>) = governed E s cs t"
  "governed E s cs (t\<lparr>m_lobby_waits := n\<rparr>) = governed E s cs t"
  "governed E s cs (t\<lparr>m_lobby_cancelled := n\<rparr>) = governed E s cs t"
  "governed E s cs (t\<lparr>m_lobby_pending := b\<rparr>) = governed E s cs t"
  "governed E s cs (broadcastRoomListToLobby F t) = governed E s cs t"
  "governed E s cs (addLobbySession sid t) = governed E s cs t"
  "governed E s cs (removeLobbySession sid t) = governed E s cs t"
  "governed E (removeLobbySession sid s) cs t = governed E s cs t"
  by (simp_all add: governed_def)

lemma rooms_safe_consistent: "rooms_safe E s \<Longrightarrow> uuids_fresh (m_rng s) \<Longrightarrow> consistent E s"
  by (simp add: rooms_safe_def)

lemma tables_abs_cong:
  assumes "umap_find rooms = umap_find rooms'" and "umap_find p2r = umap_find p2r'"
  shows "tables_abs rooms p2r = tables_abs rooms' p2r'"
  by (rule room_specI) (simp_all only: tables_abs_sel assms)

text \<open>A message opens at most one room, with an identifier that was just drawn.\<close>

lemma create_opens_new:
  assumes inv: "consistent E s" and fresh: "uuids_fresh (m_rng (handleCreateRoom E p pn n cap sid s))"
    and "admitted p sid s"
  shows "opens_new E [Open_room (fst (generateUuid (m_rng s))) p pn n cap] (room_abs s)"
proof -
  let ?u = "fst (generateUuid (m_rng s))"
  let ?refused = "umap_contains (m_player_to_room s) p \<or> length (m_rooms s) \<ge> unat (e_max_rooms E) \<or>
    cap < 1 \<or> cap > e_max_players_per_room E"
  show ?thesis
  proof (cases ?refused)
    case True
    then have "lobby_cmd E (Open_room ?u p pn n cap) (room_abs s) = room_abs s"
      using abs_member_None [OF rooms_invD(3) [OF inv], of p] card_rooms_abs [OF rooms_invD(1) [OF inv]]
      by (auto simp: room_abs_def umap_contains_def)
    then show ?thesis by (simp del: lobby_exec.simps)
  next
    case False
    then have "uuids_fresh (snd (generateUuid (m_rng s)))" using fresh assms(3) by (simp add: create_rng)
    then have "?u \<notin> set (issued (m_rng s))" by (simp add: uuids_fresh_def issued_generateUuid)
    then have "umap_find (m_rooms s) ?u = None"
      using rooms_invD(4) [OF inv, of ?u] by (cases "umap_find (m_rooms s) ?u") (auto simp: room_ok_def)
    then show ?thesis by (simp add: room_abs_def tables_abs_sel del: lobby_exec.simps)
  qed
qed

lemma opens_new_others: "(\<And>rid p pn n cap. Open_room rid p pn n cap \<notin> set cs) \<Longrightarrow> opens_new E cs a"
proof (induction cs arbitrary: a)
  case (Cons c cs)
  then have "c \<noteq> Open_room rid p pn n cap" for rid p pn n cap by (metis list.set_intros(1))
  with Cons show ?case by (simp del: lobby_exec.simps)
qed simp

lemma create_dispatch_rng:
  assumes "uuids_fresh (m_rng (ClientSession_processMessage E sid (CreateRoom p pn n cap) s))"
    and "\<not> over_limit E sid s"
  shows "uuids_fresh (m_rng (handleCreateRoom E p pn n cap sid s))"
proof -
  have redis: "m_rng (handleCreateRoom E p pn n cap sid (s\<lparr>m_redis := r\<rparr>)) = m_rng (handleCreateRoom E p pn n cap sid s)" for r
    by (simp add: create_rng)
  show ?thesis
    using assms by (auto simp: ClientSession_processMessage_def ClientSession_dispatch_def over_limit_def Let_def redis
        split: option.splits prod.splits sum.splits if_splits)
qed

lemma process_opens_new:
  assumes "rooms_safe E s" and "uuids_fresh (m_rng (ClientSession_processMessage E sid m s))"
  shows "opens_new E (player_commands E sid m s) (room_abs s)"
proof -
  have inv: "consistent E s" using assms(1) rng_ext_process assms(2) by (rule consistent_before)
  show ?thesis
  proof (cases "over_limit E sid s")
    case True
    then show ?thesis by (auto simp: player_commands_def departure_def intro!: opens_new_others)
  next
    case False
    note new = create_opens_new [OF inv create_dispatch_rng [OF _ False]]
    show ?thesis
      using assms(2) False new
      by (cases m) (auto simp: player_commands_def player_requests_def simp del: opens_new.simps
          intro!: opens_new_others)
  qed
qed

lemma governed_process:
  "rooms_safe E s \<Longrightarrow> governed E s (player_commands E sid m s) (ClientSession_processMessage E sid m s)"
  by (simp add: governed_def rooms_safe_process rng_ext_process process_refines process_opens_new)

lemma governed_game_process:
  "rooms_safe E s \<Longrightarrow> governed E s (game_commands m s) (GameServerSession_processMessage E S gid m s)"
  by (simp add: governed_def rooms_safe_game_process game_message_refines)
    (auto simp: game_commands_def intro!: opens_new_others split: envelope.split)

lemma governed_close: "rooms_safe E s \<Longrightarrow> governed E s (departure sid s) (ClientSession_close E sid s)"
  by (simp add: governed_def rooms_safe_client_close close_refines)
    (auto simp: departure_def intro!: opens_new_others)

lemma governed_disconnect: "rooms_safe E s \<Longrightarrow> governed E s [Leave_room p] (handleDisconnect E p s)"
  by (simp add: governed_def rooms_safe_disconnect rooms_safe_consistent disconnect_refines del: lobby_exec.simps)

lemma governed_game_disconnect: "rooms_safe E s \<Longrightarrow> governed E s [Lose_games] (handleGameServerDisconnect E s)"
  by (simp add: governed_def rooms_safe_game_disconnect rooms_safe_consistent game_disconnect_refines
      del: lobby_exec.simps)

text \<open>The read loops.\<close>

lemma governed_trace:
  assumes "\<And>m s. rooms_safe E s \<Longrightarrow> governed E s (commands m s) (serve m s)" and "rooms_safe E s"
  shows "governed E s (trace serve commands ms s) (fold serve ms s)"
  using assms(2)
proof (induction ms arbitrary: s)
  case (Cons m ms)
  from assms(1) [OF Cons.prems] Cons.IH [of "serve m s"] show ?case
    by (auto dest: governed_safe intro: governed_trans)
qed simp

lemma governed_read:
  assumes "rooms_safe E s"
  shows "governed E s (read_commands E result sid s) (ClientSession_onRead E result sid s)"
proof -
  let ?s0 = "upd_client (\<lambda>c. c\<lparr>cs_reading := False\<rparr>) sid s"
  have safe: "rooms_safe E ?s0" using assms by simp
  have loop: "governed E ?s0 (trace (ClientSession_processMessage E sid) (player_commands E sid) ms ?s0)
      (fold (ClientSession_processMessage E sid) ms ?s0)" for ms
    by (rule governed_trace [OF governed_process safe])
  show ?thesis
    using governed_close [OF safe, of sid] loop
    by (simp add: ClientSession_onRead_def read_commands_def Let_def case_prod_beta decode_loop_messages
        split: option.split)
qed

lemma governed_game_close:
  assumes "rooms_safe E s"
  shows "governed E s (lost_game gid s) (GameServerSession_close E gid s)"
  using assms governed_game_disconnect [of E "upd_game f gid s" for f]
  by (simp add: GameServerSession_close_def lost_game_def Let_def split: option.split)

lemma governed_game_read:
  assumes "rooms_safe E s"
  shows "governed E s (game_read_commands E S result gid s) (GameServerSession_onRead E S result gid s)"
proof -
  let ?s0 = "upd_game (\<lambda>g. g\<lparr>gs_reading := False\<rparr>) gid s"
  have safe: "rooms_safe E ?s0" using assms by simp
  have loop: "governed E ?s0 (trace (GameServerSession_processMessage E S gid) game_commands ms ?s0)
      (fold (GameServerSession_processMessage E S gid) ms ?s0)" for ms
    by (rule governed_trace [OF governed_game_process safe])
  show ?thesis
    using governed_game_close [OF safe, of gid] loop
    by (simp add: GameServerSession_onRead_def game_read_commands_def Let_def case_prod_beta decode_loop_messages
        split: option.split)
qed

lemma governed_destroy:
  assumes "rooms_safe E s"
  shows "governed E s (departure sid s) (ClientSession_destroy E sid s)"
    and "governed E s (lost_game gid s) (GameServerSession_destroy E gid s)"
  using assms governed_disconnect [of E "removeLobbySession sid (s\<lparr>m_clients := cs\<rparr>)" for cs]
    governed_game_disconnect [of E "s\<lparr>m_games := gs\<rparr>" for gs]
  by (simp_all add: ClientSession_destroy_def GameServerSession_destroy_def departure_def lost_game_def Let_def
      split: option.split)

lemma departure_upd [simp]:
  assumes "\<And>c. cs_closed (f c) = cs_closed c" and "\<And>c. cs_player_id (f c) = cs_player_id c"
  shows "departure sid (upd_client f sid s) = departure sid s"
  using assms by (simp add: departure_def client_closed_def session_playerId_def upd_client_def split: option.split)

lemma lost_game_upd [simp]:
  assumes "\<And>g. gs_closed (f g) = gs_closed g" and "\<And>g. gs_server_id (f g) = gs_server_id g"
  shows "lost_game gid (upd_game f gid s) = lost_game gid s"
  using assms by (simp add: lost_game_def upd_game_def split: option.split)

lemma governed_handler:
  assumes "room_does late E s cs s'" and "rooms_safe E s"
  shows "governed E s cs s'"
  using assms
proof (induction rule: room_does.induct)
  case (does_rehash s rooms p2r sessions lobby)
  then have "rooms_safe E (s\<lparr>m_rooms := rooms, m_player_to_room := p2r, m_sessions := sessions,
      m_lobby_sessions := lobby\<rparr>)"
    using rooms_safe_handler room_handler.rehash by blast
  with does_rehash show ?case
    by (auto simp: governed_def room_abs_def rehashed_def intro: tables_abs_cong)
next
  case (does_heartbeat s sid c)
  then show ?case
    using governed_close [of E "upd_client (\<lambda>c. c\<lparr>cs_heartbeat := False\<rparr>) sid s" sid]
    by (simp add: ClientSession_onHeartbeat_def)
next
  case (does_written s sid c ec)
  then show ?case
    using governed_close [of E "upd_client (\<lambda>c. c\<lparr>cs_writes := cs_writes c - 1\<rparr>) sid s" sid]
    by (simp add: ClientSession_onWritten_def)
next
  case (does_game_written s gid g ec)
  then show ?case
    using governed_game_close [of E "upd_game (\<lambda>g. g\<lparr>gs_writes := gs_writes g - 1\<rparr>) gid s" gid]
    by (simp add: GameServerSession_onWritten_def)
qed (simp_all add: governed_read governed_game_read governed_destroy lobby_timer_fired_def
    lobby_timer_cancelled_def Let_def)

lemma governed_goes:
  assumes "room_goes late E p cs p'" and "rooms_safe E (rp_server p)"
  shows "governed E (rp_server p) cs (rp_server p')"
  using assms
proof (induction rule: room_goes.induct)
  case (goes_run cs q cs' s')
  then show ?case using governed_trans governed_handler governed_safe by fastforce
qed (auto simp: process_defs ClientSession_start_def GameServerSession_start_def
      RoomManager_stop_def split: option.split)

end
