(* ===== verification/RoomSpecProperties.thy ===== *)
theory RoomSpecProperties
  imports RoomService RoomProperties
begin

text \<open>
  The properties of the room server that rest on its specification: sequences of requests,
  the bytes of a client and whole runs refine it, and nobody can be thrown out of a room by
  a client who is not its host.
\<close>

section \<open>Requests\<close>

text \<open>C2. The handlers of the room manager implement the specification: from any reachable state, any
  sequence of requests to create, join and leave rooms, to toggle readiness, to start and to end
  games has the effect the specification gives to the commands they amount to, in the same order,
  as long as the generator does not repeat an identifier.\<close>

theorem room_manager_refines_spec:
  assumes "room_reachable late E p" and "uuids_fresh (m_rng (fold (room_serve E) qs (rp_server p)))"
  shows "room_abs (fold (room_serve E) qs (rp_server p)) =
    fold (lobby_exec (e_max_rooms E) (e_max_players_per_room E))
      (trace (room_serve E) request_commands qs (rp_server p)) (room_abs (rp_server p))"
  using manager.serves_refine reachable_rooms_safe [OF assms(1)] assms(2) by blast

definition demo_requests :: "room_request list" where
  "demo_requests = [Join_request ''bob'' ''Bob'' demo_id0 7, Ready_request ''bob'', Leave_request ''alice'']"

lemma demo_created_clients: "m_clients (rp_server demo_created) 7 = None"
proof -
  have "\<exists>p. room_run False demo_env demo_create demo_start = Some p \<and> m_clients (rp_server p) 7 = None"
    by (simp add: demo_create_def demo_simps)
  then show ?thesis by (auto simp: demo_created_def demo_run_def)
qed

lemma demo_created_abs:
  "rs_members (room_abs (rp_server demo_created)) =
     [''alice'' \<mapsto> \<lparr>sm_room = demo_id0, sm_name = ''Alice'', sm_ready = False, sm_host = True\<rparr>]"
  "rs_rooms (room_abs (rp_server demo_created)) =
     [demo_id0 \<mapsto> \<lparr>sr_name = ''room'', sr_host = ''alice'', sr_capacity = 2, sr_game = None\<rparr>]"
  by (auto simp: room_abs_def tables_abs_def demo_created_state room_member_new abs_member_def fun_eq_iff)

lemma demo_admitted: "admitted ''bob'' 7 (rp_server demo_created)"
  by (simp add: admitted_def duplicate_player_def demo_created_state session_playerId_def demo_created_clients)

theorem room_manager_refines_spec_witness:
  "room_abs (fold (room_serve demo_env) demo_requests (rp_server demo_created)) = rs_init"
proof -
  have fresh: "uuids_fresh (m_rng (fold (room_serve demo_env) demo_requests (rp_server demo_created)))"
    by (simp add: demo_requests_def demo_created_fresh)
  have "fold (lobby_exec 2 4) [Enter_room ''bob'' ''Bob'' demo_id0, Flip_ready ''bob'', Leave_room ''alice'']
      (room_abs (rp_server demo_created)) = rs_init"
    by (rule room_specI) (simp_all add: demo_created_abs rs_init_def players_in_def)
  then show ?thesis
    using room_manager_refines_spec [OF demo_created_reachable fresh]
    by (simp add: demo_requests_def demo_admitted demo_env_simps del: lobby_exec.simps)
qed

section \<open>Runs\<close>

text \<open>C8. Runs of the room server are runs of the specification. \<open>room_goes late E p cs p'\<close> is a stretch
  of a run labelled with what happens in it: the commands that the messages of the clients and
  of the game servers amount to, in the order in which they are handled, a leave for the player
  of each session that ends, and the loss of the games with each identified game server that is lost;
  timers, completed writes, accepted connections, the chat link, changes of Redis and of the
  order of the tables contribute nothing. Its effect on the rooms and players is exactly that of
  these commands. What the specification sees is what the tables hold: the players of a room are
  the ones in the room's list, and a game is running exactly if the server would refuse to start
  another. And the labels are no restriction: every step of the server continues the labelled run.\<close>

theorem room_runs_refine_spec:
  assumes "room_reachable late E p" and "room_goes late E p cs p'" and "uuids_fresh (m_rng (rp_server p'))"
  shows "room_abs (rp_server p') =
      fold (lobby_exec (e_max_rooms E) (e_max_players_per_room E)) cs (room_abs (rp_server p)) \<and>
    (\<forall>rid r. umap_find (m_rooms (rp_server p')) rid = Some r \<longrightarrow>
       players_in (room_abs (rp_server p')) rid = set (playerIds r)) \<and>
    game_running (room_abs (rp_server p')) = hasActiveGame (rp_server p') \<and>
    (\<forall>p''. room_step late E p' p'' \<longrightarrow> (\<exists>cs'. room_goes late E p (cs @ cs') p''))"
proof -
  have reach: "room_reachable late E p'" using assms(2,1) by (rule room_goes_reachable)
  have inv: "consistent E (rp_server p')"
    using reachable_rooms_safe [OF reach] assms(3) by (rule rooms_safe_consistent)
  have "governed E (rp_server p) cs (rp_server p')"
    using assms(2) reachable_rooms_safe [OF assms(1)] by (rule governed_goes)
  with assms(3) have "room_abs (rp_server p') = fold (lobby_cmd E) cs (room_abs (rp_server p))"
    by (simp add: governed_def)
  moreover have "\<forall>rid r. umap_find (m_rooms (rp_server p')) rid = Some r \<longrightarrow>
      players_in (room_abs (rp_server p')) rid = set (playerIds r)"
    unfolding room_abs_def using players_in_abs [OF inv] by blast
  moreover have "game_running (room_abs (rp_server p')) = hasActiveGame (rp_server p')"
    using game_running_abs [OF rooms_invD(1) [OF inv]] by (simp add: room_abs_def hasActiveGame_iff)
  ultimately show ?thesis using room_goes_next [OF assms(2)] by blast
qed

text \<open>The commands of an executable run, and those of the small environment.\<close>

fun event_commands :: "'r room_env \<Rightarrow> room_event \<Rightarrow> 'r room_server \<Rightarrow> room_command list" where
  "event_commands E (Ev_read sid result) s = read_commands E result sid s"
| "event_commands E (Ev_heartbeat sid) s = departure sid s"
| "event_commands E (Ev_written sid ec) s = (if ec then departure sid s else [])"
| "event_commands E (Ev_destroy sid) s = departure sid s"
| "event_commands E (Ev_game_read gid result) s =
     (case e_session_store E of None \<Rightarrow> [] | Some S \<Rightarrow> game_read_commands E S result gid s)"
| "event_commands E _ s = []"

fun run_commands :: "bool \<Rightarrow> 'r room_env \<Rightarrow> room_event list \<Rightarrow> 'r room_process \<Rightarrow> room_command list" where
  "run_commands late E [] p = []"
| "run_commands late E (ev # evs) p =
     (case room_exec late E ev p of None \<Rightarrow> []
      | Some p' \<Rightarrow> event_commands E ev (rp_server p) @ run_commands late E evs p')"

lemma room_exec_goes:
  assumes "room_goes late E p0 cs p" and "room_exec late E ev p = Some p'"
  shows "room_goes late E p0 (cs @ event_commands E ev (rp_server p)) p'"
proof -
  note run = goes_run [OF assms(1)]
  show ?thesis
  proof (cases ev)
    case (Ev_written sid ec)
    then obtain c where "m_clients (rp_server p) sid = Some c" "0 < cs_writes c"
      and p': "p' = p\<lparr>rp_server := ClientSession_onWritten E ec sid (rp_server p)\<rparr>"
      using assms(2) by (auto simp: room_exec_def guarded_def Let_def split: option.splits if_splits)
    from run [OF does_written [OF this(1,2), of late E ec]] show ?thesis by (simp add: Ev_written p')
  next
    case Ev_lobby_timer
    with assms(2) have "0 < m_lobby_waits (rp_server p)"
      and p': "p' = p\<lparr>rp_server := lobby_timer_fired E (rp_server p)\<rparr>"
      by (auto simp: room_exec_def guarded_def Let_def split: if_splits)
    from run [OF does_lobby_timer [OF this(1)]] show ?thesis by (simp add: Ev_lobby_timer p')
  qed (use assms in \<open>auto simp: room_exec_def guarded_def Let_def split: option.splits if_splits
      intro: run room_does.intros goes_accept goes_game_accept goes_signal\<close>)
qed

lemma room_run_goes:
  assumes "room_goes late E p0 cs p" and "room_run late E evs p = Some p'"
  shows "room_goes late E p0 (cs @ run_commands late E evs p) p'"
  using assms
proof (induction evs arbitrary: p cs)
  case (Cons ev evs)
  then obtain q where q: "room_exec late E ev p = Some q" "room_run late E evs q = Some p'"
    by (auto split: option.splits)
  from Cons.IH [OF room_exec_goes [OF Cons.prems(1) q(1)] q(2)] q(1) show ?case by simp
qed simp

lemma demo_loop_messages:
  "loop_messages demo_proto process closed [1, 0, 0, 0, b] s =
     (case map_of demo_table b of None \<Rightarrow> [] | Some m \<Rightarrow> [m])"
proof -
  have "loop_messages demo_proto process closed [] t = []" for t
    by (simp add: loop_messages.simps tryDecode_def)
  then show ?thesis
    by (subst loop_messages.simps) (simp add: demo_decode Let_def split: option.split)
qed

lemmas demo_commands_simps = read_commands_def game_read_commands_def departure_def lost_game_def
  demo_loop_messages player_commands_def over_limit_def player_requests_def admitted_def game_commands_def demo_simps

text \<open>Alice creates a room, Bob joins it, and the connection of Alice is lost.\<close>

definition demo_lost :: "room_event list" where
  "demo_lost = [ev_connect, ev_msg 0 1, ev_connect, ev_msg 1 2, ev_lost 0]"

lemma demo_lost_run:
  "\<exists>p'. room_run False demo_env demo_lost demo_start = Some p' \<and> m_rng (rp_server p') = demo_rng 4 \<and>
     run_commands False demo_env demo_lost demo_start =
       [Open_room demo_id0 ''alice'' ''Alice'' ''room'' 2, Enter_room ''bob'' ''Bob'' demo_id0, Leave_room ''alice'']"
  by (simp add: demo_lost_def demo_commands_simps)

lemma demo_start_abs: "room_abs (rp_server demo_start) = rs_init"
  by (rule room_specI) (simp_all add: room_abs_def tables_abs_def rs_init_def demo_simps)

theorem room_runs_refine_spec_witness:
  "\<exists>p'. room_goes False demo_env demo_start [Open_room demo_id0 ''alice'' ''Alice'' ''room'' 2,
       Enter_room ''bob'' ''Bob'' demo_id0, Leave_room ''alice''] p' \<and>
     room_abs (rp_server p') = rs_init"
proof -
  let ?cs = "[Open_room demo_id0 ''alice'' ''Alice'' ''room'' 2, Enter_room ''bob'' ''Bob'' demo_id0, Leave_room ''alice'']"
  obtain p' where p': "room_run False demo_env demo_lost demo_start = Some p'" "m_rng (rp_server p') = demo_rng 4"
    "run_commands False demo_env demo_lost demo_start = ?cs"
    using demo_lost_run by blast
  have goes: "room_goes False demo_env demo_start ?cs p'"
    using room_run_goes [OF goes_stay p'(1)] p'(3) by simp
  have reach: "room_reachable False demo_env demo_start"
    unfolding demo_start_def by (rule room_init)
  have "fold (lobby_exec 2 4) ?cs rs_init = rs_init"
    by (rule room_specI) (simp_all add: rs_init_def players_in_def)
  then have "room_abs (rp_server p') = rs_init"
    using room_runs_refine_spec [OF reach goes] p'(2) demo_fresh(1)
    by (simp add: demo_start_abs demo_env_simps del: lobby_exec.simps)
  with goes show ?thesis by blast
qed

section \<open>Bytes\<close>

lemma client_read_frames:
  assumes sid: "m_clients s sid = Some c"
    and bytes: "cs_buffer c @ data = frames (e_room_proto E) ms @ part"
    and frames: "\<forall>m \<in> set (ms @ ms'). frame_ok (e_room_proto E) m" "partial_of (e_room_proto E) ms' part"
  obtains f k where "k \<le> length ms"
    and "ClientSession_onRead E (Some data) sid s = upd_client f sid
      (fold (ClientSession_processMessage E sid) (take k ms) (upd_client (\<lambda>c. c\<lparr>cs_reading := False\<rparr>) sid s))"
    and "\<And>c. cs_closed (f c) = cs_closed c"
    and "k = length ms \<or> client_closed sid (fold (ClientSession_processMessage E sid) (take k ms)
      (upd_client (\<lambda>c. c\<lparr>cs_reading := False\<rparr>) sid s))"
proof -
  let ?s0 = "upd_client (\<lambda>c. c\<lparr>cs_reading := False\<rparr>) sid s"
  have buf: "(case m_clients ?s0 sid of None \<Rightarrow> [] | Some c \<Rightarrow> cs_buffer c) = cs_buffer c"
    using sid by (simp add: upd_client_def)
  obtain rest t where loop: "decode_loop (e_room_proto E) (ClientSession_processMessage E sid) (client_closed sid)
      (frames (e_room_proto E) ms @ part) ?s0 = (rest, t)" by fastforce
  from decode_loop_until [OF frames, of "ClientSession_processMessage E sid" "client_closed sid" ?s0] loop
  obtain k where k: "k \<le> length ms" "t = fold (ClientSession_processMessage E sid) (take k ms) ?s0"
    "k = length ms \<or> client_closed sid t" by auto
  let ?f = "\<lambda>c. c\<lparr>cs_buffer := rest\<rparr>"
  let ?g = "\<lambda>c. ClientSession_doRead (resetHeartbeatTimer E (?f c))"
  have "upd_client (\<lambda>c. ClientSession_doRead (resetHeartbeatTimer E c)) sid (upd_client ?f sid t) = upd_client ?g sid t"
    by (simp add: upd_client_def split: option.split)
  then have "ClientSession_onRead E (Some data) sid s = upd_client ?f sid t \<or>
      ClientSession_onRead E (Some data) sid s = upd_client ?g sid t"
    by (simp add: ClientSession_onRead_def Let_def feed_def buf bytes loop)
  moreover have "cs_closed (?f c) = cs_closed c" "cs_closed (?g c) = cs_closed c" for c
    by (simp_all add: ClientSession_doRead_def resetHeartbeatTimer_def)
  ultimately show ?thesis using that k by blast
qed

text \<open>C13. The bytes that arrive at a client session have the effect of the commands they encode: if
  what was buffered and what arrives are together the frames of the messages \<open>ms\<close> and the beginning
  of a further one, the rooms change by the commands of these messages, in their order, and by
  nothing else; a rest of the messages is skipped only if the session was closed before it (as it
  is when the rate limiter refuses the client, whose player then leaves its room).\<close>

theorem client_bytes_refine_room_spec:
  assumes "room_reachable late E p" and "m_clients (rp_server p) sid = Some c"
    and "cs_buffer c @ data = frames (e_room_proto E) ms @ part"
    and "\<forall>m \<in> set (ms @ ms'). frame_ok (e_room_proto E) m" and "partial_of (e_room_proto E) ms' part"
    and "uuids_fresh (m_rng (ClientSession_onRead E (Some data) sid (rp_server p)))"
  shows "\<exists>k \<le> length ms.
    room_abs (ClientSession_onRead E (Some data) sid (rp_server p)) =
      fold (lobby_exec (e_max_rooms E) (e_max_players_per_room E))
        (trace (ClientSession_processMessage E sid) (player_commands E sid) (take k ms)
          (upd_client (\<lambda>c. c\<lparr>cs_reading := False\<rparr>) sid (rp_server p)))
        (room_abs (rp_server p)) \<and>
    (k = length ms \<or> client_closed sid (ClientSession_onRead E (Some data) sid (rp_server p)))"
proof -
  let ?s0 = "upd_client (\<lambda>c. c\<lparr>cs_reading := False\<rparr>) sid (rp_server p)"
  obtain f k where k: "k \<le> length ms"
    "ClientSession_onRead E (Some data) sid (rp_server p) =
       upd_client f sid (fold (ClientSession_processMessage E sid) (take k ms) ?s0)"
    "\<And>c. cs_closed (f c) = cs_closed c"
    "k = length ms \<or> client_closed sid (fold (ClientSession_processMessage E sid) (take k ms) ?s0)"
    by (rule client_read_frames [OF assms(2-5)], rule that)
  have "client_closed sid (upd_client f sid t) = client_closed sid t" for t :: "'a room_server"
    using k(3) by (simp add: client_closed_def upd_client_def split: option.split)
  moreover have "rooms_safe E ?s0" using reachable_rooms_safe [OF assms(1)] by simp
  ultimately show ?thesis
    using k client_messages.serves_refine [of E ?s0 sid "take k ms"] assms(6) by auto
qed

text \<open>An environment whose messages can be encoded: the request to create a room is the byte 1.\<close>

definition echo_proto :: "envelope proto" where
  "echo_proto = demo_proto\<lparr>SerializeAsString := \<lambda>m. if m = CreateRoom ''alice'' ''Alice'' ''room'' 2 then [1] else [0]\<rparr>"

definition echo_env :: "mem room_env" where
  "echo_env = demo_env\<lparr>e_room_proto := echo_proto\<rparr>"

definition echo_connected :: "mem room_process" where
  "echo_connected = RoomServer_onAccept echo_env (Some (Some ''10.0.0.1'')) demo_start"

lemma echo_env_simps:
  "e_max_rooms echo_env = 2" "e_max_players_per_room echo_env = 4" "e_rate_limiter echo_env = None"
  "e_heartbeat_timeout echo_env = 30" "e_room_proto echo_env = echo_proto"
  by (simp_all add: echo_env_def demo_env_simps)

lemma echo_decode:
  "tryDecode echo_proto bs = tryDecode demo_proto bs"
  "decode_loop echo_proto process closed [1, 0, 0, 0, b] s = decode_loop demo_proto process closed [1, 0, 0, 0, b] s"
proof -
  show dec: "tryDecode echo_proto bs = tryDecode demo_proto bs" for bs
    by (simp add: tryDecode_def echo_proto_def Let_def)
  have "decode_loop P process closed [] t = ([], t)" for P t
    by (rule decode_loop_None) (simp add: tryDecode_def)
  then show "decode_loop echo_proto process closed [1, 0, 0, 0, b] s = decode_loop demo_proto process closed [1, 0, 0, 0, b] s"
    by (subst (1 2) decode_loop.simps) (simp add: dec demo_decode Let_def split: option.split)
qed

lemma echo_reachable: "room_reachable False echo_env echo_connected"
proof -
  have "room_step False echo_env demo_start echo_connected"
    unfolding echo_connected_def by (rule room_step.accept) (simp_all add: demo_simps)
  then show ?thesis using room_next room_init by (metis demo_start_def)
qed

lemma echo_frames: "frames echo_proto [CreateRoom ''alice'' ''Alice'' ''room'' 2] @ [] = [1, 0, 0, 0, 1]"
  by (simp add: frames_def encode_def encode_length_def echo_proto_def)

lemma echo_state:
  "\<exists>c. m_clients (rp_server echo_connected) 0 = Some c \<and> cs_buffer c = []"
  "m_rng (ClientSession_onRead echo_env (Some [1, 0, 0, 0, 1]) 0 (rp_server echo_connected)) = demo_rng 4"
  "\<not> client_closed 0 (ClientSession_onRead echo_env (Some [1, 0, 0, 0, 1]) 0 (rp_server echo_connected))"
  by (simp_all add: echo_connected_def demo_simps echo_env_simps echo_decode)

lemma echo_commands:
  "player_commands echo_env 0 (CreateRoom ''alice'' ''Alice'' ''room'' 2)
     (upd_client (\<lambda>c. c\<lparr>cs_reading := False\<rparr>) 0 (rp_server echo_connected)) =
   [Open_room demo_id0 ''alice'' ''Alice'' ''room'' 2]"
  by (simp add: player_commands_def over_limit_def player_requests_def admitted_def echo_connected_def demo_simps
      echo_env_simps)

lemma echo_abs: "room_abs (rp_server echo_connected) = rs_init"
  by (rule room_specI) (simp_all add: room_abs_def tables_abs_def rs_init_def echo_connected_def demo_simps)

theorem client_bytes_refine_room_spec_witness:
  "players_in (room_abs (ClientSession_onRead echo_env (Some [1, 0, 0, 0, 1]) 0 (rp_server echo_connected)))
     demo_id0 = {''alice''}"
proof -
  let ?m = "CreateRoom ''alice'' ''Alice'' ''room'' 2"
  obtain c where c: "m_clients (rp_server echo_connected) 0 = Some c" "cs_buffer c = []"
    using echo_state(1) by blast
  have bytes: "cs_buffer c @ [1, 0, 0, 0, 1] = frames (e_room_proto echo_env) [?m] @ []"
    using c(2) echo_frames by (simp add: echo_env_simps)
  have ok: "\<forall>m \<in> set ([?m] @ []). frame_ok (e_room_proto echo_env) m"
    by (simp add: frame_ok_def proto_ok_def echo_env_simps echo_proto_def demo_proto_def demo_table_def
        MAX_MESSAGE_SIZE_def)
  have part: "partial_of (e_room_proto echo_env) [] []" by (simp add: partial_of_def)
  have fresh: "uuids_fresh (m_rng (ClientSession_onRead echo_env (Some [1, 0, 0, 0, 1]) 0 (rp_server echo_connected)))"
    by (simp add: echo_state demo_fresh)
  have "room_abs (ClientSession_onRead echo_env (Some [1, 0, 0, 0, 1]) 0 (rp_server echo_connected)) =
      lobby_exec 2 4 (Open_room demo_id0 ''alice'' ''Alice'' ''room'' 2) rs_init"
    using client_bytes_refine_room_spec [OF echo_reachable c(1) bytes ok part fresh] echo_state(3)
    by (auto simp: echo_commands echo_abs echo_env_simps simp del: lobby_exec.simps)
  then show ?thesis by (auto simp: players_in_def rs_init_def split: if_splits)
qed

section \<open>Isolation\<close>

text \<open>A message amounts to at most one command, and the only one that takes players out of a room
  is that the session's own player leaves.\<close>

lemma player_commands_cases:
  "player_commands E sid m s = [] \<or>
   (\<exists>c. player_commands E sid m s = [c] \<and>
      (c = Leave_room (session_playerId sid s) \<or> (\<forall>a q. \<not> may_remove c a q)))"
  by (cases m) (simp_all add: player_commands_def player_requests_def departure_def)

text \<open>C11. A client cannot throw another player out of a room: whatever message arrives at a session,
  a player other than the session's own stays in the room it is in, under the same name, unless
  the session's player is the host of that room and in it.\<close>

theorem client_cannot_evict_others:
  assumes "room_reachable late E p"
    and "uuids_fresh (m_rng (ClientSession_processMessage E sid m (rp_server p)))"
    and "umap_find (m_rooms (rp_server p)) rid = Some r" and "x \<in> set (r_players r)"
    and "pd_player_id x \<noteq> session_playerId sid (rp_server p)"
    and "\<not> (isHost (session_playerId sid (rp_server p)) r \<and> hasPlayer (session_playerId sid (rp_server p)) r)"
  shows "\<exists>r' x'. umap_find (m_rooms (ClientSession_processMessage E sid m (rp_server p))) rid = Some r' \<and>
    x' \<in> set (r_players r') \<and> pd_player_id x' = pd_player_id x \<and> pd_player_name x' = pd_player_name x \<and>
    umap_find (m_player_to_room (ClientSession_processMessage E sid m (rp_server p))) (pd_player_id x) = Some rid"
proof -
  let ?s = "rp_server p" and ?s' = "ClientSession_processMessage E sid m (rp_server p)"
    and ?q = "session_playerId sid (rp_server p)"
  have safe: "rooms_safe E ?s" using assms(1) by (rule reachable_rooms_safe)
  have inv: "consistent E ?s" using safe rng_ext_process assms(2) by (rule consistent_before)
  have inv': "consistent E ?s'" using rooms_safe_process [OF safe] assms(2) by (rule rooms_safe_consistent)
  have x: "rs_members (room_abs ?s) (pd_player_id x) = Some (abs_member rid x)"
    using abs_member_iff [OF inv] assms(3,4) by (auto simp: room_abs_def)
  have leave: "\<not> may_remove (Leave_room ?q) (room_abs ?s) (pd_player_id x)"
    using assms(3,5,6) x players_in_abs [OF inv assms(3)]
    by (auto simp: isHost_def room_abs_def tables_abs_sel(2))
  consider (none) "player_commands E sid m ?s = []"
    | (one) c where "player_commands E sid m ?s = [c]" "c = Leave_room ?q \<or> (\<forall>a q. \<not> may_remove c a q)"
    using player_commands_cases [of E sid m ?s] by blast
  then have "\<exists>m'. rs_members (room_abs ?s') (pd_player_id x) = Some m' \<and> sm_room m' = rid \<and> sm_name m' = pd_player_name x"
  proof cases
    case none
    then show ?thesis using x process_refines [OF safe assms(2)] by simp
  next
    case one
    then show ?thesis
      using leave only_may_remove [OF x, of c "e_max_rooms E" "e_max_players_per_room E"]
        process_refines [OF safe assms(2)] by auto
  qed
  then obtain m' where m': "rs_members (room_abs ?s') (pd_player_id x) = Some m'" "sm_room m' = rid"
    "sm_name m' = pd_player_name x" by blast
  then obtain r' x' where r': "umap_find (m_rooms ?s') rid = Some r'" "x' \<in> set (r_players r')"
    "pd_player_id x' = pd_player_id x" "pd_player_name x' = pd_player_name x"
    using abs_member_iff [OF inv'] by (auto simp: room_abs_def)
  then have "umap_find (m_player_to_room ?s') (pd_player_id x) = Some rid"
    using index_memberD [OF rooms_invD(3) [OF inv'] r'(1)] by (metis image_eqI list.set_map playerIds_def)
  with r' show ?thesis by blast
qed

theorem client_cannot_evict_others_witness:
  "\<exists>p. room_reachable False demo_env p \<and> session_playerId 1 (rp_server p) = ''bob'' \<and>
     umap_find (m_player_to_room (ClientSession_processMessage demo_env 1 LeaveRoom (rp_server p))) ''alice'' = Some demo_id0"
proof -
  let ?alice = "\<lparr>pd_player_id = ''alice'', pd_player_name = ''Alice'', pd_is_ready = False, pd_is_host = True\<rparr>"
  have "\<exists>p. room_reachable False demo_env p \<and>
      (session_playerId 1 (rp_server p) = ''bob'' \<and> m_rng (rp_server p) = demo_rng 4 \<and>
       (\<exists>r. umap_find (m_rooms (rp_server p)) demo_id0 = Some r \<and> ?alice \<in> set (r_players r) \<and> r_host_id r = ''alice''))"
    by (rule demo_reachable_exists [where evs = "[ev_connect, ev_msg 0 1, ev_connect, ev_msg 1 2]"])
      (simp add: demo_simps)
  then obtain p r where p: "room_reachable False demo_env p" "session_playerId 1 (rp_server p) = ''bob''"
    "m_rng (rp_server p) = demo_rng 4" "umap_find (m_rooms (rp_server p)) demo_id0 = Some r"
    "?alice \<in> set (r_players r)" "r_host_id r = ''alice''" by blast
  have "uuids_fresh (m_rng (ClientSession_processMessage demo_env 1 LeaveRoom (rp_server p)))"
    by (simp add: ClientSession_processMessage_def ClientSession_dispatch_def demo_env_simps p(3) demo_fresh)
  from client_cannot_evict_others [OF p(1) this p(4,5)] p(1,2,6) show ?thesis
    by (intro exI [of _ p]) (auto simp: isHost_def)
qed

end
