(* ===== verification/RoomScenarios.thy ===== *)
theory RoomScenarios
  imports RoomLobby RoomSpecProperties
begin

text \<open>
  Where the room server ends up although it should not. The first two sections show, for any
  state of the server, how it gets there and what follows; the last has runs of the small
  environment whose last state is of the kind described.
\<close>

section \<open>A game without players\<close>

text \<open>The room \<open>rid\<close> is in the game \<open>i\<close> and nobody is in it. No command but the loss of the game
  server changes that.\<close>

definition empty_game :: "string \<Rightarrow> string \<Rightarrow> room_spec \<Rightarrow> bool" where
  "empty_game rid i a \<longleftrightarrow> map_option sr_game (rs_rooms a rid) = Some (Some i) \<and> players_in a rid = {}"

lemma empty_game_stays:
  assumes "empty_game rid i a" and "c \<noteq> Lose_games"
    and "\<And>p pn n cap. c = Open_room rid p pn n cap \<Longrightarrow> lobby_exec mr mp c a = a"
  shows "empty_game rid i (lobby_exec mr mp c a)"
proof -
  obtain r where r: "rs_rooms a rid = Some r" "sr_game r = Some i" using assms(1) by (auto simp: empty_game_def)
  have none: "players_in a rid = {}" using assms(1) by (simp add: empty_game_def)
  have other: "sm_room m \<noteq> rid" if "rs_members a p = Some m" for p m using that none by (auto simp: players_in_def)
  have running: "game_running a" using r by (auto simp: game_running_def)
  show ?thesis
  proof (cases c)
    case (Open_room rid' p pn n cap)
    then show ?thesis
      using assms(1,3) other r none by (cases "rid' = rid") (auto simp: empty_game_def players_in_def)
  next
    case (Enter_room p pn rid')
    then show ?thesis
      using r none other by (cases "rid' = rid") (auto simp: empty_game_def players_in_def split: option.split)
  next
    case (Leave_room p)
    then show ?thesis
      using r none other by (cases "rs_members a p") (auto simp: empty_game_def)
  next
    case (Flip_ready p)
    then show ?thesis
      using r none other by (cases "rs_members a p") (auto simp: empty_game_def players_in_def)
  next
    case (Begin_game p j)
    then show ?thesis
      using r none running by (cases "rs_members a p") (auto simp: empty_game_def split: option.split)
  next
    case (Free_slot p j)
    then show ?thesis
      using r none other by (cases "rs_members a p") (auto simp: empty_game_def)
  qed (use assms(2) in simp)
qed

lemma empty_game_run:
  "empty_game rid i a \<Longrightarrow> Lose_games \<notin> set cs \<Longrightarrow> opens_new E cs a \<Longrightarrow>
   empty_game rid i (fold (lobby_cmd E) cs a)"
proof (induction cs arbitrary: a)
  case (Cons c cs)
  have "empty_game rid i (lobby_cmd E c a)"
  proof (rule empty_game_stays [OF Cons.prems(1)])
    show "c \<noteq> Lose_games" using Cons.prems(2) by auto
    show "lobby_cmd E c a = a" if "c = Open_room rid p pn n cap" for p pn n cap
      using Cons.prems(1,3) that by (auto simp: empty_game_def simp del: lobby_exec.simps)
  qed
  with Cons show ?case by (simp del: lobby_exec.simps)
qed simp

text \<open>How a game loses its last player: the slot of the host is released, then the other one leaves.\<close>

lemma game_empties:
  assumes "rs_rooms a rid = Some r" "sr_game r = Some i" "sr_host r = host" "players_in a rid = {host, q}" "host \<noteq> q"
    and "j = [] \<or> j = i"
  shows "empty_game rid i (fold (lobby_exec mr mp) [Free_slot host j, Leave_room q] a)"
proof -
  obtain mh mq where m: "rs_members a host = Some mh" "sm_room mh = rid" "rs_members a q = Some mq" "sm_room mq = rid"
  proof -
    have "host \<in> players_in a rid" "q \<in> players_in a rid" using assms(4) by simp_all
    then show ?thesis using that by (auto simp: players_in_def)
  qed
  have "lobby_exec mr mp (Free_slot host j) a = drop_member host a"
    using m assms by (auto simp: doubleton_eq_iff)
  moreover have "lobby_exec mr mp (Leave_room q) (drop_member host a) = drop_member q (drop_member host a)"
    using m assms by simp
  ultimately show ?thesis using assms by (simp add: empty_game_def del: lobby_exec.simps)
qed

text \<open>C33. An empty game blocks the server. Two players are in a game, the game server releases the slot
  of the host, and the other player then leaves or loses its connection instead of being released:
  \<open>handleLeaveRoom\<close> removes a room only when its host leaves, so the room stays in game without
  players. Whatever happens afterwards, short of the loss of a game server (the commands \<open>cs\<close> of the
  rest of the run are any others), the room is still there, in the same game and empty, and every
  host who wants to start a game is refused as \<open>GAME_SERVER_BUSY\<close>, with no other effect.\<close>

theorem empty_game_blocks_server:
  assumes "room_reachable late E p"
    and room: "umap_find (m_rooms (rp_server p)) rid = Some r" "r_state r = ROOM_IN_GAME"
      "isHost host r" "set (playerIds r) = {host, q}" "host \<noteq> q" "j = [] \<or> j = r_session_id r"
    and run: "room_goes late E p (Free_slot host j # Leave_room q # cs) p'" "Lose_games \<notin> set cs"
      "uuids_fresh (m_rng (rp_server p'))"
  shows "(\<exists>r'. umap_find (m_rooms (rp_server p')) rid = Some r' \<and> r_state r' = ROOM_IN_GAME \<and>
      r_session_id r' = r_session_id r \<and> playerIds r' = []) \<and>
    (\<forall>other rid' room. umap_find (m_player_to_room (rp_server p')) other = Some rid' \<longrightarrow>
      umap_find (m_rooms (rp_server p')) rid' = Some room \<longrightarrow> isHost other room \<longrightarrow>
      handleStartGame E other (rp_server p') =
        sendTo E other (Reject GAME_SERVER_BUSY ''Game server is currently in use'') (rp_server p'))"
proof -
  let ?s = "rp_server p" and ?s' = "rp_server p'"
  let ?a = "room_abs ?s" and ?i = "r_session_id r"
  have safe: "rooms_safe E ?s" using assms(1) by (rule reachable_rooms_safe)
  have gov: "governed E ?s (Free_slot host j # Leave_room q # cs) ?s'" using run(1) safe by (rule governed_goes)
  then have ext: "rng_ext (m_rng ?s) (m_rng ?s')" by (simp add: governed_def)
  have inv: "consistent E ?s" using safe ext run(3) by (rule consistent_before)
  have inv': "consistent E ?s'" using governed_safe [OF gov] run(3) by (rule rooms_safe_consistent)
  have refines: "room_abs ?s' = fold (lobby_cmd E) cs (fold (lobby_cmd E) [Free_slot host j, Leave_room q] ?a)"
    "opens_new E cs (fold (lobby_cmd E) [Free_slot host j, Leave_room q] ?a)"
    using gov run(3) by (simp_all add: governed_def del: lobby_exec.simps)
  have "empty_game rid ?i (fold (lobby_cmd E) [Free_slot host j, Leave_room q] ?a)"
    by (rule game_empties [where r = "abs_room r"])
      (use room players_in_abs [OF inv room(1)] in \<open>simp_all add: room_abs_def tables_abs_sel isHost_def\<close>)
  from empty_game_run [OF this run(2) refines(2)] have empty: "empty_game rid ?i (room_abs ?s')"
    by (simp only: refines(1))
  then obtain r' where r': "umap_find (m_rooms ?s') rid = Some r'" "r_state r' = ROOM_IN_GAME" "r_session_id r' = ?i"
    by (auto simp: empty_game_def room_abs_def tables_abs_sel split: if_splits)
  moreover from this have "playerIds r' = []"
    using empty players_in_abs [OF inv' r'(1)] by (simp add: empty_game_def room_abs_def)
  moreover have "hasActiveGame ?s'"
    using map_of_SomeD [OF r'(1)] r'(2) by (fastforce simp: hasActiveGame_def list_ex_iff)
  ultimately show ?thesis by (simp add: handleStartGame_def)
qed

text \<open>Alice and Bob play; Alice's slot is released and Bob's connection is lost; Alice comes back on
  another connection, creates a room and cannot start.\<close>

definition demo_playing :: "room_event list" where
  "demo_playing = [ev_connect, ev_msg 0 1, ev_connect, ev_msg 1 2, ev_msg 1 3, ev_msg 0 4, Ev_game_accept False]"

definition demo_emptied :: "room_event list" where
  "demo_emptied = [ev_game_msg 2 6, ev_lost 1, ev_connect, ev_msg 3 1]"

lemma demo_blocked:
  "\<exists>p p' r. room_run False demo_env demo_playing demo_start = Some p \<and> room_run False demo_env demo_emptied p = Some p' \<and>
     (umap_find (m_rooms (rp_server p)) demo_id0 = Some r \<and> r_state r = ROOM_IN_GAME \<and> r_host_id r = ''alice'' \<and>
      playerIds r = [''alice'', ''bob'']) \<and>
     run_commands False demo_env demo_emptied p =
       [Free_slot ''alice'' [], Leave_room ''bob'', Open_room demo_id4 ''alice'' ''Alice'' ''room'' 2] \<and>
     m_rng (rp_server p') = demo_rng 20 \<and> umap_find (m_player_to_room (rp_server p')) ''alice'' = Some demo_id4 \<and>
     umap_find (m_rooms (rp_server p')) demo_id4 = Some (Room_new demo_id4 ''room'' ''alice'' ''Alice'' 2)"
proof -
  have other: "demo_id4 \<noteq> demo_id0" using demo_ids_distinct by auto
  show ?thesis by (simp add: demo_playing_def demo_emptied_def demo_commands_simps other)
qed

theorem empty_game_blocks_server_witness:
  "\<exists>p'. room_reachable False demo_env p' \<and>
     umap_find (m_player_to_room (rp_server p')) ''alice'' = Some demo_id4 \<and>
     handleStartGame demo_env ''alice'' (rp_server p') =
       sendTo demo_env ''alice'' (Reject GAME_SERVER_BUSY ''Game server is currently in use'') (rp_server p')"
proof -
  obtain p p' r where run: "room_run False demo_env demo_playing demo_start = Some p"
      "room_run False demo_env demo_emptied p = Some p'"
    and r: "umap_find (m_rooms (rp_server p)) demo_id0 = Some r" "r_state r = ROOM_IN_GAME" "r_host_id r = ''alice''"
      "playerIds r = [''alice'', ''bob'']"
    and cs: "run_commands False demo_env demo_emptied p =
       [Free_slot ''alice'' [], Leave_room ''bob'', Open_room demo_id4 ''alice'' ''Alice'' ''room'' 2]"
    and p': "m_rng (rp_server p') = demo_rng 20" "umap_find (m_player_to_room (rp_server p')) ''alice'' = Some demo_id4"
      "umap_find (m_rooms (rp_server p')) demo_id4 = Some (Room_new demo_id4 ''room'' ''alice'' ''Alice'' 2)"
    using demo_blocked by blast
  have reach: "room_reachable False demo_env p"
    using room_run_reachable [OF room_init run(1) [unfolded demo_start_def]] .
  have goes: "room_goes False demo_env p
      (Free_slot ''alice'' [] # Leave_room ''bob'' # [Open_room demo_id4 ''alice'' ''Alice'' ''room'' 2]) p'"
    using room_run_goes [OF goes_stay run(2)] cs by simp
  have "isHost ''alice'' r" "set (playerIds r) = {''alice'', ''bob''}" using r(3,4) by (simp_all add: isHost_def)
  from empty_game_blocks_server [OF reach r(1,2) this _ _ goes] p'(1) demo_fresh(5)
  have "\<forall>other rid' room. umap_find (m_player_to_room (rp_server p')) other = Some rid' \<longrightarrow>
      umap_find (m_rooms (rp_server p')) rid' = Some room \<longrightarrow> isHost other room \<longrightarrow>
      handleStartGame demo_env other (rp_server p') =
        sendTo demo_env other (Reject GAME_SERVER_BUSY ''Game server is currently in use'') (rp_server p')"
    by simp
  moreover have "isHost ''alice'' (Room_new demo_id4 ''room'' ''alice'' ''Alice'' 2)"
    by (simp add: isHost_def Room_new_def)
  ultimately have "handleStartGame demo_env ''alice'' (rp_server p') =
      sendTo demo_env ''alice'' (Reject GAME_SERVER_BUSY ''Game server is currently in use'') (rp_server p')"
    using p'(2,3) by blast
  with p'(2) room_goes_reachable [OF goes reach] show ?thesis by blast
qed

section \<open>A released session\<close>

lemma slot_parts:
  assumes "umap_find (m_player_to_room s) q = Some rid" and "umap_find (m_rooms s) rid = Some r"
    and "i = [] \<or> r_session_id r = i"
  shows "cview (handleSlotReleased E q i s) = cview s"
    and "m_sessions (handleSlotReleased E q i s) = umap_erase q (m_sessions s)"
    and "umap_find (m_player_to_room (handleSlotReleased E q i s)) q = None"
  using assms by (auto simp: handleSlotReleased_def Let_def)

lemma create_parts:
  assumes "umap_find (m_sessions s) q = None" and "session_playerId sid s = []"
    and "umap_find (m_player_to_room s) q = None" and "length (m_rooms s) < unat (e_max_rooms E)"
    and "1 \<le> cap" and "cap \<le> e_max_players_per_room E"
  shows "m_sessions (handleCreateRoom E q pn n cap sid s) = umap_put q sid (m_sessions s)"
    and "umap_find (m_player_to_room (handleCreateRoom E q pn n cap sid s)) q = Some (fst (generateUuid (m_rng s)))"
    and "cview (handleCreateRoom E q pn n cap sid s) w =
      (if w = sid then map_option (\<lambda>(_, closed). (q, closed)) (cview s sid) else cview s w)"
proof -
  have "\<not> cap < 1" "\<not> cap > e_max_players_per_room E" using assms(5,6) by (auto simp: not_less)
  moreover have "\<not> unat (e_max_rooms E) \<le> length (m_rooms s)" using assms(4) by simp
  ultimately show "m_sessions (handleCreateRoom E q pn n cap sid s) = umap_put q sid (m_sessions s)"
    and "umap_find (m_player_to_room (handleCreateRoom E q pn n cap sid s)) q = Some (fst (generateUuid (m_rng s)))"
    and "cview (handleCreateRoom E q pn n cap sid s) w =
      (if w = sid then map_option (\<lambda>(_, closed). (q, closed)) (cview s sid) else cview s w)"
    using assms(1-3)
    by (auto simp: handleCreateRoom_def duplicate_player_def umap_contains_def Let_def case_prod_beta
        registerSession_def removeLobbySession_def set_session_player_def cview_upd_client setPlayerId_def cview_def
        next_uuid_def upd_client_def split: option.split)
qed

lemma lost_client_parts:
  assumes "cview s sid = Some (q, False)" and "q \<noteq> []"
  shows "umap_find (m_player_to_room (ClientSession_onRead E None sid s)) q = None"
    and "m_sessions (ClientSession_onRead E None sid s) = umap_erase q (m_sessions s)"
    and "w \<noteq> sid \<Longrightarrow> cview (ClientSession_onRead E None sid s) w = cview s w"
proof -
  have "session_playerId sid s = q" "\<not> client_closed sid s"
    using assms(1) by (auto simp: cview_def session_playerId_def client_closed_def)
  then have read: "ClientSession_onRead E None sid s = upd_client (setPlayerId []) sid (handleDisconnect E q
      (removeLobbySession sid (upd_client (\<lambda>c. c\<lparr>cs_closed := True, cs_heartbeat := False\<rparr>) sid
        (upd_client (\<lambda>c. c\<lparr>cs_reading := False\<rparr>) sid s))))"
    using assms(2) by (auto simp: ClientSession_onRead_def ClientSession_close_def Let_def client_closed_def
        session_playerId_def upd_client_def split: option.splits)
  show "umap_find (m_player_to_room (ClientSession_onRead E None sid s)) q = None"
    and "m_sessions (ClientSession_onRead E None sid s) = umap_erase q (m_sessions s)"
    and "w \<noteq> sid \<Longrightarrow> cview (ClientSession_onRead E None sid s) w = cview s w"
    by (simp_all add: read cview_upd_client)
qed

text \<open>C34. A released session keeps its player. When the game server releases the slot of a player,
  \<open>handleSlotReleased\<close> forgets the player's registration but not the \<open>player_id_\<close> of its session:
  the session \<open>old\<close> stays open and still carries the identifier. So the player can come back on a second
  connection \<open>new\<close> and create a room there. When the first connection is lost, \<open>close\<close> takes the player
  out of this room and unregisters it, although \<open>new\<close>, which now serves it, is open.\<close>

theorem stale_session_evicts_player:
  assumes "room_reachable False E p" and s: "s = rp_server p"
    and q: "umap_find (m_player_to_room s) q = Some rid" "umap_find (m_rooms s) rid = Some r" "q \<noteq> []"
      "i = [] \<or> r_session_id r = i" "umap_find (m_sessions s) q = Some old"
    and s1: "s1 = handleSlotReleased E q i s"
    and new: "m_clients s new = Some c" "\<not> cs_closed c" "cs_player_id c = []"
      "length (m_rooms s1) < unat (e_max_rooms E)" "1 \<le> cap" "cap \<le> e_max_players_per_room E"
    and s2: "s2 = handleCreateRoom E q pn n cap new s1"
    and s3: "s3 = ClientSession_onRead E None old s2"
  shows "(session_playerId old s1 = q \<and> \<not> client_closed old s1 \<and> umap_find (m_sessions s1) q = None) \<and>
    (umap_find (m_player_to_room s2) q \<noteq> None \<and> umap_find (m_sessions s2) q = Some new) \<and>
    (umap_find (m_player_to_room s3) q = None \<and> umap_find (m_sessions s3) q = None \<and>
     session_playerId new s3 = q \<and> \<not> client_closed new s3)"
proof -
  have view: "session_playerId w t = x \<and> \<not> client_closed w t" if "cview t w = Some (x, False)"
    for w x and t :: "'a room_server"
    using that by (auto simp: cview_def session_playerId_def client_closed_def)
  have old: "cview s old = Some (q, False)"
    using reachable_sess_safe [OF assms(1)] q(3,5) by (simp add: sess_safe_def s)
  have fresh: "cview s new = Some ([], False)" using new(1-3) by (simp add: cview_def)
  then have "new \<noteq> old" using old q(3) by auto
  note one = slot_parts [OF q(1,2,4), of E, folded s1]
  have "session_playerId new s1 = []" using view fresh by (simp add: one)
  note two = create_parts [OF _ this one(3) new(4-6), where pn = pn and n = n, folded s2, unfolded one, simplified]
  have "cview s2 old = Some (q, False)" using \<open>new \<noteq> old\<close> old by (simp add: two)
  note three = lost_client_parts [OF this q(3), where E = E, folded s3]
  have "cview s3 new = Some (q, False)" using \<open>new \<noteq> old\<close> fresh by (simp add: three two)
  with view [of s3] view [of s1 old q] old show ?thesis by (simp add: one two three)
qed

text \<open>Alice plays alone; a second connection is open.\<close>

lemma demo_second_connection:
  "\<exists>p. room_reachable False demo_env p \<and>
     (umap_find (m_player_to_room (rp_server p)) ''alice'' = Some demo_id0 \<and>
      (\<exists>r. umap_find (m_rooms (rp_server p)) demo_id0 = Some r) \<and>
      umap_find (m_sessions (rp_server p)) ''alice'' = Some 0 \<and>
      (\<exists>c. m_clients (rp_server p) 1 = Some c \<and> \<not> cs_closed c \<and> cs_player_id c = []) \<and>
      length (m_rooms (handleSlotReleased demo_env ''alice'' [] (rp_server p))) < 2)"
  by (rule demo_reachable_exists [where evs = "[ev_connect, ev_msg 0 1, ev_msg 0 4, ev_connect]"])
    (simp add: demo_simps)

theorem stale_session_evicts_player_witness:
  "\<exists>s. umap_find (m_player_to_room (handleCreateRoom demo_env ''alice'' ''Alice'' ''room'' 2 1
       (handleSlotReleased demo_env ''alice'' [] s))) ''alice'' \<noteq> None \<and>
     umap_find (m_player_to_room (ClientSession_onRead demo_env None 0
       (handleCreateRoom demo_env ''alice'' ''Alice'' ''room'' 2 1
         (handleSlotReleased demo_env ''alice'' [] s)))) ''alice'' = None"
proof -
  obtain p r c where p: "room_reachable False demo_env p"
    "umap_find (m_player_to_room (rp_server p)) ''alice'' = Some demo_id0"
    "umap_find (m_rooms (rp_server p)) demo_id0 = Some r" "umap_find (m_sessions (rp_server p)) ''alice'' = Some 0"
    and new: "m_clients (rp_server p) 1 = Some c" "\<not> cs_closed c" "cs_player_id c = []"
    and count: "length (m_rooms (handleSlotReleased demo_env ''alice'' [] (rp_server p))) < unat (e_max_rooms demo_env)"
    using demo_second_connection by (auto simp: demo_env_simps)
  have "(1 :: u32) \<le> 2" "2 \<le> e_max_players_per_room demo_env" by (simp_all add: demo_env_simps)
  from stale_session_evicts_player [OF p(1) refl p(2,3) _ _ p(4) refl new count this refl refl]
  show ?thesis by (intro exI [of _ "rp_server p"]) simp
qed

section \<open>Runs of the small environment\<close>

text \<open>A player with an empty identifier leaves its room behind: \<open>close\<close> takes the empty
  \<open>player_id_\<close> for a session without a player. The room stays although no session exists.\<close>

theorem empty_player_id_leaks_room:
  "\<exists>p. room_reachable False demo_env p \<and>
     (roomCount (rp_server p) = 1 \<and> m_clients (rp_server p) = Map.empty)"
  by (rule demo_reachable_exists [where evs = "[ev_connect, ev_msg 0 8, ev_lost 0, Ev_written 0 True,
      Ev_destroy 0]"])
    (simp add: demo_simps roomCount_def)

text \<open>A message that is handled after its session was closed creates a ghost: the read handler
  does not look at \<open>closed_\<close> before the first message, so if the heartbeat timer closes the
  session while a completed read is waiting, a \<open>CreateRoom\<close> in it still creates a room, and
  nothing removes the player again.\<close>

theorem late_read_creates_ghost_room:
  "\<exists>p. room_reachable True demo_env p \<and>
     (umap_find (m_player_to_room (rp_server p)) ''alice'' \<noteq> None \<and> m_clients (rp_server p) = Map.empty)"
  by (rule demo_reachable_exists [where evs = "[ev_connect, Ev_heartbeat 0, ev_msg 0 1,
      Ev_written 0 True, Ev_destroy 0]"])
    (simp add: demo_simps)

text \<open>A slot release without a session identifier also works on a room that has not started:
  it takes the host out of a waiting room, which then stays in the list although nobody can
  start it.\<close>

theorem slot_release_leaves_hostless_room:
  "\<exists>p. room_reachable False demo_env p \<and>
     (\<exists>r. umap_find (m_rooms (rp_server p)) demo_id0 = Some r \<and> r_state r = ROOM_WAITING \<and>
        playerIds r = [''bob''] \<and> r_host_id r = ''alice'')"
  by (rule demo_reachable_exists [where evs = "[ev_connect, ev_msg 0 1, ev_connect, ev_msg 1 2,
      Ev_game_accept False, ev_game_msg 2 6]"])
    (simp add: demo_simps)

end
