(* ===== verification/RoomWrites.thy ===== *)
theory RoomWrites
  imports RoomRuns
begin

text \<open>
  What holds of every single session of the room server, of players (\<open>ClientSession\<close>) and of game
  servers (\<open>GameServerSession\<close>). The locale lists what the handlers do to a session object; a pair of
  predicates that each of these keeps holds of every session in every reachable state. It is
  interpreted for the write queues: \<open>async_write\<close> is never started while another one is running on
  the same socket.
\<close>

locale room_session_predicate =
  fixes I :: "client_session \<Rightarrow> bool" and J :: "game_session \<Rightarrow> bool"
  assumes I_new: "I ClientSession_new"
    and I_push: "I c \<Longrightarrow> I (ClientSession_push f c)"
    and I_player: "I c \<Longrightarrow> I (setPlayerId p c)"
    and I_remote: "I c \<Longrightarrow> I (c\<lparr>cs_remote_ip := ip\<rparr>)"
    and I_reading: "I c \<Longrightarrow> I (c\<lparr>cs_reading := b\<rparr>)"
    and I_heartbeat: "I c \<Longrightarrow> I (c\<lparr>cs_heartbeat := b\<rparr>)"
    and I_buffer: "I c \<Longrightarrow> I (c\<lparr>cs_buffer := bs\<rparr>)"
    and I_close: "I c \<Longrightarrow> I (c\<lparr>cs_closed := True\<rparr>)"
    and I_written: "I c \<Longrightarrow> 0 < cs_writes c \<Longrightarrow> I (ClientSession_written c)"
    and I_failed: "I c \<Longrightarrow> 0 < cs_writes c \<Longrightarrow> I (c\<lparr>cs_writes := cs_writes c - 1, cs_closed := True\<rparr>)"
    and J_new: "J GameServerSession_new"
    and J_push: "J g \<Longrightarrow> J (GameServerSession_push f g)"
    and J_server: "J g \<Longrightarrow> J (g\<lparr>gs_server_id := i\<rparr>)"
    and J_reading: "J g \<Longrightarrow> J (g\<lparr>gs_reading := b\<rparr>)"
    and J_buffer: "J g \<Longrightarrow> J (g\<lparr>gs_buffer := bs\<rparr>)"
    and J_close: "J g \<Longrightarrow> J (g\<lparr>gs_closed := True\<rparr>)"
    and J_written: "J g \<Longrightarrow> 0 < gs_writes g \<Longrightarrow> J (GameServerSession_written g)"
    and J_failed: "J g \<Longrightarrow> 0 < gs_writes g \<Longrightarrow> J (g\<lparr>gs_writes := gs_writes g - 1, gs_closed := True\<rparr>)"
begin

definition every :: "'r room_server \<Rightarrow> bool" where
  "every s \<longleftrightarrow> (\<forall>sid c. m_clients s sid = Some c \<longrightarrow> I c) \<and> (\<forall>gid g. m_games s gid = Some g \<longrightarrow> J g)"

lemma every_same: "m_clients s = m_clients t \<Longrightarrow> m_games s = m_games t \<Longrightarrow> every s = every t"
  by (simp add: every_def)

lemma every_client:
  "every s \<Longrightarrow> (\<And>c. m_clients s sid = Some c \<Longrightarrow> I c \<Longrightarrow> I (f c)) \<Longrightarrow> every (upd_client f sid s)"
  by (auto simp: every_def upd_client_def split: option.split)

lemma every_game:
  "every s \<Longrightarrow> (\<And>g. m_games s gid = Some g \<Longrightarrow> J g \<Longrightarrow> J (f g)) \<Longrightarrow> every (upd_game f gid s)"
  by (auto simp: every_def upd_game_def split: option.split)

lemma every_fields [simp]:
  "every (s\<lparr>m_rooms := a\<rparr>) = every s" "every (s\<lparr>m_player_to_room := b\<rparr>) = every s"
  "every (s\<lparr>m_sessions := c\<rparr>) = every s" "every (s\<lparr>m_lobby_sessions := d\<rparr>) = every s"
  "every (s\<lparr>m_lobby_pending := e\<rparr>) = every s" "every (s\<lparr>m_lobby_waits := n\<rparr>) = every s"
  "every (s\<lparr>m_lobby_cancelled := n\<rparr>) = every s" "every (s\<lparr>m_next := n\<rparr>) = every s"
  "every (s\<lparr>m_chat := l\<rparr>) = every s" "every (s\<lparr>m_redis := r\<rparr>) = every s" "every (s\<lparr>m_rng := g\<rparr>) = every s"
  "every (upd_chat k s) = every s" "every (notifyRoomListChanged s) = every s"
  "every (return_to_lobby p s) = every s" "every (end_session E i s) = every s" "every (with_store E f s) = every s"
  "every (fold evict ps s) = every s" "every (addLobbySession sid s) = every s"
  "every (removeLobbySession sid s) = every s" "every (registerSession p sid s) = every s"
  "every (unregisterSession p s) = every s" "every (snd (issue_token E p i s)) = every s"
  by (simp_all add: every_def upd_chat_def addLobbySession_def removeLobbySession_def registerSession_def
      unregisterSession_def issue_token_def split: option.split prod.split sum.split)

lemma every_send: "every s \<Longrightarrow> every (session_send E e sid s)"
  unfolding session_send_def by (rule every_client) (simp_all add: ClientSession_send_def I_push)

lemma every_sendTo: "every s \<Longrightarrow> every (sendTo E p e s)"
  by (simp add: sendTo_def every_send split: option.split)

lemma every_reject: "every s \<Longrightarrow> every (sendRejectTo E sid reason msg s)"
  by (simp add: sendRejectTo_def every_send)

lemma every_broadcast:
  "every s \<Longrightarrow> every (broadcastToRoom E room e s)" "every s \<Longrightarrow> every (broadcastToRoom_except E room e p s)"
  by (auto simp: broadcastToRoom_def broadcastToRoom_except_def every_sendTo intro!: fold_keeps [where P = every])

lemma every_player: "every s \<Longrightarrow> every (set_session_player p sid s)"
  unfolding set_session_player_def by (rule every_client) (simp_all add: I_player)

lemma every_enter:
  "every s \<Longrightarrow> every (handleCreateRoom E p pn n cap sid s)" "every s \<Longrightarrow> every (handleJoinRoom E p pn rid sid s)"
  by (simp_all add: handleCreateRoom_def handleJoinRoom_def next_uuid_def Let_def every_reject every_send
      every_player every_broadcast split: option.split prod.split)

lemma every_removeRoom: "every s \<Longrightarrow> every (removeRoom E rid x s)"
  by (simp add: removeRoom_def Let_def every_broadcast split: option.split)

lemma every_leave: "every s \<Longrightarrow> every (handleLeaveRoom E p s)"
  by (simp add: handleLeaveRoom_def Let_def every_removeRoom every_broadcast split: option.split)

lemma every_toggle: "every s \<Longrightarrow> every (handleToggleReady E p s)"
  by (simp add: handleToggleReady_def Let_def every_broadcast split: option.split)

lemma every_game_start: "every s \<Longrightarrow> every (send_game_start E i p s)"
  by (simp add: send_game_start_def case_prod_beta every_sendTo)

lemma every_start: "every s \<Longrightarrow> every (handleStartGame E p s)"
  by (auto simp: handleStartGame_def next_uuid_def Let_def every_sendTo every_game_start
      intro!: fold_keeps [where P = every] split: option.split prod.split)

lemma every_list: "every s \<Longrightarrow> every (handleRoomListRequest E pg n sid s)"
  by (simp add: handleRoomListRequest_def Let_def every_send)

lemma every_disconnect: "every s \<Longrightarrow> every (handleDisconnect E p s)"
  by (simp add: handleDisconnect_def every_leave)

lemma every_slot: "every s \<Longrightarrow> every (handleSlotReleased E p i s)"
  by (simp add: handleSlotReleased_def Let_def split: option.split)

lemma every_game_disconnect: "every s \<Longrightarrow> every (handleGameServerDisconnect E s)"
  unfolding handleGameServerDisconnect_def Let_def
  by (rule fold_keeps [where P = every])
    (simp_all add: close_game_room_def Let_def every_broadcast split: option.split)

lemma every_lobby: "every s \<Longrightarrow> every (broadcastRoomListToLobby E s)"
  by (auto simp: broadcastRoomListToLobby_def Let_def every_send intro!: fold_keeps [where P = every]
      split: prod.split option.split)

lemmas every_handlers = every_enter every_leave every_toggle every_start every_list every_disconnect
  every_slot every_game_disconnect every_lobby

lemma close_parts:
  assumes "every (upd_client (\<lambda>c. c\<lparr>cs_closed := True\<rparr>) sid s)"
  shows "every (ClientSession_close E sid s) \<or> client_closed sid s"
proof -
  let ?s1 = "upd_client (\<lambda>c. c\<lparr>cs_closed := True, cs_heartbeat := False\<rparr>) sid s"
  have "?s1 = upd_client (\<lambda>c. c\<lparr>cs_heartbeat := False\<rparr>) sid (upd_client (\<lambda>c. c\<lparr>cs_closed := True\<rparr>) sid s)"
    by (auto simp: upd_client_def split: option.split)
  then have "every ?s1" using assms by (simp add: every_client I_heartbeat)
  then show ?thesis
    by (simp add: ClientSession_close_def Let_def every_client I_player every_disconnect)
qed

lemma every_close: "every s \<Longrightarrow> every (ClientSession_close E sid s)"
  using close_parts [of sid s E] by (auto simp: every_client I_close ClientSession_close_def)

lemma every_dispatch: "every s \<Longrightarrow> every (ClientSession_dispatch E m sid s)"
  by (cases m) (simp_all add: ClientSession_dispatch_def every_handlers)

lemma every_process: "every s \<Longrightarrow> every (ClientSession_processMessage E sid m s)"
  by (simp add: ClientSession_processMessage_def Let_def every_close every_send every_dispatch
      split: option.split prod.split sum.split)

lemma every_game_process: "every s \<Longrightarrow> every (GameServerSession_processMessage E S gid m s)"
  by (cases m) (auto simp: GameServerSession_processMessage_def handleTokenValidate_def Let_def every_slot
      handleGameServerHeartbeat_def game_send_def GameServerSession_send_def J_push J_server
      intro!: every_game split: prod.split)

end

sublocale room_session_predicate \<subseteq> clients: message_loop "e_room_proto E" "ClientSession_processMessage E sid"
  "client_closed sid" every for E :: "'r room_env" and sid
  by unfold_locales (rule every_process)

sublocale room_session_predicate \<subseteq> games: message_loop "e_room_proto E" "GameServerSession_processMessage E S gid"
  "\<lambda>_. False" every for E :: "'r room_env" and S gid
  by unfold_locales (rule every_game_process)

context room_session_predicate
begin

lemma every_rearm:
  "every s \<Longrightarrow> every (upd_client (\<lambda>c. ClientSession_doRead (resetHeartbeatTimer E c)) sid s)"
  by (rule every_client) (auto simp: ClientSession_doRead_def resetHeartbeatTimer_def I_reading I_heartbeat)

lemma every_read: "every s \<Longrightarrow> every (ClientSession_onRead E result sid s)"
  by (auto simp: ClientSession_onRead_def Let_def case_prod_beta
      intro!: every_close every_rearm every_client clients.loop_keeps I_reading I_buffer split: option.split)

lemma every_heartbeat: "every s \<Longrightarrow> every (ClientSession_onHeartbeat E sid s)"
  unfolding ClientSession_onHeartbeat_def by (intro every_close every_client I_heartbeat)

lemma every_written:
  assumes all: "every s" and c: "m_clients s sid = Some c" "0 < cs_writes c"
  shows "every (ClientSession_onWritten E ec sid s)"
proof (cases ec)
  case False
  with all c show ?thesis by (auto simp: ClientSession_onWritten_def I_written intro!: every_client)
next
  case True
  let ?s = "upd_client (\<lambda>c. c\<lparr>cs_writes := cs_writes c - 1\<rparr>) sid s"
  have "every (upd_client (\<lambda>c. c\<lparr>cs_writes := cs_writes c - 1, cs_closed := True\<rparr>) sid s)"
    using c by (intro every_client [OF all] I_failed) simp_all
  moreover have "upd_client (\<lambda>c. c\<lparr>cs_closed := True\<rparr>) sid ?s =
      upd_client (\<lambda>c. c\<lparr>cs_writes := cs_writes c - 1, cs_closed := True\<rparr>) sid s"
    by (auto simp: upd_client_def split: option.split)
  ultimately have closed: "every (upd_client (\<lambda>c. c\<lparr>cs_closed := True\<rparr>) sid ?s)" by simp
  have "upd_client (\<lambda>c. c\<lparr>cs_closed := True\<rparr>) sid ?s = ?s" if "client_closed sid ?s"
    using that c(1) by (cases c) (auto simp: upd_client_def client_closed_def)
  with closed close_parts [OF closed, of E] True show ?thesis
    by (auto simp: ClientSession_onWritten_def ClientSession_close_def)
qed

lemma every_game_close:
  assumes "every (upd_game (\<lambda>g. g\<lparr>gs_closed := True\<rparr>) gid s)" and "m_games s gid = Some g"
  shows "every (GameServerSession_close E gid s)"
proof (cases "gs_closed g")
  case True
  with assms(2) have "upd_game (\<lambda>g. g\<lparr>gs_closed := True\<rparr>) gid s = s" by (auto simp: upd_game_def fun_upd_idem)
  with True assms show ?thesis by (simp add: GameServerSession_close_def)
qed (use assms in \<open>simp add: GameServerSession_close_def Let_def every_game_disconnect\<close>)

lemma every_lost: "every s \<Longrightarrow> every (GameServerSession_close E gid s)"
proof (cases "m_games s gid")
  case (Some g)
  assume "every s"
  then show ?thesis by (intro every_game_close [OF _ Some] every_game J_close)
qed (simp add: GameServerSession_close_def)

lemma every_game_read: "every s \<Longrightarrow> every (GameServerSession_onRead E S result gid s)"
  by (auto simp: GameServerSession_onRead_def Let_def case_prod_beta GameServerSession_doRead_def
      intro!: every_lost every_game games.loop_keeps J_reading J_buffer split: option.split)

lemma every_game_written:
  assumes all: "every s" and g: "m_games s gid = Some g" "0 < gs_writes g"
  shows "every (GameServerSession_onWritten E ec gid s)"
proof (cases ec)
  case False
  with all g show ?thesis by (auto simp: GameServerSession_onWritten_def J_written intro!: every_game)
next
  case True
  let ?s = "upd_game (\<lambda>g. g\<lparr>gs_writes := gs_writes g - 1\<rparr>) gid s"
  have "every (upd_game (\<lambda>g. g\<lparr>gs_writes := gs_writes g - 1, gs_closed := True\<rparr>) gid s)"
    using g by (intro every_game [OF all] J_failed) simp_all
  moreover have "upd_game (\<lambda>g. g\<lparr>gs_closed := True\<rparr>) gid ?s =
      upd_game (\<lambda>g. g\<lparr>gs_writes := gs_writes g - 1, gs_closed := True\<rparr>) gid s"
    by (auto simp: upd_game_def split: option.split)
  ultimately have closed: "every (upd_game (\<lambda>g. g\<lparr>gs_closed := True\<rparr>) gid ?s)" by simp
  have "m_games ?s gid = Some (g\<lparr>gs_writes := gs_writes g - 1\<rparr>)" using g(1) by (simp add: upd_game_def)
  from every_game_close [OF closed this] True show ?thesis by (simp add: GameServerSession_onWritten_def)
qed

lemma every_destroy:
  "every s \<Longrightarrow> every (ClientSession_destroy E sid s)" "every s \<Longrightarrow> every (GameServerSession_destroy E gid s)"
proof -
  assume "every s"
  then have "every (s\<lparr>m_clients := (m_clients s)(sid := None)\<rparr>)" "every (s\<lparr>m_games := (m_games s)(gid := None)\<rparr>)"
    by (auto simp: every_def)
  with \<open>every s\<close> show "every (ClientSession_destroy E sid s)" "every (GameServerSession_destroy E gid s)"
    by (simp_all add: ClientSession_destroy_def GameServerSession_destroy_def Let_def every_disconnect
        every_game_disconnect split: option.split)
qed

lemma every_handler:
  assumes "room_handler late E s s'" and "every s"
  shows "every s'"
  using assms
  by (induction rule: room_handler.induct)
    (simp_all add: every_read every_heartbeat every_written every_destroy every_game_read every_game_written
      lobby_timer_fired_def lobby_timer_cancelled_def Let_def every_lobby)

lemma every_accept:
  assumes "every s"
  shows "every (ClientSession_start E remote sid (s\<lparr>m_clients := (m_clients s)(sid \<mapsto> ClientSession_new), m_next := n\<rparr>))"
    and "every (GameServerSession_start gid (s\<lparr>m_games := (m_games s)(gid \<mapsto> GameServerSession_new), m_next := n\<rparr>))"
proof -
  have "every (s\<lparr>m_clients := (m_clients s)(sid \<mapsto> ClientSession_new), m_next := n\<rparr>)"
    "every (s\<lparr>m_games := (m_games s)(gid \<mapsto> GameServerSession_new), m_next := n\<rparr>)"
    using assms by (auto simp: every_def I_new J_new)
  then show "every (ClientSession_start E remote sid (s\<lparr>m_clients := (m_clients s)(sid \<mapsto> ClientSession_new), m_next := n\<rparr>))"
    "every (GameServerSession_start gid (s\<lparr>m_games := (m_games s)(gid \<mapsto> GameServerSession_new), m_next := n\<rparr>))"
    by (simp_all add: ClientSession_start_def GameServerSession_start_def GameServerSession_doRead_def Let_def
        every_rearm every_client every_game I_remote J_reading)
qed

lemma every_step:
  assumes "room_step late E p p'" and "every (rp_server p)"
  shows "every (rp_server p')"
  using assms
  by (induction rule: room_step.induct)
    (simp_all add: every_handler process_defs every_accept RoomManager_stop_def split: option.split)

lemma every_reachable: "room_reachable late E p \<Longrightarrow> every (rp_server p)"
  by (induction rule: room_reachable.induct)
    (simp_all add: every_step, simp add: process_defs, simp add: every_def RoomManager_new_def)

end

section \<open>Write queues\<close>

definition client_writes_ok :: "client_session \<Rightarrow> bool" where
  "client_writes_ok c \<longleftrightarrow> cs_writes c \<le> 1 \<and> (cs_writes c = 1 \<longrightarrow> cs_write_queue c \<noteq> []) \<and>
     (\<not> cs_closed c \<longrightarrow> cs_write_queue c \<noteq> [] \<longrightarrow> cs_writes c = 1)"

definition game_writes_ok :: "game_session \<Rightarrow> bool" where
  "game_writes_ok g \<longleftrightarrow> gs_writes g \<le> 1 \<and> (gs_writes g = 1 \<longrightarrow> gs_write_queue g \<noteq> []) \<and>
     (\<not> gs_closed g \<longrightarrow> gs_write_queue g \<noteq> [] \<longrightarrow> gs_writes g = 1)"

interpretation room_writes: room_session_predicate client_writes_ok game_writes_ok
  by unfold_locales (auto simp: client_writes_ok_def game_writes_ok_def ClientSession_new_def GameServerSession_new_def
      ClientSession_push_def ClientSession_doWrite_def ClientSession_written_def setPlayerId_def
      GameServerSession_push_def GameServerSession_doWrite_def GameServerSession_written_def Let_def split: list.splits)

text \<open>C21. In every state a run of the room server reaches, no session of a player or of a game server
  has two writes outstanding at its socket, a write is only outstanding while its frame is in the
  queue (so its completion handler finds a frame to remove), and an open session with frames in its
  queue has a write outstanding, so no frame is stuck.\<close>

theorem room_writes_never_overlap:
  assumes "room_reachable late E p"
  shows "(\<forall>sid c. m_clients (rp_server p) sid = Some c \<longrightarrow>
      cs_writes c \<le> 1 \<and> (cs_writes c = 1 \<longrightarrow> cs_write_queue c \<noteq> []) \<and>
      (\<not> cs_closed c \<longrightarrow> cs_write_queue c \<noteq> [] \<longrightarrow> cs_writes c = 1)) \<and>
    (\<forall>gid g. m_games (rp_server p) gid = Some g \<longrightarrow>
      gs_writes g \<le> 1 \<and> (gs_writes g = 1 \<longrightarrow> gs_write_queue g \<noteq> []) \<and>
      (\<not> gs_closed g \<longrightarrow> gs_write_queue g \<noteq> [] \<longrightarrow> gs_writes g = 1))"
  using room_writes.every_reachable [OF assms]
  by (simp add: room_writes.every_def client_writes_ok_def game_writes_ok_def)

theorem room_writes_never_overlap_witness:
  "\<exists>p c. room_reachable False demo_env p \<and> m_clients (rp_server p) 0 = Some c \<and>
     length (cs_write_queue c) = 2 \<and> cs_writes c = 1"
proof -
  have "\<exists>p. room_reachable False demo_env p \<and>
      (\<exists>c. m_clients (rp_server p) 0 = Some c \<and> length (cs_write_queue c) = 2 \<and> \<not> cs_closed c)"
    by (rule demo_reachable_exists [where evs = "[ev_connect, ev_msg 0 1, ev_connect, ev_msg 1 2]"])
      (simp add: demo_simps)
  then obtain p c where p: "room_reachable False demo_env p" "m_clients (rp_server p) 0 = Some c"
    "length (cs_write_queue c) = 2" "\<not> cs_closed c" by blast
  then have "cs_write_queue c \<noteq> []" by auto
  with p room_writes_never_overlap [OF p(1)] show ?thesis by blast
qed

end
