(* ===== verification/ChatSession.thy ===== *)
theory ChatSession
  imports Codec ChatProto WritePump
begin

text \<open>
  The state of a \<open>ChatSession\<close> object (\<open>src/src/chat/server/ChatSession.h\<close>) and its write
  path, and the state of an \<open>InternalSession\<close> (\<open>src/src/chat/internal/InternalSession.h\<close>),
  which only reads. What the classes ask of the channel manager is in \<open>ChatSessions\<close>.

  In contrast to the sessions of the room server, \<open>send\<close> refuses a session that is closed.
\<close>

record chat_session =
  ct_player_id :: string
  ct_authenticated :: bool
  ct_closed :: bool
  ct_buffer :: "byte list"
  ct_write_queue :: "byte list list"
  ct_reading :: bool
  ct_heartbeat :: bool
  ct_writes :: nat
  ct_wire :: "byte list list"

definition ChatSession_new :: chat_session where
  "ChatSession_new = \<lparr>ct_player_id = [], ct_authenticated = False, ct_closed = False, ct_buffer = [],
     ct_write_queue = [], ct_reading = False, ct_heartbeat = False, ct_writes = 0, ct_wire = []\<rparr>"

definition ChatSession_setPlayerId :: "string \<Rightarrow> chat_session \<Rightarrow> chat_session" where
  "ChatSession_setPlayerId player_id c = c\<lparr>ct_player_id := player_id\<rparr>"

definition setAuthenticated :: "bool \<Rightarrow> chat_session \<Rightarrow> chat_session" where
  "setAuthenticated b c = c\<lparr>ct_authenticated := b\<rparr>"

definition ChatSession_doWrite :: "chat_session \<Rightarrow> chat_session" where
  "ChatSession_doWrite c =
     (if ct_write_queue c = [] then c else c\<lparr>ct_writes := Suc (ct_writes c)\<rparr>)"

definition ChatSession_push :: "byte list \<Rightarrow> chat_session \<Rightarrow> chat_session" where
  "ChatSession_push frame c =
     (if ct_closed c then c
      else
        let was_idle = (ct_write_queue c = []);
            c1 = c\<lparr>ct_write_queue := ct_write_queue c @ [frame]\<rparr>
        in if was_idle then ChatSession_doWrite c1 else c1)"

definition ChatSession_send :: "chat_envelope proto \<Rightarrow> chat_envelope \<Rightarrow> chat_session \<Rightarrow> chat_session" where
  "ChatSession_send P e c = ChatSession_push (encode P e) c"

text \<open>The completion handler of \<open>async_write\<close> without an error; a write is outstanding only
  while its frame is at the front of the queue, so the first case does not arise.\<close>

definition ChatSession_written :: "chat_session \<Rightarrow> chat_session" where
  "ChatSession_written c =
     (case ct_write_queue c of
        [] \<Rightarrow> c\<lparr>ct_writes := ct_writes c - 1\<rparr>
      | f # fs \<Rightarrow>
          let c1 = c\<lparr>ct_writes := ct_writes c - 1, ct_wire := ct_wire c @ [f], ct_write_queue := fs\<rparr>
          in if fs \<noteq> [] then ChatSession_doWrite c1 else c1)"

interpretation ct_pump: write_pump ct_write_queue ct_writes ct_wire "\<lambda>c. \<not> ct_closed c"
  ChatSession_push ChatSession_written
  by unfold_locales
    (auto simp: ChatSession_push_def ChatSession_doWrite_def ChatSession_written_def Let_def)

lemma ChatSession_push_fields [simp]:
  "ct_player_id (ChatSession_push f c) = ct_player_id c"
  "ct_authenticated (ChatSession_push f c) = ct_authenticated c"
  "ct_closed (ChatSession_push f c) = ct_closed c"
  "ct_buffer (ChatSession_push f c) = ct_buffer c"
  "ct_wire (ChatSession_push f c) = ct_wire c"
  "ct_write_queue (ChatSession_push f c) =
     (if ct_closed c then ct_write_queue c else ct_write_queue c @ [f])"
  by (simp_all add: ChatSession_push_def ChatSession_doWrite_def Let_def)

lemma ChatSession_written_fields [simp]:
  "ct_player_id (ChatSession_written c) = ct_player_id c"
  "ct_authenticated (ChatSession_written c) = ct_authenticated c"
  "ct_closed (ChatSession_written c) = ct_closed c"
  by (simp_all add: ChatSession_written_def ChatSession_doWrite_def Let_def split: list.splits)

record internal_session =
  in_closed :: bool
  in_buffer :: "byte list"
  in_reading :: bool

definition InternalSession_new :: internal_session where
  "InternalSession_new = \<lparr>in_closed = False, in_buffer = [], in_reading = False\<rparr>"

end
