(* ===== verification/ChannelManager.thy ===== *)
theory ChannelManager
  imports ChatSession Redis RateLimiter
begin

text \<open>
  \<open>ChannelManager\<close> of \<open>src/src/chat/channel/ChannelManager.cpp\<close>, the chat server's state and
  its message handlers, in the style of \<open>RoomManager\<close>: the record \<open>chat_server\<close> holds the
  members of the class, the session objects that are alive (a \<open>weak_ptr\<close> is an object
  identifier), the Redis server and the clock; \<open>chat_env\<close> holds what the constructors fix.

  \<open>h_created\<close> is not a member of the class: it records the session identifiers announced by
  the room server so far, for the theorems that rely on their being different.
\<close>

record player_state =
  ps_player_name :: string
  ps_session_id :: string
  ps_session :: nat
  ps_in_lobby :: bool

record session_channel =
  sc_members :: "string uset"
  sc_expected_players :: "string uset"

record 'r chat_env =
  ce_max_message_length :: u32
  ce_history_size :: u32
  ce_session_ttl :: int
  ce_redis :: "'r redis_api option"
  ce_rate_limiter :: "'r rate_limiter option"
  ce_heartbeat_timeout :: int
  ce_proto :: "chat_envelope proto"
  ce_SerializeAsString :: "chat_receive \<Rightarrow> string"
  ce_ParseFromString :: "string \<Rightarrow> chat_receive option"

record 'r chat_server =
  h_players :: "(string, player_state) umap"
  h_lobby_members :: "string uset"
  h_session_channels :: "(string, session_channel) umap"
  h_clients :: "nat \<rightharpoonup> chat_session"
  h_internals :: "nat \<rightharpoonup> internal_session"
  h_next :: nat
  h_redis :: 'r
  h_now :: "64 word"
  h_created :: "string list"

definition ChannelManager_new :: "'r \<Rightarrow> 64 word \<Rightarrow> 'r chat_server" where
  "ChannelManager_new r now = \<lparr>h_players = [], h_lobby_members = [], h_session_channels = [],
     h_clients = Map.empty, h_internals = Map.empty, h_next = 0, h_redis = r, h_now = now,
     h_created = []\<rparr>"

section \<open>Sessions\<close>

definition chat_upd :: "(chat_session \<Rightarrow> chat_session) \<Rightarrow> nat \<Rightarrow> 'r chat_server \<Rightarrow> 'r chat_server" where
  "chat_upd f sid s =
     (case h_clients s sid of None \<Rightarrow> s | Some c \<Rightarrow> s\<lparr>h_clients := (h_clients s)(sid \<mapsto> f c)\<rparr>)"

definition chat_session_send :: "'r chat_env \<Rightarrow> chat_envelope \<Rightarrow> nat \<Rightarrow> 'r chat_server \<Rightarrow> 'r chat_server" where
  "chat_session_send E e sid s = chat_upd (ChatSession_send (ce_proto E) e) sid s"

definition chat_lock :: "'r chat_server \<Rightarrow> nat \<Rightarrow> nat option" where
  "chat_lock s w = (if h_clients s w \<noteq> None then Some w else None)"

section \<open>Helpers\<close>

definition chat_sendTo :: "'r chat_env \<Rightarrow> string \<Rightarrow> chat_envelope \<Rightarrow> 'r chat_server \<Rightarrow> 'r chat_server" where
  "chat_sendTo E player_id e s =
     (case umap_find (h_players s) player_id of
        None \<Rightarrow> s
      | Some st \<Rightarrow>
          (case chat_lock s (ps_session st) of None \<Rightarrow> s | Some sid \<Rightarrow> chat_session_send E e sid s))"

definition sendError ::
  "'r chat_env \<Rightarrow> string \<Rightarrow> chat_error_code \<Rightarrow> string \<Rightarrow> 'r chat_server \<Rightarrow> 'r chat_server" where
  "sendError E player_id code msg s = chat_sendTo E player_id (ChatError code msg) s"

definition broadcastToLobby :: "'r chat_env \<Rightarrow> chat_envelope \<Rightarrow> 'r chat_server \<Rightarrow> 'r chat_server" where
  "broadcastToLobby E e s = fold (\<lambda>player_id. chat_sendTo E player_id e) (h_lobby_members s) s"

definition broadcastToSession ::
  "'r chat_env \<Rightarrow> string \<Rightarrow> chat_envelope \<Rightarrow> 'r chat_server \<Rightarrow> 'r chat_server" where
  "broadcastToSession E session_id e s =
     (case umap_find (h_session_channels s) session_id of
        None \<Rightarrow> s
      | Some ch \<Rightarrow> fold (\<lambda>player_id. chat_sendTo E player_id e) (sc_members ch) s)"

fun all_whitespace :: "string \<Rightarrow> bool" where
  "all_whitespace [] = True"
| "all_whitespace (c # cs) =
     (if c \<noteq> CHR '' '' \<and> c \<noteq> CHR 0x09 \<and> c \<noteq> CHR 0x0A \<and> c \<noteq> CHR 0x0D then False else all_whitespace cs)"

definition validateMessage ::
  "'r chat_env \<Rightarrow> string \<Rightarrow> string \<Rightarrow> 'r chat_server \<Rightarrow> bool \<times> 'r chat_server" where
  "validateMessage E player_id content s =
     (if content = [] \<or> all_whitespace content then
        (False, sendError E player_id MESSAGE_TOO_LONG ''Message cannot be empty'' s)
      else if length content > unat (ce_max_message_length E) then
        (False, sendError E player_id MESSAGE_TOO_LONG
           (''Message too long (max '' @ to_string (unat (ce_max_message_length E)) @ '' bytes)'') s)
      else (True, s))"

definition currentTimestampMs :: "'r chat_server \<Rightarrow> 64 word" where
  "currentTimestampMs s = h_now s"

definition history_key :: "string \<Rightarrow> string" where
  "history_key session_id = ''chat:history:'' @ session_id @ '':ALL''"

definition session_key :: "string \<Rightarrow> string" where
  "session_key session_id = ''chat:session:'' @ session_id"

text \<open>\<open>if (redis_) try { ... } catch (...) { log }\<close>.\<close>

definition with_redis ::
  "'r chat_env \<Rightarrow> ('r redis_api \<Rightarrow> ('r, 'a) redis_op) \<Rightarrow> 'r chat_server \<Rightarrow> 'r chat_server" where
  "with_redis E f s =
     (case ce_redis E of None \<Rightarrow> s | Some R \<Rightarrow> s\<lparr>h_redis := rtry (f R) (h_redis s)\<rparr>)"

definition saveToHistory :: "'r chat_env \<Rightarrow> string \<Rightarrow> chat_receive \<Rightarrow> 'r chat_server \<Rightarrow> 'r chat_server" where
  "saveToHistory E session_id receive s =
     with_redis E (\<lambda>R.
       rbind (RedisClient_lpush R (history_key session_id) (ce_SerializeAsString E receive)) (\<lambda>_.
       rbind (RedisClient_ltrim R (history_key session_id) 0 (uint (ce_history_size E) - 1)) (\<lambda>_.
       RedisClient_expire R (history_key session_id) (ce_session_ttl E)))) s"

definition sendHistory :: "'r chat_env \<Rightarrow> string \<Rightarrow> string \<Rightarrow> 'r chat_server \<Rightarrow> 'r chat_server" where
  "sendHistory E player_id session_id s =
     (case ce_redis E of
        None \<Rightarrow> s
      | Some R \<Rightarrow>
          (case RedisClient_lrange R (history_key session_id) 0 (uint (ce_history_size E) - 1) (h_redis s) of
             (Inl _, r) \<Rightarrow> s\<lparr>h_redis := r\<rparr>
           | (Inr messages, r) \<Rightarrow>
               fold (\<lambda>m s. case ce_ParseFromString E m of
                   None \<Rightarrow> s
                 | Some receive \<Rightarrow> chat_sendTo E player_id (ChatReceive receive) s)
                 (rev messages) (s\<lparr>h_redis := r\<rparr>)))"

section \<open>Authentication and disconnect\<close>

text \<open>What \<open>handleAuth\<close> does with the old state of a player and \<open>handleDisconnect\<close> with the
  current one.\<close>

definition forget_player :: "string \<Rightarrow> player_state \<Rightarrow> 'r chat_server \<Rightarrow> 'r chat_server" where
  "forget_player player_id st s =
     (let s1 = s\<lparr>h_lobby_members := uset_erase player_id (h_lobby_members s)\<rparr>;
          s2 = (if ps_session_id st \<noteq> [] then
                  (case umap_find (h_session_channels s1) (ps_session_id st) of
                     None \<Rightarrow> s1
                   | Some ch \<Rightarrow> s1\<lparr>h_session_channels := umap_put (ps_session_id st)
                       (ch\<lparr>sc_members := uset_erase player_id (sc_members ch)\<rparr>) (h_session_channels s1)\<rparr>)
                else s1)
      in s2\<lparr>h_players := umap_erase player_id (h_players s2)\<rparr>)"

definition kick_existing :: "'r chat_env \<Rightarrow> nat option \<Rightarrow> nat \<Rightarrow> 'r chat_server \<Rightarrow> 'r chat_server" where
  "kick_existing E existing sid s =
     (case existing of
        None \<Rightarrow> s
      | Some old \<Rightarrow>
          if old \<noteq> sid then
            chat_session_send E (ChatError NOT_AUTHENTICATED ''Replaced by new connection'') old
              (chat_upd (\<lambda>c. setAuthenticated False (ChatSession_setPlayerId [] c)) old s)
          else s)"

definition replace_existing :: "'r chat_env \<Rightarrow> string \<Rightarrow> nat \<Rightarrow> 'r chat_server \<Rightarrow> 'r chat_server" where
  "replace_existing E player_id sid s =
     (case umap_find (h_players s) player_id of
        None \<Rightarrow> s
      | Some st \<Rightarrow> kick_existing E (chat_lock s (ps_session st)) sid (forget_player player_id st s))"

definition save_player ::
  "'r chat_env \<Rightarrow> string \<Rightarrow> string \<Rightarrow> string \<Rightarrow> 'r chat_server \<Rightarrow> 'r chat_server" where
  "save_player E player_id session_id player_name s =
     with_redis E (\<lambda>R.
       rbind (RedisClient_hset R (session_key session_id) player_id player_name) (\<lambda>_.
       rbind (RedisClient_setex R (''chat:player:'' @ player_id) session_id (ce_session_ttl E)) (\<lambda>_.
       rbind (RedisClient_setex R (''chat:name:'' @ player_id) player_name (ce_session_ttl E)) (\<lambda>_.
       RedisClient_expire R (session_key session_id) (ce_session_ttl E))))) s"

text \<open>The end of \<open>handleAuth\<close>, from \<open>players_[player_id] = std::move(state)\<close> on.\<close>

definition complete_auth ::
  "'r chat_env \<Rightarrow> string \<Rightarrow> string \<Rightarrow> string \<Rightarrow> nat \<Rightarrow> 'r chat_server \<Rightarrow> 'r chat_server" where
  "complete_auth E player_id session_id player_name sid s =
     (let st = \<lparr>ps_player_name = player_name, ps_session_id = session_id, ps_session = sid,
                ps_in_lobby = (session_id = [])\<rparr>;
          s1 = s\<lparr>h_players := umap_put player_id st (h_players s)\<rparr>;
          s2 = chat_upd (\<lambda>c. setAuthenticated True (ChatSession_setPlayerId player_id c)) sid s1;
          s3 = chat_session_send E (ChatAuthResult True []) sid s2
      in if session_id \<noteq> [] then sendHistory E player_id session_id s3 else s3)"

definition handleAuth ::
  "'r chat_env \<Rightarrow> string \<Rightarrow> string \<Rightarrow> string \<Rightarrow> nat \<Rightarrow> 'r chat_server \<Rightarrow> 'r chat_server" where
  "handleAuth E player_id session_id player_name sid s =
     (if player_id = [] \<or> player_name = [] then
        chat_session_send E (ChatAuthResult False ''player_id and player_name are required'') sid s
      else
        let s1 = replace_existing E player_id sid s
        in if session_id = [] then
             complete_auth E player_id session_id player_name sid
               (s1\<lparr>h_lobby_members := uset_insert player_id (h_lobby_members s1)\<rparr>)
           else
             (case umap_find (h_session_channels s1) session_id of
                None \<Rightarrow> chat_session_send E (ChatAuthResult False ''Session not found'') sid s1
              | Some ch \<Rightarrow>
                  complete_auth E player_id session_id player_name sid
                    (save_player E player_id session_id player_name
                      (s1\<lparr>h_session_channels := umap_put session_id
                         (ch\<lparr>sc_members := uset_insert player_id (sc_members ch)\<rparr>) (h_session_channels s1)\<rparr>))))"

definition chat_handleDisconnect :: "string \<Rightarrow> 'r chat_server \<Rightarrow> 'r chat_server" where
  "chat_handleDisconnect player_id s =
     (case umap_find (h_players s) player_id of
        None \<Rightarrow> s
      | Some st \<Rightarrow> forget_player player_id st s)"

section \<open>Messages\<close>

definition handleChatSend ::
  "'r chat_env \<Rightarrow> string \<Rightarrow> chat_channel \<Rightarrow> string \<Rightarrow> string \<Rightarrow> 'r chat_server \<Rightarrow> 'r chat_server" where
  "handleChatSend E player_id channel content whisper_target s =
     (case umap_find (h_players s) player_id of
        None \<Rightarrow> s
      | Some st \<Rightarrow>
          (case validateMessage E player_id content s of
             (False, s1) \<Rightarrow> s1
           | (True, s1) \<Rightarrow>
               let receive = \<lparr>rc_channel = channel, rc_sender_id = player_id,
                     rc_sender_name = ps_player_name st, rc_content = content,
                     rc_timestamp = currentTimestampMs s1\<rparr>;
                   e = ChatReceive receive
               in case channel of
                    CHANNEL_LOBBY \<Rightarrow>
                      if \<not> ps_in_lobby st
                      then sendError E player_id CHANNEL_NOT_JOINED ''Not in lobby channel'' s1
                      else broadcastToLobby E e s1
                  | CHANNEL_ALL \<Rightarrow>
                      if ps_session_id st = []
                      then sendError E player_id CHANNEL_NOT_JOINED ''Not in a game session'' s1
                      else saveToHistory E (ps_session_id st) receive
                             (broadcastToSession E (ps_session_id st) e s1)
                  | CHANNEL_WHISPER \<Rightarrow>
                      if whisper_target = []
                      then sendError E player_id PLAYER_NOT_FOUND ''Whisper target not specified'' s1
                      else if \<not> umap_contains (h_players s1) whisper_target
                      then sendError E player_id PLAYER_NOT_FOUND ''Player not found'' s1
                      else chat_sendTo E player_id e (chat_sendTo E whisper_target e s1)
                  | _ \<Rightarrow> sendError E player_id INVALID_CHANNEL ''Invalid channel'' s1))"

section \<open>Game sessions\<close>

text \<open>One round of the loop over the players of \<open>SessionCreated\<close>, on the set of expected players
  and the server.\<close>

definition announce_player ::
  "'r chat_env \<Rightarrow> string \<Rightarrow> string \<times> string \<Rightarrow> string uset \<times> 'r chat_server \<Rightarrow> string uset \<times> 'r chat_server" where
  "announce_player E session_id player acc =
     (case player of (player_id, player_name) \<Rightarrow>
      case acc of (expected, s) \<Rightarrow>
        (uset_insert player_id expected,
         with_redis E (\<lambda>R.
           rbind (RedisClient_hset R (session_key session_id) player_id player_name) (\<lambda>_.
           RedisClient_setex R (''chat:name:'' @ player_id) player_name (ce_session_ttl E))) s))"

definition handleSessionCreated ::
  "'r chat_env \<Rightarrow> string \<Rightarrow> (string \<times> string) list \<Rightarrow> 'r chat_server \<Rightarrow> 'r chat_server" where
  "handleSessionCreated E session_id players s =
     (let (expected, s1) = fold (announce_player E session_id) players ([], s);
          s2 = s1\<lparr>h_session_channels := umap_put session_id
                 \<lparr>sc_members = [], sc_expected_players = expected\<rparr> (h_session_channels s1),
                 h_created := h_created s1 @ [session_id]\<rparr>
      in with_redis E (\<lambda>R. RedisClient_expire R (session_key session_id) (ce_session_ttl E)) s2)"

definition move_to_lobby :: "string \<Rightarrow> 'r chat_server \<Rightarrow> 'r chat_server" where
  "move_to_lobby player_id s =
     (case umap_find (h_players s) player_id of
        None \<Rightarrow> s
      | Some st \<Rightarrow> s\<lparr>h_players := umap_put player_id (st\<lparr>ps_session_id := [], ps_in_lobby := True\<rparr>) (h_players s),
                      h_lobby_members := uset_insert player_id (h_lobby_members s)\<rparr>)"

definition handleSessionEnded :: "'r chat_env \<Rightarrow> string \<Rightarrow> 'r chat_server \<Rightarrow> 'r chat_server" where
  "handleSessionEnded E session_id s =
     (case umap_find (h_session_channels s) session_id of
        None \<Rightarrow> s
      | Some ch \<Rightarrow>
          let s1 = fold move_to_lobby (sc_members ch) s;
              s2 = s1\<lparr>h_session_channels := umap_erase session_id (h_session_channels s1)\<rparr>
          in with_redis E (\<lambda>R.
               rbind (RedisClient_del R (session_key session_id)) (\<lambda>_.
               RedisClient_del R (history_key session_id))) s2)"

end
