(* ===== verification/ChatSessions.thy ===== *)
theory ChatSessions
  imports ChannelManager
begin

text \<open>
  The session classes of the chat server together with the manager they call:
  \<open>ChatSession\<close> of \<open>src/src/chat/server/ChatSession.cpp\<close> and \<open>InternalSession\<close> of
  \<open>src/src/chat/internal/InternalSession.cpp\<close>.
\<close>

section \<open>Chat sessions\<close>

definition chat_closed :: "nat \<Rightarrow> 'r chat_server \<Rightarrow> bool" where
  "chat_closed sid s = (case h_clients s sid of None \<Rightarrow> True | Some c \<Rightarrow> ct_closed c)"

definition chat_playerId :: "nat \<Rightarrow> 'r chat_server \<Rightarrow> string" where
  "chat_playerId sid s = (case h_clients s sid of None \<Rightarrow> [] | Some c \<Rightarrow> ct_player_id c)"

definition isAuthenticated :: "nat \<Rightarrow> 'r chat_server \<Rightarrow> bool" where
  "isAuthenticated sid s = (case h_clients s sid of None \<Rightarrow> False | Some c \<Rightarrow> ct_authenticated c)"

definition chat_resetHeartbeatTimer :: "'r chat_env \<Rightarrow> chat_session \<Rightarrow> chat_session" where
  "chat_resetHeartbeatTimer E c = (if ce_heartbeat_timeout E \<le> 0 then c else c\<lparr>ct_heartbeat := True\<rparr>)"

definition ChatSession_doRead :: "chat_session \<Rightarrow> chat_session" where
  "ChatSession_doRead c = c\<lparr>ct_reading := True\<rparr>"

definition ChatSession_start :: "'r chat_env \<Rightarrow> nat \<Rightarrow> 'r chat_server \<Rightarrow> 'r chat_server" where
  "ChatSession_start E sid s = chat_upd (\<lambda>c. ChatSession_doRead (chat_resetHeartbeatTimer E c)) sid s"

definition ChatSession_close :: "nat \<Rightarrow> 'r chat_server \<Rightarrow> 'r chat_server" where
  "ChatSession_close sid s =
     (if chat_closed sid s then s
      else
        let s1 = chat_upd (\<lambda>c. c\<lparr>ct_closed := True, ct_heartbeat := False\<rparr>) sid s
        in if chat_playerId sid s1 \<noteq> []
           then chat_upd (ChatSession_setPlayerId []) sid (chat_handleDisconnect (chat_playerId sid s1) s1)
           else s1)"

text \<open>\<open>case Payload::kSend\<close>: only for an authenticated session, and limited per player; a
  limiter that throws lets the message pass.\<close>

definition ChatSession_onSend ::
  "'r chat_env \<Rightarrow> chat_channel \<Rightarrow> string \<Rightarrow> string \<Rightarrow> nat \<Rightarrow> 'r chat_server \<Rightarrow> 'r chat_server" where
  "ChatSession_onSend E channel content whisper_target sid s =
     (if \<not> isAuthenticated sid s then
        chat_session_send E (ChatError NOT_AUTHENTICATED ''Not authenticated'') sid s
      else case ce_rate_limiter E of
          None \<Rightarrow> handleChatSend E (chat_playerId sid s) channel content whisper_target s
        | Some L \<Rightarrow>
            (case allow L (chat_playerId sid s) (h_redis s) of
               (Inr allowed, r) \<Rightarrow>
                 let s1 = s\<lparr>h_redis := r\<rparr>
                 in if \<not> allowed
                    then chat_session_send E (ChatError CHAT_RATE_LIMITED ''Too many messages'') sid s1
                    else handleChatSend E (chat_playerId sid s1) channel content whisper_target s1
             | (Inl _, r) \<Rightarrow>
                 handleChatSend E (chat_playerId sid s) channel content whisper_target (s\<lparr>h_redis := r\<rparr>)))"

definition ChatSession_processMessage ::
  "'r chat_env \<Rightarrow> nat \<Rightarrow> chat_envelope \<Rightarrow> 'r chat_server \<Rightarrow> 'r chat_server" where
  "ChatSession_processMessage E sid env s =
     (case env of
        ChatAuth player_id session_id player_name \<Rightarrow> handleAuth E player_id session_id player_name sid s
      | ChatSend channel content whisper_target \<Rightarrow> ChatSession_onSend E channel content whisper_target sid s
      | ChatHeartbeat \<Rightarrow> s
      | _ \<Rightarrow> s)"

text \<open>The completion handlers, as for the client sessions of the room server.\<close>

definition ChatSession_onRead ::
  "'r chat_env \<Rightarrow> byte list option \<Rightarrow> nat \<Rightarrow> 'r chat_server \<Rightarrow> 'r chat_server" where
  "ChatSession_onRead E result sid s =
     (let s0 = chat_upd (\<lambda>c. c\<lparr>ct_reading := False\<rparr>) sid s
      in case result of
           None \<Rightarrow> ChatSession_close sid s0
         | Some data \<Rightarrow>
             let buffer = feed (case h_clients s0 sid of None \<Rightarrow> [] | Some c \<Rightarrow> ct_buffer c) data;
                 (rest, s1) = decode_loop (ce_proto E) (ChatSession_processMessage E sid)
                                (chat_closed sid) buffer s0;
                 s2 = chat_upd (\<lambda>c. c\<lparr>ct_buffer := rest\<rparr>) sid s1
             in if fst (tryDecode (ce_proto E) buffer) \<noteq> None \<and> chat_closed sid s2 then s2
                else chat_upd (\<lambda>c. ChatSession_doRead (chat_resetHeartbeatTimer E c)) sid s2)"

definition ChatSession_onHeartbeat :: "nat \<Rightarrow> 'r chat_server \<Rightarrow> 'r chat_server" where
  "ChatSession_onHeartbeat sid s =
     ChatSession_close sid (chat_upd (\<lambda>c. c\<lparr>ct_heartbeat := False\<rparr>) sid s)"

definition ChatSession_onWritten :: "bool \<Rightarrow> nat \<Rightarrow> 'r chat_server \<Rightarrow> 'r chat_server" where
  "ChatSession_onWritten ec sid s =
     (if ec then ChatSession_close sid (chat_upd (\<lambda>c. c\<lparr>ct_writes := ct_writes c - 1\<rparr>) sid s)
      else chat_upd ChatSession_written sid s)"

definition ChatSession_idle :: "chat_session \<Rightarrow> bool" where
  "ChatSession_idle c \<longleftrightarrow> \<not> ct_reading c \<and> \<not> ct_heartbeat c \<and> ct_writes c = 0"

definition ChatSession_destroy :: "nat \<Rightarrow> 'r chat_server \<Rightarrow> 'r chat_server" where
  "ChatSession_destroy sid s =
     (let s1 = s\<lparr>h_clients := (h_clients s)(sid := None)\<rparr>
      in if \<not> chat_closed sid s \<and> chat_playerId sid s \<noteq> []
         then chat_handleDisconnect (chat_playerId sid s) s1 else s1)"

section \<open>Internal sessions\<close>

definition internal_upd ::
  "(internal_session \<Rightarrow> internal_session) \<Rightarrow> nat \<Rightarrow> 'r chat_server \<Rightarrow> 'r chat_server" where
  "internal_upd f iid s =
     (case h_internals s iid of None \<Rightarrow> s | Some c \<Rightarrow> s\<lparr>h_internals := (h_internals s)(iid \<mapsto> f c)\<rparr>)"

definition InternalSession_doRead :: "internal_session \<Rightarrow> internal_session" where
  "InternalSession_doRead c = c\<lparr>in_reading := True\<rparr>"

definition InternalSession_start :: "nat \<Rightarrow> 'r chat_server \<Rightarrow> 'r chat_server" where
  "InternalSession_start iid s = internal_upd InternalSession_doRead iid s"

definition InternalSession_close :: "nat \<Rightarrow> 'r chat_server \<Rightarrow> 'r chat_server" where
  "InternalSession_close iid s = internal_upd (\<lambda>c. if in_closed c then c else c\<lparr>in_closed := True\<rparr>) iid s"

definition InternalSession_processMessage ::
  "'r chat_env \<Rightarrow> chat_envelope \<Rightarrow> 'r chat_server \<Rightarrow> 'r chat_server" where
  "InternalSession_processMessage E env s =
     (case env of
        SessionCreated session_id players \<Rightarrow> handleSessionCreated E session_id players s
      | SessionEnded session_id \<Rightarrow> handleSessionEnded E session_id s
      | _ \<Rightarrow> s)"

definition InternalSession_onRead ::
  "'r chat_env \<Rightarrow> byte list option \<Rightarrow> nat \<Rightarrow> 'r chat_server \<Rightarrow> 'r chat_server" where
  "InternalSession_onRead E result iid s =
     (let s0 = internal_upd (\<lambda>c. c\<lparr>in_reading := False\<rparr>) iid s
      in case result of
           None \<Rightarrow> InternalSession_close iid s0
         | Some data \<Rightarrow>
             let buffer = feed (case h_internals s0 iid of None \<Rightarrow> [] | Some c \<Rightarrow> in_buffer c) data;
                 (rest, s1) = decode_loop (ce_proto E) (InternalSession_processMessage E)
                                (\<lambda>_. False) buffer s0
             in internal_upd (\<lambda>c. InternalSession_doRead (c\<lparr>in_buffer := rest\<rparr>)) iid s1)"

definition InternalSession_destroy :: "nat \<Rightarrow> 'r chat_server \<Rightarrow> 'r chat_server" where
  "InternalSession_destroy iid s = s\<lparr>h_internals := (h_internals s)(iid := None)\<rparr>"

end
