(* ===== verification/ChatProcess.thy ===== *)
theory ChatProcess
  imports ChatSessions
begin

text \<open>
  The chat server process: \<open>src/src/chat/main.cpp\<close> with the acceptors \<open>ChatServer\<close> and
  \<open>InternalChannel\<close>, in the style of \<open>RoomProcess\<close>. Between two handlers Redis and the clock
  may change in any way, and the hash tables may be iterated in another order.
\<close>

record 'r chat_process =
  cp_server :: "'r chat_server"
  cp_accepting :: bool
  cp_acceptor_open :: bool
  cp_internal_accepting :: bool
  cp_internal_acceptor_open :: bool

definition ChatServer_doAccept :: "'r chat_process \<Rightarrow> 'r chat_process" where
  "ChatServer_doAccept p = p\<lparr>cp_accepting := True\<rparr>"

definition ChatServer_onAccept :: "'r chat_env \<Rightarrow> bool \<Rightarrow> 'r chat_process \<Rightarrow> 'r chat_process" where
  "ChatServer_onAccept E ec p =
     (let p0 = p\<lparr>cp_accepting := False\<rparr>
      in if ec then p0
         else
           let s = cp_server p0; sid = h_next s;
               s1 = s\<lparr>h_clients := (h_clients s)(sid \<mapsto> ChatSession_new), h_next := Suc sid\<rparr>
           in ChatServer_doAccept (p0\<lparr>cp_server := ChatSession_start E sid s1\<rparr>))"

definition ChatServer_start :: "'r chat_process \<Rightarrow> 'r chat_process" where
  "ChatServer_start p = ChatServer_doAccept p"

definition ChatServer_stop :: "'r chat_process \<Rightarrow> 'r chat_process" where
  "ChatServer_stop p = p\<lparr>cp_acceptor_open := False\<rparr>"

definition InternalChannel_doAccept :: "'r chat_process \<Rightarrow> 'r chat_process" where
  "InternalChannel_doAccept p = p\<lparr>cp_internal_accepting := True\<rparr>"

definition InternalChannel_onAccept :: "bool \<Rightarrow> 'r chat_process \<Rightarrow> 'r chat_process" where
  "InternalChannel_onAccept ec p =
     (let p0 = p\<lparr>cp_internal_accepting := False\<rparr>
      in if ec then p0
         else
           let s = cp_server p0; iid = h_next s;
               s1 = s\<lparr>h_internals := (h_internals s)(iid \<mapsto> InternalSession_new), h_next := Suc iid\<rparr>
           in InternalChannel_doAccept (p0\<lparr>cp_server := InternalSession_start iid s1\<rparr>))"

definition InternalChannel_start :: "'r chat_process \<Rightarrow> 'r chat_process" where
  "InternalChannel_start p = InternalChannel_doAccept p"

definition InternalChannel_stop :: "'r chat_process \<Rightarrow> 'r chat_process" where
  "InternalChannel_stop p = p\<lparr>cp_internal_acceptor_open := False\<rparr>"

definition chat_main :: "'r \<Rightarrow> 64 word \<Rightarrow> 'r chat_process" where
  "chat_main r now =
     InternalChannel_start (ChatServer_start
       \<lparr>cp_server = ChannelManager_new r now, cp_accepting = False, cp_acceptor_open = True,
        cp_internal_accepting = False, cp_internal_acceptor_open = True\<rparr>)"

definition chat_signal :: "'r chat_process \<Rightarrow> 'r chat_process" where
  "chat_signal p = InternalChannel_stop (ChatServer_stop p)"

section \<open>Runs\<close>

text \<open>Another iteration order: of a map, and of a set.\<close>

definition reordered :: "'a uset \<Rightarrow> 'a uset \<Rightarrow> bool" where
  "reordered xs ys \<longleftrightarrow> set ys = set xs \<and> distinct ys"

inductive chat_handler ::
  "bool \<Rightarrow> 'r chat_env \<Rightarrow> 'r chat_server \<Rightarrow> 'r chat_server \<Rightarrow> bool"
  for late E where
  chat_read: "h_clients s sid = Some c \<Longrightarrow> ct_reading c \<Longrightarrow> result = None \<or> \<not> ct_closed c \<or> late \<Longrightarrow>
    chat_handler late E s (ChatSession_onRead E result sid s)"
| chat_heartbeat: "h_clients s sid = Some c \<Longrightarrow> ct_heartbeat c \<Longrightarrow>
    chat_handler late E s (ChatSession_onHeartbeat sid s)"
| chat_written: "h_clients s sid = Some c \<Longrightarrow> 0 < ct_writes c \<Longrightarrow>
    chat_handler late E s (ChatSession_onWritten ec sid s)"
| chat_destroy: "h_clients s sid = Some c \<Longrightarrow> ChatSession_idle c \<Longrightarrow>
    chat_handler late E s (ChatSession_destroy sid s)"
| internal_read: "h_internals s iid = Some c' \<Longrightarrow> in_reading c' \<Longrightarrow>
    result = None \<or> \<not> in_closed c' \<or> late \<Longrightarrow>
    chat_handler late E s (InternalSession_onRead E result iid s)"
| internal_destroy: "h_internals s iid = Some c' \<Longrightarrow> \<not> in_reading c' \<Longrightarrow>
    chat_handler late E s (InternalSession_destroy iid s)"
| outside: "chat_handler late E s (s\<lparr>h_redis := r, h_now := now\<rparr>)"
| rehash_players: "set players = set (h_players s) \<Longrightarrow> umap_ok players \<Longrightarrow>
    chat_handler late E s (s\<lparr>h_players := players\<rparr>)"
| rehash_channels: "set channels = set (h_session_channels s) \<Longrightarrow> umap_ok channels \<Longrightarrow>
    chat_handler late E s (s\<lparr>h_session_channels := channels\<rparr>)"
| reorder_lobby: "reordered (h_lobby_members s) lobby \<Longrightarrow>
    chat_handler late E s (s\<lparr>h_lobby_members := lobby\<rparr>)"
| reorder_members: "umap_find (h_session_channels s) i = Some ch \<Longrightarrow> reordered (sc_members ch) ms \<Longrightarrow>
    chat_handler late E s (s\<lparr>h_session_channels := umap_put i (ch\<lparr>sc_members := ms\<rparr>) (h_session_channels s)\<rparr>)"

inductive chat_step ::
  "bool \<Rightarrow> 'r chat_env \<Rightarrow> 'r chat_process \<Rightarrow> 'r chat_process \<Rightarrow> bool"
  for late E where
  chat_run: "chat_handler late E (cp_server p) s' \<Longrightarrow> chat_step late E p (p\<lparr>cp_server := s'\<rparr>)"
| chat_accept: "cp_accepting p \<Longrightarrow> ec \<or> cp_acceptor_open p \<or> late \<Longrightarrow>
    chat_step late E p (ChatServer_onAccept E ec p)"
| internal_accept: "cp_internal_accepting p \<Longrightarrow> ec \<or> cp_internal_acceptor_open p \<or> late \<Longrightarrow>
    chat_step late E p (InternalChannel_onAccept ec p)"
| chat_signalled: "chat_step late E p (chat_signal p)"

inductive chat_reachable :: "bool \<Rightarrow> 'r chat_env \<Rightarrow> 'r chat_process \<Rightarrow> bool"
  for late E where
  chat_init: "chat_reachable late E (chat_main r now)"
| chat_next: "chat_reachable late E p \<Longrightarrow> chat_step late E p p' \<Longrightarrow> chat_reachable late E p'"

end
