(* ===== verification/ChatInvariant.thy ===== *)
theory ChatInvariant
  imports ChatProcess
begin

text \<open>
  The invariant of the channel manager: the players, the lobby and the session channels tell
  the same story, in every state a run of the chat server reaches.

  \<open>channels_ok\<close> holds whatever the clients and the room server send. That a player of a game
  session is also a member of its channel needs the room server to announce a session only
  once (\<open>h_created\<close> without repetitions): a second \<open>SessionCreated\<close> replaces the channel by an
  empty one.
\<close>

section \<open>The state the invariant is about\<close>

text \<open>Sending, Redis and the session objects do not touch the channels.\<close>

definition channels :: "'r chat_server \<Rightarrow>
  (string, player_state) umap \<times> string uset \<times> (string, session_channel) umap \<times> string list" where
  "channels s = (h_players s, h_lobby_members s, h_session_channels s, h_created s)"

lemma channels_eqD:
  assumes "channels s = channels t"
  shows "h_players s = h_players t" and "h_lobby_members s = h_lobby_members t"
    and "h_session_channels s = h_session_channels t" and "h_created s = h_created t"
  using assms by (simp_all add: channels_def)

lemma channels_updates [frame_simps]:
  "channels (chat_upd f sid s) = channels s"
  "channels (internal_upd g iid s) = channels s"
  "channels (s\<lparr>h_redis := r\<rparr>) = channels s"
  "channels (s\<lparr>h_now := now\<rparr>) = channels s"
  "channels (s\<lparr>h_clients := cs\<rparr>) = channels s"
  "channels (s\<lparr>h_internals := is\<rparr>) = channels s"
  "channels (s\<lparr>h_next := n\<rparr>) = channels s"
  by (simp_all add: channels_def chat_upd_def internal_upd_def split: option.split)

lemma channels_sends [frame_simps]:
  "channels (chat_session_send E e sid s) = channels s"
  "channels (chat_sendTo E p e s) = channels s"
  "channels (sendError E p code msg s) = channels s"
  "channels (with_redis E op s) = channels s"
  "channels (saveToHistory E i receive s) = channels s"
  by (simp_all add: chat_session_send_def chat_sendTo_def sendError_def with_redis_def
      saveToHistory_def frame_simps split: option.split)

lemma channels_broadcasts [frame_simps]:
  "channels (broadcastToLobby E e s) = channels s"
  "channels (broadcastToSession E i e s) = channels s"
  by (simp_all add: broadcastToLobby_def broadcastToSession_def frame_simps fold_frame
      split: option.split)

lemma channels_replay [frame_simps]:
  "channels (fold (\<lambda>m s. case ce_ParseFromString E m of None \<Rightarrow> s
     | Some receive \<Rightarrow> chat_sendTo E p (ChatReceive receive) s) ms s) = channels s"
  by (rule fold_frame) (simp add: frame_simps split: option.split)

lemma channels_sendHistory [frame_simps]: "channels (sendHistory E p i s) = channels s"
  by (simp add: sendHistory_def frame_simps split: option.split sum.split prod.split)

lemma channels_save [frame_simps]: "channels (save_player E p i name s) = channels s"
  by (simp add: save_player_def frame_simps)

lemma channels_kick [frame_simps]: "channels (kick_existing E old sid s) = channels s"
  by (simp add: kick_existing_def frame_simps split: option.split)

lemma channels_validate: "validateMessage E p content s = (b, s') \<Longrightarrow> channels s' = channels s"
  by (auto simp: validateMessage_def frame_simps split: if_splits)

lemma channels_handleChatSend [frame_simps]:
  "channels (handleChatSend E p channel content target s) = channels s"
  by (simp add: handleChatSend_def Let_def frame_simps channels_validate
      split: option.split prod.split bool.split chat_channel.split)

lemma channels_onSend [frame_simps]:
  "channels (ChatSession_onSend E channel content target sid s) = channels s"
  by (simp add: ChatSession_onSend_def Let_def frame_simps split: option.split sum.split prod.split)

lemma channels_announced [frame_simps]:
  "channels (snd (fold (announce_player E i) players acc)) = channels (snd acc)"
  by (induction players arbitrary: acc) (auto simp: announce_player_def frame_simps split: prod.split)

section \<open>The invariant\<close>

text \<open>The session a player is in; the empty identifier stands for the lobby.\<close>

definition session_of :: "(string, player_state) umap \<Rightarrow> string \<Rightarrow> string option" where
  "session_of players p = map_option ps_session_id (umap_find players p)"

definition members_of :: "(string, session_channel) umap \<Rightarrow> string \<Rightarrow> string uset" where
  "members_of cs i = (case umap_find cs i of None \<Rightarrow> [] | Some ch \<Rightarrow> sc_members ch)"

lemma session_of_simps [simp]:
  "session_of (umap_put p st ps) q = (if q = p then Some (ps_session_id st) else session_of ps q)"
  "session_of (umap_erase p ps) q = (if q = p then None else session_of ps q)"
  "session_of [] q = None"
  by (simp_all add: session_of_def)

lemma members_of_simps [simp]:
  "members_of (umap_put i ch cs) j = (if j = i then sc_members ch else members_of cs j)"
  "members_of (umap_erase i cs) j = (if j = i then [] else members_of cs j)"
  "members_of [] j = []"
  by (simp_all add: members_of_def)

lemma contains_simps [simp]:
  "umap_contains (umap_put i ch cs) j = (j = i \<or> umap_contains cs j)"
  "umap_contains (umap_erase i cs) j = (j \<noteq> i \<and> umap_contains cs j)"
  "\<not> umap_contains [] j"
  by (simp_all add: umap_contains_def)

definition containers_ok :: "'r chat_server \<Rightarrow> bool" where
  "containers_ok s \<longleftrightarrow> umap_ok (h_players s) \<and> umap_ok (h_session_channels s) \<and> distinct (h_lobby_members s)
     \<and> (\<forall>i. distinct (members_of (h_session_channels s) i))"

definition channels_ok :: "'r chat_server \<Rightarrow> bool" where
  "channels_ok s \<longleftrightarrow>
     (\<forall>p. p \<in> set (h_lobby_members s) \<longleftrightarrow> session_of (h_players s) p = Some [])
   \<and> (\<forall>p st. umap_find (h_players s) p = Some st \<longrightarrow> p \<noteq> [] \<and> ps_in_lobby st = (ps_session_id st = []))
   \<and> (\<forall>i p. p \<in> set (members_of (h_session_channels s) i) \<longrightarrow> i \<noteq> [] \<and> session_of (h_players s) p = Some i)
   \<and> (\<forall>i. umap_contains (h_session_channels s) i \<longrightarrow> i \<in> set (h_created s))"

definition channels_full :: "'r chat_server \<Rightarrow> bool" where
  "channels_full s \<longleftrightarrow>
     (\<forall>p i. session_of (h_players s) p = Some i \<and> i \<noteq> [] \<longrightarrow> p \<in> set (members_of (h_session_channels s) i))"

definition chat_inv :: "'r chat_server \<Rightarrow> bool" where
  "chat_inv s \<longleftrightarrow> containers_ok s \<and> channels_ok s \<and> (distinct (h_created s) \<longrightarrow> channels_full s)"

lemma chat_inv_view:
  assumes "channels s = channels t"
  shows "chat_inv s = chat_inv t"
  by (simp add: chat_inv_def containers_ok_def channels_ok_def channels_full_def
      channels_eqD [OF assms])

text \<open>A handler that changes the channels is judged on the three tables only.\<close>

lemma chat_inv_updates [simp]:
  "chat_inv (chat_upd f sid s) = chat_inv s"
  "chat_inv (internal_upd g iid s) = chat_inv s"
  "chat_inv (s\<lparr>h_redis := r\<rparr>) = chat_inv s"
  "chat_inv (s\<lparr>h_redis := r, h_now := now\<rparr>) = chat_inv s"
  "chat_inv (s\<lparr>h_clients := cs\<rparr>) = chat_inv s"
  "chat_inv (s\<lparr>h_internals := is\<rparr>) = chat_inv s"
  "chat_inv (s\<lparr>h_next := n\<rparr>) = chat_inv s"
  "chat_inv (chat_session_send E e sid s) = chat_inv s"
  "chat_inv (with_redis E op s) = chat_inv s"
  "chat_inv (kick_existing E old sid s) = chat_inv s"
  "chat_inv (sendHistory E p i s) = chat_inv s"
  "chat_inv (ChatSession_onSend E channel content target sid s) = chat_inv s"
  by (rule chat_inv_view; simp add: frame_simps channels_updates)+

section \<open>The handlers keep it\<close>

lemma forget_player_fields [simp]:
  "h_players (forget_player p st s) = umap_erase p (h_players s)"
  "h_lobby_members (forget_player p st s) = uset_erase p (h_lobby_members s)"
  "h_created (forget_player p st s) = h_created s"
  "h_clients (forget_player p st s) = h_clients s"
  "h_internals (forget_player p st s) = h_internals s"
  "h_next (forget_player p st s) = h_next s"
  "h_redis (forget_player p st s) = h_redis s"
  "h_now (forget_player p st s) = h_now s"
  by (simp_all add: forget_player_def Let_def split: option.split)

lemma forget_player_channels [simp]:
  "umap_contains (h_session_channels (forget_player p st s)) i = umap_contains (h_session_channels s) i"
  "members_of (h_session_channels (forget_player p st s)) i =
     (if i = ps_session_id st \<and> i \<noteq> [] then uset_erase p (members_of (h_session_channels s) i)
      else members_of (h_session_channels s) i)"
  "umap_ok (h_session_channels s) \<Longrightarrow> umap_ok (h_session_channels (forget_player p st s))"
  by (auto simp: forget_player_def Let_def umap_contains_def members_of_def uset_erase_def
      split: option.split)

lemmas chat_inv_defs = chat_inv_def containers_ok_def channels_ok_def channels_full_def

lemma chat_invI:
  assumes "umap_ok (h_players s)" and "umap_ok (h_session_channels s)" and "distinct (h_lobby_members s)"
    and "\<And>i. distinct (members_of (h_session_channels s) i)"
    and "\<And>p. p \<in> set (h_lobby_members s) \<longleftrightarrow> session_of (h_players s) p = Some []"
    and "\<And>p st. umap_find (h_players s) p = Some st \<Longrightarrow> p \<noteq> [] \<and> ps_in_lobby st = (ps_session_id st = [])"
    and "\<And>i p. p \<in> set (members_of (h_session_channels s) i) \<Longrightarrow> i \<noteq> [] \<and> session_of (h_players s) p = Some i"
    and "\<And>i. umap_contains (h_session_channels s) i \<Longrightarrow> i \<in> set (h_created s)"
    and "\<And>p i. distinct (h_created s) \<Longrightarrow> session_of (h_players s) p = Some i \<Longrightarrow> i \<noteq> [] \<Longrightarrow> p \<in> set (members_of (h_session_channels s) i)"
  shows "chat_inv s"
  unfolding chat_inv_defs using assms by blast

lemma chat_invD:
  assumes "chat_inv s"
  shows "umap_ok (h_players s)" and "umap_ok (h_session_channels s)" and "distinct (h_lobby_members s)"
    and "distinct (members_of (h_session_channels s) i)"
    and "p \<in> set (h_lobby_members s) \<longleftrightarrow> session_of (h_players s) p = Some []"
    and "umap_find (h_players s) p = Some st \<Longrightarrow> p \<noteq> []"
    and "umap_find (h_players s) p = Some st \<Longrightarrow> ps_in_lobby st = (ps_session_id st = [])"
    and "p \<in> set (members_of (h_session_channels s) i) \<Longrightarrow> i \<noteq> []"
    and "p \<in> set (members_of (h_session_channels s) i) \<Longrightarrow> session_of (h_players s) p = Some i"
    and "umap_contains (h_session_channels s) i \<Longrightarrow> i \<in> set (h_created s)"
    and "distinct (h_created s) \<Longrightarrow> session_of (h_players s) p = Some i \<Longrightarrow> i \<noteq> [] \<Longrightarrow> p \<in> set (members_of (h_session_channels s) i)"
proof -
  have c: "containers_ok s" and o: "channels_ok s" and f: "distinct (h_created s) \<longrightarrow> channels_full s"
    using assms by (simp_all add: chat_inv_def)
  show "umap_ok (h_players s)" and "umap_ok (h_session_channels s)" and "distinct (h_lobby_members s)"
    and "distinct (members_of (h_session_channels s) i)"
    using c by (simp_all add: containers_ok_def)
  show "p \<in> set (h_lobby_members s) \<longleftrightarrow> session_of (h_players s) p = Some []"
    and "umap_find (h_players s) p = Some st \<Longrightarrow> p \<noteq> []"
    and "umap_find (h_players s) p = Some st \<Longrightarrow> ps_in_lobby st = (ps_session_id st = [])"
    and "p \<in> set (members_of (h_session_channels s) i) \<Longrightarrow> i \<noteq> []"
    and "p \<in> set (members_of (h_session_channels s) i) \<Longrightarrow> session_of (h_players s) p = Some i"
    and "umap_contains (h_session_channels s) i \<Longrightarrow> i \<in> set (h_created s)"
    using o by (simp_all add: channels_ok_def)
  show "distinct (h_created s) \<Longrightarrow> session_of (h_players s) p = Some i \<Longrightarrow> i \<noteq> [] \<Longrightarrow>
    p \<in> set (members_of (h_session_channels s) i)"
    using f by (simp add: channels_full_def)
qed

lemma chat_inv_forget:
  assumes inv: "chat_inv s" and st: "umap_find (h_players s) p = Some st"
  shows "chat_inv (forget_player p st s)"
proof -
  have "session_of (h_players s) p = Some (ps_session_id st)" using st by (simp add: session_of_def)
  moreover from this have "p \<notin> set (members_of (h_session_channels s) i)"
    if "i = [] \<or> i \<noteq> ps_session_id st" for i
    using chat_invD(8,9) [OF inv, of p i] that by auto
  ultimately show ?thesis
    by (intro chat_invI) (auto simp: chat_invD(1-5,7,11) [OF inv]
        dest: chat_invD(6,8-10) [OF inv] split: if_splits)
qed

lemma chat_inv_disconnect: "chat_inv s \<Longrightarrow> chat_inv (chat_handleDisconnect p s)"
  by (simp add: chat_handleDisconnect_def chat_inv_forget split: option.split)

lemma chat_inv_replace: "chat_inv s \<Longrightarrow> chat_inv (replace_existing E p sid s)"
  by (simp add: replace_existing_def chat_inv_forget split: option.split)

lemma replace_forgets: "session_of (h_players (replace_existing E p sid s)) p = None"
  by (simp add: replace_existing_def channels_eqD [OF channels_kick] split: option.split)
    (simp add: session_of_def)

text \<open>A player that is not registered takes a place in the lobby or in a channel.\<close>

lemma chat_inv_enter_lobby:
  assumes "chat_inv s" and "session_of (h_players s) p = None" and "p \<noteq> []"
    and "ps_session_id st = []" and "ps_in_lobby st"
  shows "chat_inv (s\<lparr>h_players := umap_put p st (h_players s),
    h_lobby_members := uset_insert p (h_lobby_members s)\<rparr>)"
  using assms(2-)
  by (intro chat_invI) (auto simp: chat_invD(1-5,7,11) [OF assms(1)]
      dest: chat_invD(6,8-10) [OF assms(1)] split: if_splits)

lemma chat_inv_enter_channel:
  assumes "chat_inv s" and "session_of (h_players s) p = None" and "p \<noteq> []"
    and "umap_find (h_session_channels s) (ps_session_id st) = Some ch"
    and "ps_session_id st \<noteq> []" and "\<not> ps_in_lobby st"
  shows "chat_inv (s\<lparr>h_players := umap_put p st (h_players s),
    h_session_channels := umap_put (ps_session_id st)
      (ch\<lparr>sc_members := uset_insert p (sc_members ch)\<rparr>) (h_session_channels s)\<rparr>)"
proof -
  have ch: "members_of (h_session_channels s) (ps_session_id st) = sc_members ch" "umap_contains (h_session_channels s) (ps_session_id st)"
    using assms(4) by (simp_all add: members_of_def umap_contains_def)
  then have "distinct (sc_members ch)" using chat_invD(4) [OF assms(1)] by metis
  moreover have "session_of (h_players s) q = Some (ps_session_id st)" if "q \<in> set (sc_members ch)" for q
    using chat_invD(9) [OF assms(1), of q "ps_session_id st"] that ch(1) by simp
  moreover have "q \<in> set (sc_members ch)"
    if "distinct (h_created s)" "session_of (h_players s) q = Some (ps_session_id st)" for q
    using chat_invD(11) [OF assms(1) that assms(5)] ch(1) by simp
  ultimately show ?thesis using ch assms(2-)
    by (intro chat_invI) (auto simp: chat_invD(1-5,7,11) [OF assms(1)]
        dest: chat_invD(6,8-10) [OF assms(1)] split: if_splits)
qed

lemma channels_complete_auth:
  "channels (complete_auth E p i name sid s) =
   channels (s\<lparr>h_players := umap_put p \<lparr>ps_player_name = name, ps_session_id = i, ps_session = sid,
     ps_in_lobby = (i = [])\<rparr> (h_players s)\<rparr>)"
  by (simp add: complete_auth_def Let_def frame_simps)

text \<open>What an accepted or refused authentication does to the tables.\<close>

lemma channels_auth:
  assumes "p \<noteq> []" and "name \<noteq> []"
    and "s1 = replace_existing E p sid s"
    and "st = \<lparr>ps_player_name = name, ps_session_id = i, ps_session = sid, ps_in_lobby = (i = [])\<rparr>"
  shows "channels (handleAuth E p i name sid s) =
    (if i = [] then channels (s1\<lparr>h_players := umap_put p st (h_players s1),
       h_lobby_members := uset_insert p (h_lobby_members s1)\<rparr>)
     else case umap_find (h_session_channels s1) i of
         None \<Rightarrow> channels s1
       | Some ch \<Rightarrow> channels (s1\<lparr>h_players := umap_put p st (h_players s1),
           h_session_channels := umap_put (ps_session_id st)
             (ch\<lparr>sc_members := uset_insert p (sc_members ch)\<rparr>) (h_session_channels s1)\<rparr>))"
  unfolding assms(3,4) using assms(1,2)
  by (simp add: handleAuth_def Let_def channels_complete_auth frame_simps split: option.split)
    (simp add: channels_def channels_eqD [OF channels_save])

lemma chat_inv_auth:
  assumes inv: "chat_inv s"
  shows "chat_inv (handleAuth E p i name sid s)"
proof (cases "p = [] \<or> name = []")
  case False
  define s1 where "s1 = replace_existing E p sid s"
  define st where "st = \<lparr>ps_player_name = name, ps_session_id = i, ps_session = sid, ps_in_lobby = (i = [])\<rparr>"
  have s1: "chat_inv s1" "session_of (h_players s1) p = None"
    unfolding s1_def by (rule chat_inv_replace [OF inv]) (rule replace_forgets)
  note tables = channels_auth [OF _ _ s1_def st_def]
  consider "i = []" | "i \<noteq> []" "umap_find (h_session_channels s1) i = None"
    | ch where "i \<noteq> []" "umap_find (h_session_channels s1) i = Some ch" by fastforce
  then show ?thesis
  proof cases
    case 1
    with tables False show ?thesis
      using chat_inv_view chat_inv_enter_lobby [OF s1, of st] by (auto simp: st_def)
  next
    case 2
    with tables False show ?thesis using chat_inv_view s1(1) by fastforce
  next
    case 3
    with tables False show ?thesis
      using chat_inv_view chat_inv_enter_channel [OF s1, of st ch] by (auto simp: st_def)
  qed
qed (use inv in \<open>simp add: handleAuth_def\<close>)

lemma find_moved:
  "umap_find (h_players (fold move_to_lobby ms s)) p =
     (if p \<in> set ms then map_option (\<lambda>st. st\<lparr>ps_session_id := [], ps_in_lobby := True\<rparr>) (umap_find (h_players s) p)
      else umap_find (h_players s) p)"
  by (induction ms arbitrary: s) (auto simp: move_to_lobby_def option.map_comp o_def split: option.split)

lemma moved_fields [simp]:
  "h_session_channels (fold move_to_lobby ms s) = h_session_channels s"
  "h_created (fold move_to_lobby ms s) = h_created s"
  by (rule fold_frame; simp add: move_to_lobby_def split: option.split)+

lemma lobby_moved:
  "set (h_lobby_members (fold move_to_lobby ms s)) =
     set (h_lobby_members s) \<union> {p \<in> set ms. umap_contains (h_players s) p}"
  by (induction ms arbitrary: s) (auto simp: move_to_lobby_def umap_contains_def split: option.split)

lemma containers_moved:
  "umap_ok (h_players s) \<Longrightarrow> umap_ok (h_players (fold move_to_lobby ms s))"
  "distinct (h_lobby_members s) \<Longrightarrow> distinct (h_lobby_members (fold move_to_lobby ms s))"
  by (rule fold_keeps [where P = "\<lambda>s. umap_ok (h_players s)"];
      simp add: move_to_lobby_def split: option.split)
    (rule fold_keeps [where P = "\<lambda>s. distinct (h_lobby_members s)"];
      simp add: move_to_lobby_def split: option.split)

lemma session_of_moved:
  "session_of (h_players (fold move_to_lobby ms s)) p =
     (if p \<in> set ms \<and> umap_contains (h_players s) p then Some [] else session_of (h_players s) p)"
  by (auto simp: session_of_def find_moved umap_contains_def option.map_comp o_def)

lemma channels_created:
  "channels (handleSessionCreated E i players s) =
   channels (s\<lparr>h_session_channels := umap_put i \<lparr>sc_members = [],
       sc_expected_players = fst (fold (announce_player E i) players ([], s))\<rparr> (h_session_channels s),
     h_created := h_created s @ [i]\<rparr>)"
  by (simp add: handleSessionCreated_def Let_def frame_simps case_prod_beta)
    (simp add: channels_def channels_eqD [OF channels_announced])

lemma chat_inv_created: "chat_inv s \<Longrightarrow> chat_inv (handleSessionCreated E i players s)"
proof -
  assume inv: "chat_inv s"
  have fresh: "members_of (h_session_channels s) i = []" if "i \<notin> set (h_created s)"
    using chat_invD(10) [OF inv, of i] that
    by (auto simp: members_of_def umap_contains_def split: option.splits)
  then have gone: "session_of (h_players s) p \<noteq> Some i" if "i \<notin> set (h_created s)" "distinct (h_created s)" "i \<noteq> []" for p
    using chat_invD(11) [OF inv, of p i] that by auto
  show ?thesis unfolding chat_inv_view [OF channels_created]
    by (intro chat_invI) (use gone in \<open>auto simp: chat_invD(1-5,7,11) [OF inv]
        dest: chat_invD(6,8-10) [OF inv] split: if_splits\<close>)
qed

lemma channels_ended:
  "channels (handleSessionEnded E i s) =
     (case umap_find (h_session_channels s) i of
        None \<Rightarrow> channels s
      | Some ch \<Rightarrow> channels ((fold move_to_lobby (members_of (h_session_channels s) i) s)
                      \<lparr>h_session_channels := umap_erase i (h_session_channels s)\<rparr>))"
  by (simp add: handleSessionEnded_def Let_def frame_simps members_of_def split: option.split)

text \<open>The members of the channel that ends are the players that go to the lobby.\<close>

lemma chat_inv_moved:
  assumes inv: "chat_inv s" and ch: "umap_find (h_session_channels s) i = Some ch"
  shows "chat_inv ((fold move_to_lobby (members_of (h_session_channels s) i) s)
                      \<lparr>h_session_channels := umap_erase i (h_session_channels s)\<rparr>)" (is "chat_inv ?t")
proof (rule chat_invI)
  let ?ms = "members_of (h_session_channels s) i"
  have contains: "umap_contains (h_players s) p" if "p \<in> set ?ms" for p
    using chat_invD(9) [OF inv that] by (auto simp: session_of_def umap_contains_def)
  have moved: "session_of (h_players ?t) p = (if p \<in> set ?ms then Some [] else session_of (h_players s) p)" for p
    by (auto simp: session_of_moved contains)
  show "umap_ok (h_players ?t)" "umap_ok (h_session_channels ?t)" "distinct (h_lobby_members ?t)"
    using chat_invD(1-3) [OF inv] by (simp_all add: containers_moved)
  show "distinct (members_of (h_session_channels ?t) j)" for j using chat_invD(4) [OF inv] by simp
  show "p \<in> set (h_lobby_members ?t) \<longleftrightarrow> session_of (h_players ?t) p = Some []" for p
    unfolding moved using chat_invD(5) [OF inv, of p] contains by (auto simp: lobby_moved)
  show "p \<noteq> [] \<and> ps_in_lobby st = (ps_session_id st = [])" if "umap_find (h_players ?t) p = Some st" for p st
    using that chat_invD(6,7) [OF inv] by (auto simp: find_moved split: if_splits)
  show "j \<noteq> [] \<and> session_of (h_players ?t) p = Some j" if "p \<in> set (members_of (h_session_channels ?t) j)" for j p
    unfolding moved using that chat_invD(8) [OF inv, of p j] chat_invD(9) [OF inv, of p i]
      chat_invD(9) [OF inv, of p j] by (auto split: if_splits)
  show "j \<in> set (h_created ?t)" if "umap_contains (h_session_channels ?t) j" for j
    using that chat_invD(10) [OF inv] by simp
  show "p \<in> set (members_of (h_session_channels ?t) j)"
    if "distinct (h_created ?t)" "session_of (h_players ?t) p = Some j" "j \<noteq> []" for p j
    using that chat_invD(11) [OF inv, of p j] unfolding moved by (auto split: if_splits)
qed

lemma chat_inv_ended: "chat_inv s \<Longrightarrow> chat_inv (handleSessionEnded E i s)"
  using channels_ended [of E i s] chat_inv_moved [of s i] chat_inv_view [of "handleSessionEnded E i s"]
  by (cases "umap_find (h_session_channels s) i") auto

section \<open>Every run keeps it\<close>

lemma chat_inv_process: "chat_inv s \<Longrightarrow> chat_inv (ChatSession_processMessage E sid env s)"
  by (cases env) (simp_all add: ChatSession_processMessage_def chat_inv_auth)

lemma chat_inv_internal_process: "chat_inv s \<Longrightarrow> chat_inv (InternalSession_processMessage E env s)"
  by (cases env) (simp_all add: InternalSession_processMessage_def chat_inv_created chat_inv_ended)

interpretation chat_messages: message_loop "ce_proto E" "ChatSession_processMessage E sid"
  "chat_closed sid" chat_inv for E :: "'r chat_env" and sid
  by unfold_locales (rule chat_inv_process)

interpretation internal_messages: message_loop "ce_proto E" "InternalSession_processMessage E"
  "\<lambda>_. False" chat_inv for E :: "'r chat_env"
  by unfold_locales (rule chat_inv_internal_process)

lemma chat_inv_close: "chat_inv s \<Longrightarrow> chat_inv (ChatSession_close sid s)"
  by (simp add: ChatSession_close_def Let_def chat_inv_disconnect)

lemma chat_inv_read: "chat_inv s \<Longrightarrow> chat_inv (ChatSession_onRead E result sid s)"
  by (simp add: ChatSession_onRead_def Let_def case_prod_beta chat_inv_close chat_messages.loop_keeps
      split: option.split)

lemma chat_inv_internal_read: "chat_inv s \<Longrightarrow> chat_inv (InternalSession_onRead E result iid s)"
  by (simp add: InternalSession_onRead_def Let_def case_prod_beta InternalSession_close_def
      internal_messages.loop_keeps split: option.split)

text \<open>The order of a container does not matter to the invariant.\<close>

lemma umap_find_rehashed:
  "umap_ok m \<Longrightarrow> umap_ok m' \<Longrightarrow> set m' = set m \<Longrightarrow> umap_find m' = umap_find m"
  by (metis map_of_inject_set umap_ok_def)

lemma chat_inv_same_contents:
  assumes inv: "chat_inv s"
    and ok: "umap_ok (h_players t)" "umap_ok (h_session_channels t)" "distinct (h_lobby_members t)"
      "\<And>i. distinct (members_of (h_session_channels t) i)"
    and players: "umap_find (h_players t) = umap_find (h_players s)"
    and lobby: "set (h_lobby_members t) = set (h_lobby_members s)"
    and members: "\<And>i. set (members_of (h_session_channels t) i) = set (members_of (h_session_channels s) i)"
    and exist: "\<And>i. umap_contains (h_session_channels t) i = umap_contains (h_session_channels s) i"
    and created: "h_created t = h_created s"
  shows "chat_inv t"
proof -
  have sessions: "session_of (h_players t) = session_of (h_players s)"
    using players by (simp add: session_of_def fun_eq_iff)
  show ?thesis
    by (rule chat_invI; (simp only: ok players lobby members exist created sessions)?)
      (auto simp: chat_invD(5,7,11) [OF inv] dest: chat_invD(6,8-10) [OF inv])
qed

lemma chat_inv_rehash_players:
  assumes inv: "chat_inv s" and "set players = set (h_players s)" and "umap_ok players"
  shows "chat_inv (s\<lparr>h_players := players\<rparr>)"
  by (rule chat_inv_same_contents [OF inv])
    (simp_all add: chat_invD [OF inv] assms umap_find_rehashed)

lemma chat_inv_rehash_channels:
  assumes inv: "chat_inv s" and "set cs = set (h_session_channels s)" and "umap_ok cs"
  shows "chat_inv (s\<lparr>h_session_channels := cs\<rparr>)"
proof -
  have "umap_find cs = umap_find (h_session_channels s)"
    using umap_find_rehashed chat_invD(2) [OF inv] assms(2,3) by blast
  then have "members_of cs = members_of (h_session_channels s)"
    and "umap_contains cs = umap_contains (h_session_channels s)"
    by (simp_all add: members_of_def umap_contains_def fun_eq_iff)
  then show ?thesis
    by (intro chat_inv_same_contents [OF inv]) (simp_all add: chat_invD(1-4) [OF inv] assms(3))
qed

lemma chat_inv_reorder_lobby:
  assumes "chat_inv s" and "reordered (h_lobby_members s) lobby"
  shows "chat_inv (s\<lparr>h_lobby_members := lobby\<rparr>)"
  by (rule chat_inv_same_contents [OF assms(1)])
    (use assms(2) in \<open>simp_all add: chat_invD(1-4) [OF assms(1)] reordered_def\<close>)

lemma chat_inv_reorder_members:
  assumes inv: "chat_inv s" and ch: "umap_find (h_session_channels s) i = Some ch"
    and ms: "reordered (sc_members ch) ms"
  shows "chat_inv (s\<lparr>h_session_channels := umap_put i (ch\<lparr>sc_members := ms\<rparr>) (h_session_channels s)\<rparr>)"
proof -
  have "set ms = set (members_of (h_session_channels s) i)" "distinct ms"
    "umap_contains (h_session_channels s) i"
    using ch ms by (simp_all add: members_of_def reordered_def umap_contains_def)
  then show ?thesis
    by (intro chat_inv_same_contents [OF inv]) (auto simp: chat_invD(1-4) [OF inv])
qed

lemma chat_inv_handler:
  assumes "chat_handler late E s s'" and "chat_inv s"
  shows "chat_inv s'"
  using assms
  by (induction rule: chat_handler.induct)
    (simp_all add: chat_inv_read ChatSession_onHeartbeat_def ChatSession_onWritten_def
      ChatSession_destroy_def chat_inv_close chat_inv_disconnect Let_def chat_inv_internal_read
      InternalSession_destroy_def chat_inv_rehash_players chat_inv_rehash_channels
      chat_inv_reorder_lobby chat_inv_reorder_members)

lemma chat_inv_step:
  assumes "chat_step late E p p'" and "chat_inv (cp_server p)"
  shows "chat_inv (cp_server p')"
  using assms
  by (induction rule: chat_step.induct)
    (auto simp: chat_inv_handler ChatServer_onAccept_def ChatServer_doAccept_def ChatSession_start_def
      InternalChannel_onAccept_def InternalChannel_doAccept_def InternalSession_start_def
      chat_signal_def ChatServer_stop_def InternalChannel_stop_def Let_def)

lemma chat_inv_new: "chat_inv (ChannelManager_new r now)"
  by (rule chat_invI) (simp_all add: ChannelManager_new_def)

lemma chat_inv_reachable: "chat_reachable late E p \<Longrightarrow> chat_inv (cp_server p)"
  by (induction rule: chat_reachable.induct)
    (simp_all add: chat_inv_step chat_main_def InternalChannel_start_def InternalChannel_doAccept_def
      ChatServer_start_def ChatServer_doAccept_def chat_inv_new)

end
