(* ===== verification/ChatSpec.thy ===== *)
theory ChatSpec
  imports ChatInvariant
begin

text \<open>
  What the chat server promises about who talks to whom, without its tables: a map from the
  authenticated players to their name, the game session they are in (the empty identifier is
  the lobby) and their connection, and the set of the game sessions that exist. Four commands
  change it. The lobby and the members of a session are not state of the specification: they
  are the players whose session is the empty one, or that one.
\<close>

section \<open>The specification\<close>

record spec_player =
  sp_name :: string
  sp_session_id :: string
  sp_connection :: nat

record chat_spec =
  sp_players :: "string \<rightharpoonup> spec_player"
  sp_sessions :: "string set"

datatype chat_command =
    Authenticate string string string nat  \<comment> \<open>player, session, name, connection\<close>
  | Forget string
  | Announce string
  | Finish string

definition spec_init :: chat_spec where
  "spec_init = \<lparr>sp_players = Map.empty, sp_sessions = {}\<rparr>"

definition spec_leave :: "string \<Rightarrow> spec_player \<Rightarrow> spec_player" where
  "spec_leave i pl = (if sp_session_id pl = i then pl\<lparr>sp_session_id := []\<rparr> else pl)"

fun spec_exec :: "chat_command \<Rightarrow> chat_spec \<Rightarrow> chat_spec" where
  "spec_exec (Authenticate p i name c) a =
     (if p = [] \<or> name = [] then a
      else if i = [] \<or> i \<in> sp_sessions a
      then a\<lparr>sp_players := (sp_players a)(p \<mapsto> \<lparr>sp_name = name, sp_session_id = i, sp_connection = c\<rparr>)\<rparr>
      else a\<lparr>sp_players := (sp_players a)(p := None)\<rparr>)"
| "spec_exec (Forget p) a = a\<lparr>sp_players := (sp_players a)(p := None)\<rparr>"
| "spec_exec (Announce i) a = a\<lparr>sp_sessions := insert i (sp_sessions a)\<rparr>"
| "spec_exec (Finish i) a =
     (if i \<in> sp_sessions a
      then \<lparr>sp_players = map_option (spec_leave i) \<circ> sp_players a,
            sp_sessions = sp_sessions a - {i}\<rparr>
      else a)"

definition spec_in :: "string \<Rightarrow> chat_spec \<Rightarrow> string set" where
  "spec_in i a = {p. \<exists>pl. sp_players a p = Some pl \<and> sp_session_id pl = i}"

fun announced :: "chat_command \<Rightarrow> string list" where
  "announced (Announce i) = [i]"
| "announced _ = []"

text \<open>A player is in the lobby or in a session that exists.\<close>

definition spec_ok :: "chat_spec \<Rightarrow> bool" where
  "spec_ok a \<longleftrightarrow> (\<forall>p pl. sp_players a p = Some pl \<longrightarrow> p \<noteq> [] \<and> (sp_session_id pl = [] \<or> sp_session_id pl \<in> sp_sessions a))"

lemma session_leave [simp]:
  "sp_session_id (spec_leave i pl) = (if sp_session_id pl = i then [] else sp_session_id pl)"
  by (simp add: spec_leave_def)

lemma spec_ok_exec: "spec_ok a \<Longrightarrow> spec_ok (spec_exec c a)"
  by (cases c) (auto simp: spec_ok_def split: if_splits, blast)

lemma spec_ok_run: "spec_ok a \<Longrightarrow> spec_ok (fold spec_exec cs a)"
  by (rule fold_keeps [where P = spec_ok, OF spec_ok_exec])

section \<open>The contract\<close>

text \<open>
  What a user of the channel manager may rely on: \<open>exec\<close> runs a command, \<open>history\<close> lists the
  sessions announced so far, \<open>lobby\<close> and \<open>members\<close> are the recipients of a broadcast. The laws
  hold as long as no session is announced twice.
\<close>

locale channel_service =
  fixes exec :: "chat_command \<Rightarrow> 's \<Rightarrow> 's" and abs :: "'s \<Rightarrow> chat_spec" and ok :: "'s \<Rightarrow> bool"
    and history :: "'s \<Rightarrow> string list" and lobby :: "'s \<Rightarrow> string set" and members :: "'s \<Rightarrow> string \<Rightarrow> string set"
  assumes ok_exec: "ok s \<Longrightarrow> ok (exec c s)"
    and history_exec: "history (exec c s) = history s @ announced c"
    and exec_refines: "ok s \<Longrightarrow> distinct (history (exec c s)) \<Longrightarrow> abs (exec c s) = spec_exec c (abs s)"
    and lobby_abs: "ok s \<Longrightarrow> lobby s = spec_in [] (abs s)"
    and members_abs: "ok s \<Longrightarrow> distinct (history s) \<Longrightarrow> i \<noteq> [] \<Longrightarrow> members s i = spec_in i (abs s)"
begin

lemma ok_run: "ok s \<Longrightarrow> ok (fold exec cs s)"
  by (rule fold_keeps [where P = ok, OF ok_exec])

lemma history_run: "history (fold exec cs s) = history s @ concat (map announced cs)"
  by (induction cs arbitrary: s) (simp_all add: history_exec)

lemma run_refines:
  "ok s \<Longrightarrow> distinct (history (fold exec cs s)) \<Longrightarrow> abs (fold exec cs s) = fold spec_exec cs (abs s)"
proof (induction cs arbitrary: s)
  case (Cons c cs)
  then have "distinct (history (exec c s))" by (auto simp: history_run history_exec)
  with Cons show ?case by (simp add: ok_exec exec_refines)
qed simp

text \<open>The channels are disjoint: nobody hears two of them.\<close>

lemma members_disjoint:
  assumes "ok s" and "distinct (history s)" and "i \<noteq> []" and "j \<noteq> i"
  shows "members s i \<inter> (if j = [] then lobby s else members s j) = {}"
  using assms by (auto simp: lobby_abs members_abs spec_in_def)

lemma recipients_after_run:
  assumes "ok s" and "distinct (history (fold exec cs s))"
  shows "(if i = [] then lobby (fold exec cs s) else members (fold exec cs s) i) =
    spec_in i (fold spec_exec cs (abs s))"
  using assms by (simp add: run_refines ok_run lobby_abs members_abs)

end

section \<open>The channel manager implements it\<close>

definition abs_player :: "player_state \<Rightarrow> spec_player" where
  "abs_player st = \<lparr>sp_name = ps_player_name st, sp_session_id = ps_session_id st, sp_connection = ps_session st\<rparr>"

definition chat_abs :: "'r chat_server \<Rightarrow> chat_spec" where
  "chat_abs s = \<lparr>sp_players = (\<lambda>p. map_option abs_player (umap_find (h_players s) p)),
                 sp_sessions = {i. umap_contains (h_session_channels s) i}\<rparr>"

text \<open>The commands as calls of the handlers. The players of an announcement do not matter to
  the channels, so \<open>names\<close> chooses them.\<close>

fun chat_exec ::
  "'r chat_env \<Rightarrow> (string \<Rightarrow> (string \<times> string) list) \<Rightarrow> chat_command \<Rightarrow> 'r chat_server \<Rightarrow> 'r chat_server" where
  "chat_exec E names (Authenticate p i name c) s = handleAuth E p i name c s"
| "chat_exec E names (Forget p) s = chat_handleDisconnect p s"
| "chat_exec E names (Announce i) s = handleSessionCreated E i (names i) s"
| "chat_exec E names (Finish i) s = handleSessionEnded E i s"

lemma chat_abs_sel [simp]:
  "sp_players (chat_abs s) p = map_option abs_player (umap_find (h_players s) p)"
  "sp_sessions (chat_abs s) = {i. umap_contains (h_session_channels s) i}"
  by (simp_all add: chat_abs_def)

lemma chat_specI:
  assumes "\<And>p. sp_players a p = sp_players b p" and "sp_sessions a = sp_sessions b"
  shows "a = (b :: chat_spec)"
  using assms by (cases a, cases b) (auto simp: fun_eq_iff)

lemma chat_abs_view:
  assumes "channels s = channels t"
  shows "chat_abs s = chat_abs t"
  by (simp add: chat_abs_def channels_eqD [OF assms])

lemma abs_forget:
  "chat_abs (forget_player p st s) = (chat_abs s)\<lparr>sp_players := (sp_players (chat_abs s))(p := None)\<rparr>"
  by (rule chat_specI) simp_all

lemma abs_disconnect: "chat_abs (chat_handleDisconnect p s) = spec_exec (Forget p) (chat_abs s)"
proof (cases "umap_find (h_players s) p")
  case None
  then have "chat_abs s = spec_exec (Forget p) (chat_abs s)" by (intro chat_specI) simp_all
  with None show ?thesis by (simp add: chat_handleDisconnect_def)
qed (simp add: chat_handleDisconnect_def abs_forget)

lemma abs_replace: "chat_abs (replace_existing E p sid s) = spec_exec (Forget p) (chat_abs s)"
proof -
  have "chat_abs (replace_existing E p sid s) = chat_abs (chat_handleDisconnect p s)"
    by (simp add: replace_existing_def chat_handleDisconnect_def chat_abs_view [OF channels_kick]
        split: option.split)
  then show ?thesis by (simp add: abs_disconnect)
qed

lemma abs_auth: "chat_abs (handleAuth E p i name sid s) = spec_exec (Authenticate p i name sid) (chat_abs s)"
proof (cases "p = [] \<or> name = []")
  case True
  then have "channels (handleAuth E p i name sid s) = channels s"
    by (auto simp: handleAuth_def frame_simps)
  from chat_abs_view [OF this] True show ?thesis by auto
next
  case False
  define s1 where "s1 = replace_existing E p sid s"
  have a1: "chat_abs s1 = spec_exec (Forget p) (chat_abs s)" unfolding s1_def by (rule abs_replace)
  have players: "map_option abs_player (umap_find (h_players s1) q) =
      (if q = p then None else map_option abs_player (umap_find (h_players s) q))" for q
    using arg_cong [OF a1, of "\<lambda>a. sp_players a q"] by simp
  have exists: "umap_contains (h_session_channels s1) j = umap_contains (h_session_channels s) j" for j
    using arg_cong [OF a1, of "\<lambda>a. j \<in> sp_sessions a"] by simp
  note view = channels_auth [OF _ _ s1_def refl, of name i]
  consider "i = []" | "i \<noteq> []" "umap_find (h_session_channels s1) i = None"
    | ch where "i \<noteq> []" "umap_find (h_session_channels s1) i = Some ch" by fastforce
  then show ?thesis
  proof cases
    case 1
    with view False show ?thesis
      by (subst chat_abs_view) (auto intro!: chat_specI simp: players exists abs_player_def)
  next
    case 2
    moreover from this have "\<not> umap_contains (h_session_channels s) i"
      using exists [of i] by (simp add: umap_contains_def)
    ultimately show ?thesis using view False
      by (subst chat_abs_view) (auto intro!: chat_specI simp: players exists)
  next
    case 3
    moreover from this have "umap_contains (h_session_channels s) i"
      using exists [of i] by (simp add: umap_contains_def)
    ultimately show ?thesis using view False
      by (subst chat_abs_view) (auto intro!: chat_specI simp: players exists abs_player_def)
  qed
qed

lemma abs_created: "chat_abs (handleSessionCreated E i players s) = spec_exec (Announce i) (chat_abs s)"
  unfolding chat_abs_view [OF channels_created] by (rule chat_specI) auto

text \<open>Here the invariant is needed: the members of the channel are all the players of the session.\<close>

lemma abs_ended:
  assumes inv: "chat_inv s" and once: "distinct (h_created s)"
  shows "chat_abs (handleSessionEnded E i s) = spec_exec (Finish i) (chat_abs s)"
proof (cases "umap_find (h_session_channels s) i")
  case None
  then have "channels (handleSessionEnded E i s) = channels s" by (simp add: channels_ended)
  from chat_abs_view [OF this] None show ?thesis by (simp add: umap_contains_def)
next
  case (Some ch)
  let ?t = "(fold move_to_lobby (members_of (h_session_channels s) i) s)
    \<lparr>h_session_channels := umap_erase i (h_session_channels s)\<rparr>"
  have member: "p \<in> set (members_of (h_session_channels s) i) \<longleftrightarrow> ps_session_id st = i \<and> i \<noteq> []"
    if "umap_find (h_players s) p = Some st" for p st
    using chat_invD(8,9,11) [OF inv, of p i] once that by (auto simp: session_of_def)
  have "channels (handleSessionEnded E i s) = channels ?t" using Some by (simp add: channels_ended)
  then have "chat_abs (handleSessionEnded E i s) = chat_abs ?t" by (rule chat_abs_view)
  also have "\<dots> = spec_exec (Finish i) (chat_abs s)"
  proof (rule chat_specI)
    show "sp_players (chat_abs ?t) p = sp_players (spec_exec (Finish i) (chat_abs s)) p" for p
      using Some member [of p]
      by (cases "umap_find (h_players s) p")
        (auto simp: find_moved umap_contains_def abs_player_def spec_leave_def)
  qed (use Some in \<open>auto simp: umap_contains_def\<close>)
  finally show ?thesis .
qed

lemma history_auth [simp]: "h_created (handleAuth E p i name sid s) = h_created s"
  by (simp add: handleAuth_def Let_def replace_existing_def channels_eqD(4) [OF channels_sends(1)]
      channels_eqD(4) [OF channels_kick] channels_eqD(4) [OF channels_complete_auth]
      channels_eqD(4) [OF channels_save] split: option.split)

lemma history_disconnect [simp]: "h_created (chat_handleDisconnect p s) = h_created s"
  by (simp add: chat_handleDisconnect_def split: option.split)

lemma history_sessions [simp]:
  "h_created (handleSessionEnded E i s) = h_created s"
  "h_created (handleSessionCreated E i players s) = h_created s @ [i]"
  by (simp_all add: handleSessionEnded_def Let_def channels_eqD(4) [OF channels_sends(4)]
      channels_eqD(4) [OF channels_created] split: option.split)

lemma spec_in_abs: "spec_in i (chat_abs s) = {p. session_of (h_players s) p = Some i}"
  by (auto simp: spec_in_def session_of_def abs_player_def)

interpretation channel_manager: channel_service "chat_exec E names" chat_abs chat_inv h_created
  "\<lambda>s. set (h_lobby_members s)" "\<lambda>s i. set (members_of (h_session_channels s) i)"
  for E :: "'r chat_env" and names
proof unfold_locales
  fix s :: "'r chat_server" and c i
  show "chat_inv (chat_exec E names c s)" if "chat_inv s"
    using that by (cases c) (simp_all add: chat_inv_auth chat_inv_disconnect chat_inv_created chat_inv_ended)
  show "h_created (chat_exec E names c s) = h_created s @ announced c"
    by (cases c) simp_all
  show "chat_abs (chat_exec E names c s) = spec_exec c (chat_abs s)"
    if "chat_inv s" "distinct (h_created (chat_exec E names c s))"
    using that by (cases c) (simp_all add: abs_auth abs_disconnect abs_created abs_ended del: spec_exec.simps)
  show "set (h_lobby_members s) = spec_in [] (chat_abs s)" if "chat_inv s"
    by (auto simp: spec_in_abs chat_invD(5) [OF that])
  show "set (members_of (h_session_channels s) i) = spec_in i (chat_abs s)"
    if "chat_inv s" "distinct (h_created s)" "i \<noteq> []"
    using chat_invD(9,11) [OF that(1), of _ i] that(2,3) by (auto simp: spec_in_abs)
qed

section \<open>The sessions only issue commands\<close>

text \<open>The commands a message from a client, or from the room server, stands for.\<close>

fun client_commands :: "nat \<Rightarrow> chat_envelope \<Rightarrow> chat_command list" where
  "client_commands sid (ChatAuth p i name) = [Authenticate p i name sid]"
| "client_commands sid _ = []"

fun room_server_commands :: "chat_envelope \<Rightarrow> chat_command list" where
  "room_server_commands (SessionCreated i players) = [Announce i]"
| "room_server_commands (SessionEnded i) = [Finish i]"
| "room_server_commands _ = []"

lemma abs_client_message:
  "chat_abs (ChatSession_processMessage E sid m s) = fold spec_exec (client_commands sid m) (chat_abs s)"
  by (cases m) (simp_all add: ChatSession_processMessage_def abs_auth chat_abs_view [OF channels_onSend]
      del: spec_exec.simps)

lemma history_client_message: "h_created (ChatSession_processMessage E sid m s) = h_created s"
  by (cases m) (simp_all add: ChatSession_processMessage_def channels_eqD(4) [OF channels_onSend])

lemma history_room_server_message:
  "h_created (InternalSession_processMessage E m s) =
     h_created s @ concat (map announced (room_server_commands m))"
  by (cases m) (simp_all add: InternalSession_processMessage_def)

lemma abs_room_server_message:
  assumes "chat_inv s" and "distinct (h_created s)"
  shows "chat_abs (InternalSession_processMessage E m s) =
    fold spec_exec (room_server_commands m) (chat_abs s)"
  by (cases m) (simp_all add: InternalSession_processMessage_def abs_created abs_ended assms
      del: spec_exec.simps)

lemma abs_client_messages:
  "chat_abs (fold (ChatSession_processMessage E sid) ms s) =
     fold spec_exec (concat (map (client_commands sid) ms)) (chat_abs s)"
  by (induction ms arbitrary: s) (simp_all add: abs_client_message)

lemma history_room_server_messages:
  "h_created (fold (InternalSession_processMessage E) ms s) =
     h_created s @ concat (map announced (concat (map room_server_commands ms)))"
  by (induction ms arbitrary: s) (simp_all add: history_room_server_message)

lemma abs_room_server_messages:
  assumes "chat_inv s" and "distinct (h_created (fold (InternalSession_processMessage E) ms s))"
  shows "chat_abs (fold (InternalSession_processMessage E) ms s) =
    fold spec_exec (concat (map room_server_commands ms)) (chat_abs s)"
  using assms
proof (induction ms arbitrary: s)
  case (Cons m ms)
  then have "distinct (h_created s)" by (simp add: history_room_server_messages history_room_server_message)
  with Cons show ?case
    by (simp add: abs_room_server_message chat_inv_internal_process)
qed simp

end
