(* ===== verification/ChatDelivery.thy ===== *)
theory ChatDelivery
  imports ChatSpec "HOL-Library.Multiset"
begin

text \<open>
  What reaches the connections of the chat server. \<open>chat_outbox s sid\<close> is everything that was
  handed to the session \<open>sid\<close>, written or queued, in order. A frame is queued only on a session
  that is alive and open, and no message handler opens or closes one.
\<close>

section \<open>Outboxes\<close>

definition chat_outbox :: "'r chat_server \<Rightarrow> nat \<Rightarrow> byte list list" where
  "chat_outbox s sid = (case h_clients s sid of None \<Rightarrow> [] | Some c \<Rightarrow> ct_wire c @ ct_write_queue c)"

definition chat_open :: "'r chat_server \<Rightarrow> nat \<Rightarrow> bool" where
  "chat_open s sid \<longleftrightarrow> \<not> chat_closed sid s"

definition connection :: "'r chat_server \<Rightarrow> string \<Rightarrow> nat option" where
  "connection s p = map_option ps_session (umap_find (h_players s) p)"

lemma chat_open_iff: "chat_open s sid \<longleftrightarrow> (\<exists>c. h_clients s sid = Some c \<and> \<not> ct_closed c)"
  by (simp add: chat_open_def chat_closed_def split: option.split)

lemma connection_view:
  assumes "channels s = channels t"
  shows "connection s = connection t"
  by (simp add: connection_def channels_eqD [OF assms] fun_eq_iff)

lemma outbox_same_clients:
  assumes "h_clients s = h_clients t"
  shows "chat_outbox s = chat_outbox t" and "chat_open s = chat_open t"
  by (simp_all add: chat_outbox_def chat_open_iff assms fun_eq_iff)

lemma clients_redis [simp]:
  "h_clients (with_redis E op s) = h_clients s"
  "h_clients (saveToHistory E i receive s) = h_clients s"
  "h_clients (save_player E p i name s) = h_clients s"
  by (simp_all add: with_redis_def saveToHistory_def save_player_def split: option.split)

lemma open_send [simp]: "chat_open (chat_session_send E e sid s) = chat_open s"
  by (auto simp: chat_open_iff chat_session_send_def chat_upd_def ChatSession_send_def fun_eq_iff
      split: option.splits)

lemma outbox_send:
  "chat_outbox (chat_session_send E e sid s) q =
     chat_outbox s q @ (if q = sid \<and> chat_open s q then [encode (ce_proto E) e] else [])"
  by (auto simp: chat_outbox_def chat_open_iff chat_session_send_def chat_upd_def ChatSession_send_def
      split: option.splits)

lemma open_sendTo [simp]: "chat_open (chat_sendTo E p e s) = chat_open s"
  by (simp add: chat_sendTo_def split: option.split)

lemma chat_outbox_sendTo:
  "chat_outbox (chat_sendTo E p e s) q =
     chat_outbox s q @ (if connection s p = Some q \<and> chat_open s q then [encode (ce_proto E) e] else [])"
proof (cases "umap_find (h_players s) p")
  case (Some st)
  then show ?thesis
    by (auto simp: chat_sendTo_def connection_def chat_lock_def outbox_send chat_open_iff)
qed (simp add: chat_sendTo_def connection_def)

text \<open>A loop over players gives a connection one frame for each of them that it serves.\<close>

definition served :: "'r chat_server \<Rightarrow> nat \<Rightarrow> string list \<Rightarrow> nat" where
  "served s q ps = (if chat_open s q then length (filter (\<lambda>p. connection s p = Some q) ps) else 0)"

lemma outbox_loop:
  "chat_outbox (fold (\<lambda>p. chat_sendTo E p e) ps s) q =
     chat_outbox s q @ replicate (served s q ps) (encode (ce_proto E) e)"
proof (induction ps arbitrary: s)
  case (Cons p ps)
  have "connection (chat_sendTo E p e s) = connection s"
    by (rule connection_view) (simp add: frame_simps)
  with Cons show ?case by (simp add: chat_outbox_sendTo served_def)
qed (simp add: served_def)

lemma outbox_lobby:
  "chat_outbox (broadcastToLobby E e s) q =
     chat_outbox s q @ replicate (served s q (h_lobby_members s)) (encode (ce_proto E) e)"
  by (simp add: broadcastToLobby_def outbox_loop)

lemma outbox_session:
  "chat_outbox (broadcastToSession E i e s) q =
     chat_outbox s q @ replicate (served s q (members_of (h_session_channels s) i)) (encode (ce_proto E) e)"
  by (simp add: broadcastToSession_def members_of_def outbox_loop served_def split: option.split)

section \<open>Messages\<close>

text \<open>
  The rule for a chat message over the specification's state: what is sent, and to whom. The
  recipients are a multiset because a player who whispers to itself hears it twice.
\<close>

definition blank :: "string \<Rightarrow> bool" where
  "blank content \<longleftrightarrow> set content \<subseteq> {CHR '' '', CHR 0x09, CHR 0x0A, CHR 0x0D}"

definition spec_deliver ::
  "u32 \<Rightarrow> 64 word \<Rightarrow> chat_spec \<Rightarrow> string \<Rightarrow> chat_channel \<Rightarrow> string \<Rightarrow> string \<Rightarrow>
   (chat_envelope \<times> string multiset) option" where
  "spec_deliver limit now a p channel content target =
     (case sp_players a p of
        None \<Rightarrow> None
      | Some pl \<Rightarrow>
          let err = (\<lambda>code msg. Some (ChatError code msg, {#p#}));
              m = ChatReceive \<lparr>rc_channel = channel, rc_sender_id = p, rc_sender_name = sp_name pl,
                    rc_content = content, rc_timestamp = now\<rparr>
          in if blank content then err MESSAGE_TOO_LONG ''Message cannot be empty''
             else if unat limit < length content
             then err MESSAGE_TOO_LONG (''Message too long (max '' @ to_string (unat limit) @ '' bytes)'')
             else case channel of
                 CHANNEL_LOBBY \<Rightarrow>
                   if sp_session_id pl = [] then Some (m, mset_set (spec_in [] a))
                   else err CHANNEL_NOT_JOINED ''Not in lobby channel''
               | CHANNEL_ALL \<Rightarrow>
                   if sp_session_id pl = [] then err CHANNEL_NOT_JOINED ''Not in a game session''
                   else Some (m, mset_set (spec_in (sp_session_id pl) a))
               | CHANNEL_WHISPER \<Rightarrow>
                   if target = [] then err PLAYER_NOT_FOUND ''Whisper target not specified''
                   else if sp_players a target = None then err PLAYER_NOT_FOUND ''Player not found''
                   else Some (m, {#target, p#})
               | _ \<Rightarrow> err INVALID_CHANNEL ''Invalid channel'')"

definition spec_served :: "chat_spec \<Rightarrow> nat \<Rightarrow> string multiset \<Rightarrow> nat" where
  "spec_served a q ps = size (filter_mset (\<lambda>p. map_option sp_connection (sp_players a p) = Some q) ps)"

lemma all_whitespace_blank: "content = [] \<or> all_whitespace content \<longleftrightarrow> blank content"
  by (induction content) (auto simp: blank_def)

lemma connection_abs: "map_option sp_connection (sp_players (chat_abs s) p) = connection s p"
  by (simp add: connection_def abs_player_def option.map_comp o_def)

lemma served_abs:
  "served s q ps = (if chat_open s q then spec_served (chat_abs s) q (mset ps) else 0)"
  unfolding served_def spec_served_def connection_abs by (simp flip: mset_filter)

lemma lobby_mset: "chat_inv s \<Longrightarrow> mset (h_lobby_members s) = mset_set (spec_in [] (chat_abs s))"
  using channel_manager.lobby_abs [of s] chat_invD(3) [of s] by (metis mset_set_set)

lemma members_mset:
  assumes "chat_inv s" and "distinct (h_created s)" and "i \<noteq> []"
  shows "mset (members_of (h_session_channels s) i) = mset_set (spec_in i (chat_abs s))"
  using channel_manager.members_abs [OF assms] chat_invD(4) [OF assms(1), of i] by (metis mset_set_set)

text \<open>What a pair of envelope and recipients adds to the outbox of a connection.\<close>

definition spec_frames ::
  "chat_envelope proto \<Rightarrow> chat_spec \<Rightarrow> nat \<Rightarrow> (chat_envelope \<times> string multiset) option \<Rightarrow> byte list list" where
  "spec_frames P a q d =
     (case d of None \<Rightarrow> [] | Some (e, ps) \<Rightarrow> replicate (spec_served a q ps) (encode P e))"

lemma outbox_one:
  assumes "chat_open s q"
  shows "chat_outbox (chat_sendTo E p e s) q =
    chat_outbox s q @ spec_frames (ce_proto E) (chat_abs s) q (Some (e, {#p#}))"
  using outbox_loop [of E e "[p]" s q] assms by (simp add: served_abs spec_frames_def)

lemma outbox_two:
  assumes "chat_open s q"
  shows "chat_outbox (chat_sendTo E p e (chat_sendTo E t e s)) q =
    chat_outbox s q @ spec_frames (ce_proto E) (chat_abs s) q (Some (e, {#t, p#}))"
  using outbox_loop [of E e "[t, p]" s q] assms by (simp add: served_abs spec_frames_def add_mset_commute)

lemma outbox_closed:
  assumes "\<not> chat_open s q"
  shows "chat_outbox (handleChatSend E p channel content target s) q = chat_outbox s q"
  using assms
  by (auto simp: handleChatSend_def validateMessage_def Let_def sendError_def chat_outbox_sendTo outbox_lobby
      outbox_session served_def outbox_same_clients(1) [OF clients_redis(2)]
      split: option.split chat_channel.split bool.split prod.splits if_splits)

lemma handleChatSend_outbox:
  assumes inv: "chat_inv s" and once: "distinct (h_created s)" and q: "chat_open s q"
  shows "chat_outbox (handleChatSend E p channel content target s) q = chat_outbox s q @
    spec_frames (ce_proto E) (chat_abs s) q
      (spec_deliver (ce_max_message_length E) (h_now s) (chat_abs s) p channel content target)"
proof (cases "umap_find (h_players s) p")
  case None
  then show ?thesis by (simp add: handleChatSend_def spec_deliver_def spec_frames_def)
next
  case (Some st)
  let ?n = "ce_max_message_length E"
  have lobby: "ps_in_lobby st = (ps_session_id st = [])" using chat_invD(7) [OF inv Some] .
  have abs: "sp_players (chat_abs s) p = Some (abs_player st)" using Some by simp
  have one: "chat_outbox (sendError E p code msg s) q =
      chat_outbox s q @ spec_frames (ce_proto E) (chat_abs s) q (Some (ChatError code msg, {#p#}))" for code msg
    unfolding sendError_def by (rule outbox_one [OF q])
  have lobby_out: "chat_outbox (broadcastToLobby E e s) q = chat_outbox s q @
      spec_frames (ce_proto E) (chat_abs s) q (Some (e, mset_set (spec_in [] (chat_abs s))))" for e
    by (simp add: outbox_lobby served_abs q lobby_mset [OF inv] spec_frames_def)
  have session_out: "chat_outbox (broadcastToSession E i e s) q = chat_outbox s q @
      spec_frames (ce_proto E) (chat_abs s) q (Some (e, mset_set (spec_in i (chat_abs s))))"
    if "i \<noteq> []" for e i
    by (simp add: outbox_session served_abs q members_mset [OF inv once that] spec_frames_def)
  show ?thesis
    using one lobby_out session_out outbox_two [OF q, of E p _ target]
    by (cases "umap_find (h_players s) target")
      (simp_all add: handleChatSend_def spec_deliver_def Some abs validateMessage_def Let_def lobby
        all_whitespace_blank currentTimestampMs_def umap_contains_def abs_player_def
        outbox_same_clients(1) [OF clients_redis(2)] split: chat_channel.split)
qed

section \<open>History\<close>

abbreviation history_length :: "'r chat_env \<Rightarrow> nat" where
  "history_length E \<equiv> unat (ce_history_size E)"

text \<open>
  What the code relies on: Redis keeps lists, and it is up for the history of the session \<open>i\<close>, as
  long as its state satisfies \<open>up\<close>: the history key does not hold anything but a list, so that the
  commands \<open>saveToHistory\<close> and \<open>sendHistory\<close> send for it succeed, and this stays so after them.
\<close>

definition history_works ::
  "'r chat_env \<Rightarrow> 'r redis_api \<Rightarrow> ('r \<Rightarrow> string \<Rightarrow> string list) \<Rightarrow> string \<Rightarrow> ('r \<Rightarrow> bool) \<Rightarrow> bool" where
  "history_works E R ls i up \<longleftrightarrow> ce_redis E = Some R \<and> 0 < ce_session_ttl E \<and> redis_lists R ls \<and> (\<forall>r. up r \<longrightarrow>
     (\<forall>v. \<exists>n r'. sw_lpush R (history_key i) v r = (Inr n, r') \<and> up r') \<and>
     (\<exists>r'. sw_ltrim R (history_key i) 0 (int (history_length E) - 1) r = (Inr (), r') \<and> up r') \<and>
     (\<exists>x r'. sw_lrange R (history_key i) 0 (int (history_length E) - 1) r = (Inr x, r') \<and> up r') \<and>
     (\<exists>b r'. sw_expire R (history_key i) (ce_session_ttl E) r = (Inr b, r') \<and> up r'))"

lemma save_history_list:
  assumes R: "history_works E R ls i up" and n: "0 < history_length E" and up: "up (h_redis s)"
  shows "ls (h_redis (saveToHistory E i m s)) (history_key i) =
      take (history_length E) (ce_SerializeAsString E m # ls (h_redis s) (history_key i))"
    and "up (h_redis (saveToHistory E i m s))"
proof -
  let ?k = "history_key i" and ?v = "ce_SerializeAsString E m"
  obtain n1 r1 where push: "sw_lpush R ?k ?v (h_redis s) = (Inr n1, r1)" "up r1"
    using R up unfolding history_works_def by blast
  obtain r2 where trim: "sw_ltrim R ?k 0 (int (history_length E) - 1) r1 = (Inr (), r2)" "up r2"
    using R push(2) unfolding history_works_def by blast
  obtain b r3 where exp: "sw_expire R ?k (ce_session_ttl E) r2 = (Inr b, r3)" "up r3"
    using R trim(2) unfolding history_works_def by blast
  have lists: "redis_lists R ls" and ttl: "0 < ce_session_ttl E" using R by (simp_all add: history_works_def)
  have "h_redis (saveToHistory E i m s) = r3"
    using R push(1) trim(1) exp(1)
    by (simp add: saveToHistory_def with_redis_def history_works_def rtry_def RedisClient_defs
        flip: uint_nat)
  then show "ls (h_redis (saveToHistory E i m s)) ?k = take (history_length E) (?v # ls (h_redis s) ?k)"
    and "up (h_redis (saveToHistory E i m s))"
    using redis_listsD(1) [OF lists push(1)] redis_listsD(2) [OF lists trim(1) n]
      redis_listsD(4) [OF lists exp(1) ttl] exp(2)
    by simp_all
qed

lemma save_history_lists:
  assumes "history_works E R ls i up" and "0 < history_length E" and "up (h_redis s)"
    and "ls (h_redis s) (history_key i) = []"
  shows "ls (h_redis (fold (saveToHistory E i) ms s)) (history_key i) =
      take (history_length E) (rev (map (ce_SerializeAsString E) ms)) \<and>
    up (h_redis (fold (saveToHistory E i) ms s))"
proof (induction ms rule: rev_induct)
  case (snoc m ms)
  obtain n where "history_length E = Suc n" using assms(2) by (cases "history_length E") simp_all
  with snoc save_history_list [OF assms(1,2)] show ?case by (simp add: min_def)
qed (simp add: assms(3,4))

lemma outbox_replay:
  assumes "connection s p = Some q" and "chat_open s q"
    and "\<forall>m \<in> set ms. ce_ParseFromString E (ce_SerializeAsString E m) = Some m"
  shows "chat_outbox (fold (\<lambda>m s. case ce_ParseFromString E m of None \<Rightarrow> s
      | Some receive \<Rightarrow> chat_sendTo E p (ChatReceive receive) s) (map (ce_SerializeAsString E) ms) s) q =
    chat_outbox s q @ map (\<lambda>m. encode (ce_proto E) (ChatReceive m)) ms"
  using assms
proof (induction ms arbitrary: s)
  case (Cons m ms)
  have "connection (chat_sendTo E p (ChatReceive m) s) = connection s"
    by (rule connection_view) (simp add: frame_simps)
  with Cons show ?case by (simp add: chat_outbox_sendTo)
qed simp

end
