(* ===== verification/ChatRefinement.thy ===== *)
theory ChatRefinement
  imports ChatDelivery
begin

text \<open>
  The chat server process refines the specification: the bytes a session reads have the effect
  of the commands they encode, and a run has the effect of the commands of the messages handled in
  it and of the connections that end in it.
\<close>

section \<open>No message closes a session\<close>

lemma open_updates [simp]:
  "(\<And>c. ct_closed (f c) = ct_closed c) \<Longrightarrow> chat_open (chat_upd f sid s) = chat_open s"
  "chat_open (s\<lparr>h_redis := r\<rparr>) = chat_open s"
  "chat_open (s\<lparr>h_players := a\<rparr>) = chat_open s"
  "chat_open (s\<lparr>h_lobby_members := b\<rparr>) = chat_open s"
  "chat_open (s\<lparr>h_session_channels := c\<rparr>) = chat_open s"
  "chat_open (forget_player p st s) = chat_open s"
  by (auto simp: chat_open_iff chat_upd_def fun_eq_iff split: option.splits)

lemma open_redis [simp]:
  "chat_open (with_redis E op s) = chat_open s"
  "chat_open (saveToHistory E i receive s) = chat_open s"
  "chat_open (save_player E p i name s) = chat_open s"
  by (rule outbox_same_clients(2), simp)+

lemma open_sendError [simp]: "chat_open (sendError E p code msg s) = chat_open s"
  by (simp add: sendError_def)

lemma open_loops [simp]:
  "chat_open (broadcastToLobby E e s) = chat_open s"
  "chat_open (broadcastToSession E i e s) = chat_open s"
  "chat_open (sendHistory E p i s) = chat_open s"
  by (simp_all add: broadcastToLobby_def broadcastToSession_def sendHistory_def fold_frame
      split: option.split prod.split sum.split)

lemma open_auth [simp]: "chat_open (handleAuth E p i name sid s) = chat_open s"
  by (simp add: handleAuth_def complete_auth_def replace_existing_def kick_existing_def Let_def
      setAuthenticated_def ChatSession_setPlayerId_def split: option.split)

lemma open_validate: "validateMessage E p content s = (b, s') \<Longrightarrow> chat_open s' = chat_open s"
  by (auto simp: validateMessage_def split: if_splits)

lemma open_chat_send [simp]: "chat_open (handleChatSend E p channel content target s) = chat_open s"
  by (simp add: handleChatSend_def Let_def open_validate
      split: option.split prod.split bool.split chat_channel.split)

lemma open_onSend [simp]: "chat_open (ChatSession_onSend E channel content target sid s) = chat_open s"
  by (simp add: ChatSession_onSend_def Let_def split: option.split prod.split sum.split)

lemma open_process: "chat_open (ChatSession_processMessage E sid m s) = chat_open s"
  by (cases m) (simp_all add: ChatSession_processMessage_def)

section \<open>Bytes\<close>

lemma chat_loop_open:
  assumes "chat_open s sid"
  shows "decode_loop (ce_proto E) (ChatSession_processMessage E sid) (chat_closed sid) buffer s =
    decode_loop (ce_proto E) (ChatSession_processMessage E sid) (\<lambda>_. False) buffer s"
proof (rule decode_loop_never_closed)
  show "\<not> chat_closed sid s" using assms by (simp add: chat_open_def)
  show "chat_closed sid (ChatSession_processMessage E sid m t) = chat_closed sid t" for m t
    using open_process [of E sid m t] by (metis chat_open_def)
qed

lemma chat_upd_view: "chat_abs (chat_upd f sid s) = chat_abs s"
  by (rule chat_abs_view) (simp add: frame_simps)

lemma internal_upd_view: "chat_abs (internal_upd f sid s) = chat_abs s"
  by (rule chat_abs_view) (simp add: frame_simps)

text \<open>The bytes that have arrived on a connection: frames, and the beginning of the next one.\<close>

lemma chat_upd_upd: "chat_upd g sid (chat_upd f sid s) = chat_upd (g \<circ> f) sid s"
  by (simp add: chat_upd_def split: option.split)

lemma chat_read_frames:
  assumes sid: "h_clients s sid = Some c" "\<not> ct_closed c"
    and bytes: "ct_buffer c @ data = frames (ce_proto E) ms @ part"
    and frames: "\<forall>m \<in> set (ms @ ms'). frame_ok (ce_proto E) m" "partial_of (ce_proto E) ms' part"
  shows "ChatSession_onRead E (Some data) sid s =
    chat_upd (\<lambda>c. ChatSession_doRead (chat_resetHeartbeatTimer E (c\<lparr>ct_buffer := part\<rparr>))) sid
      (fold (ChatSession_processMessage E sid) ms (chat_upd (\<lambda>c. c\<lparr>ct_reading := False\<rparr>) sid s))"
proof -
  let ?s0 = "chat_upd (\<lambda>c. c\<lparr>ct_reading := False\<rparr>) sid s"
  have open0: "chat_open ?s0 sid" using sid by (simp add: chat_open_iff chat_upd_def)
  have "(case h_clients ?s0 sid of None \<Rightarrow> [] | Some c \<Rightarrow> ct_buffer c) = ct_buffer c"
    using sid by (simp add: chat_upd_def)
  moreover have "decode_loop (ce_proto E) (ChatSession_processMessage E sid) (chat_closed sid)
      (frames (ce_proto E) ms @ part) ?s0 = (part, fold (ChatSession_processMessage E sid) ms ?s0)"
    unfolding chat_loop_open [OF open0] by (rule decode_loop_frames [OF frames])
  moreover have "chat_open (fold (ChatSession_processMessage E sid) ms ?s0) = chat_open ?s0"
    by (rule fold_frame) (rule open_process)
  with open0 have "\<not> chat_closed sid (chat_upd (\<lambda>c. c\<lparr>ct_buffer := part\<rparr>) sid
      (fold (ChatSession_processMessage E sid) ms ?s0))"
    by (simp flip: chat_open_def)
  ultimately show ?thesis
    by (simp add: ChatSession_onRead_def Let_def feed_def bytes chat_upd_upd comp_def)
qed

lemma internal_read_frames:
  assumes iid: "h_internals s iid = Some c"
    and bytes: "in_buffer c @ data = frames (ce_proto E) ms @ part"
    and frames: "\<forall>m \<in> set (ms @ ms'). frame_ok (ce_proto E) m" "partial_of (ce_proto E) ms' part"
  shows "InternalSession_onRead E (Some data) iid s =
    internal_upd (\<lambda>c. InternalSession_doRead (c\<lparr>in_buffer := part\<rparr>)) iid
      (fold (InternalSession_processMessage E) ms (internal_upd (\<lambda>c. c\<lparr>in_reading := False\<rparr>) iid s))"
proof -
  let ?s0 = "internal_upd (\<lambda>c. c\<lparr>in_reading := False\<rparr>) iid s"
  have "(case h_internals ?s0 iid of None \<Rightarrow> [] | Some c \<Rightarrow> in_buffer c) = in_buffer c"
    using iid by (simp add: internal_upd_def)
  moreover have "decode_loop (ce_proto E) (InternalSession_processMessage E) (\<lambda>_. False)
      (frames (ce_proto E) ms @ part) ?s0 = (part, fold (InternalSession_processMessage E) ms ?s0)"
    by (rule decode_loop_frames [OF frames])
  ultimately show ?thesis
    by (simp add: InternalSession_onRead_def Let_def feed_def bytes)
qed

section \<open>What happens in a run\<close>

text \<open>
  The commands each handler of the server amounts to: a read amounts to the commands of the
  messages it completes, in their order; where a client's connection ends, the player of the session
  is forgotten.
\<close>

definition chat_departure :: "nat \<Rightarrow> 'r chat_server \<Rightarrow> chat_command list" where
  "chat_departure sid s =
     (if chat_closed sid s \<or> chat_playerId sid s = [] then [] else [Forget (chat_playerId sid s)])"

definition chat_read_commands ::
  "'r chat_env \<Rightarrow> byte list option \<Rightarrow> nat \<Rightarrow> 'r chat_server \<Rightarrow> chat_command list" where
  "chat_read_commands E result sid s =
     (let s0 = chat_upd (\<lambda>c. c\<lparr>ct_reading := False\<rparr>) sid s
      in case result of
           None \<Rightarrow> chat_departure sid s0
         | Some data \<Rightarrow>
             let buffer = feed (case h_clients s0 sid of None \<Rightarrow> [] | Some c \<Rightarrow> ct_buffer c) data
             in concat (map (client_commands sid)
                  (loop_messages (ce_proto E) (ChatSession_processMessage E sid) (chat_closed sid) buffer s0)))"

definition internal_read_commands ::
  "'r chat_env \<Rightarrow> byte list option \<Rightarrow> nat \<Rightarrow> 'r chat_server \<Rightarrow> chat_command list" where
  "internal_read_commands E result iid s =
     (let s0 = internal_upd (\<lambda>c. c\<lparr>in_reading := False\<rparr>) iid s
      in case result of
           None \<Rightarrow> []
         | Some data \<Rightarrow>
             let buffer = feed (case h_internals s0 iid of None \<Rightarrow> [] | Some c \<Rightarrow> in_buffer c) data
             in concat (map room_server_commands
                  (loop_messages (ce_proto E) (InternalSession_processMessage E) (\<lambda>_. False) buffer s0)))"

text \<open>The handlers, labelled with their commands: the rules are those of \<open>chat_handler\<close>.\<close>

inductive chat_does ::
  "bool \<Rightarrow> 'r chat_env \<Rightarrow> 'r chat_server \<Rightarrow> chat_command list \<Rightarrow> 'r chat_server \<Rightarrow> bool"
  for late E where
  does_chat_read: "h_clients s sid = Some c \<Longrightarrow> ct_reading c \<Longrightarrow> result = None \<or> \<not> ct_closed c \<or> late \<Longrightarrow>
    chat_does late E s (chat_read_commands E result sid s) (ChatSession_onRead E result sid s)"
| does_chat_heartbeat: "h_clients s sid = Some c \<Longrightarrow> ct_heartbeat c \<Longrightarrow>
    chat_does late E s (chat_departure sid s) (ChatSession_onHeartbeat sid s)"
| does_chat_written: "h_clients s sid = Some c \<Longrightarrow> 0 < ct_writes c \<Longrightarrow>
    chat_does late E s (if ec then chat_departure sid s else []) (ChatSession_onWritten ec sid s)"
| does_chat_destroy: "h_clients s sid = Some c \<Longrightarrow> ChatSession_idle c \<Longrightarrow>
    chat_does late E s (chat_departure sid s) (ChatSession_destroy sid s)"
| does_internal_read: "h_internals s iid = Some c' \<Longrightarrow> in_reading c' \<Longrightarrow>
    result = None \<or> \<not> in_closed c' \<or> late \<Longrightarrow>
    chat_does late E s (internal_read_commands E result iid s) (InternalSession_onRead E result iid s)"
| does_internal_destroy: "h_internals s iid = Some c' \<Longrightarrow> \<not> in_reading c' \<Longrightarrow>
    chat_does late E s [] (InternalSession_destroy iid s)"
| does_outside: "chat_does late E s [] (s\<lparr>h_redis := r, h_now := now\<rparr>)"
| does_rehash_players: "set players = set (h_players s) \<Longrightarrow> umap_ok players \<Longrightarrow>
    chat_does late E s [] (s\<lparr>h_players := players\<rparr>)"
| does_rehash_channels: "set chs = set (h_session_channels s) \<Longrightarrow> umap_ok chs \<Longrightarrow>
    chat_does late E s [] (s\<lparr>h_session_channels := chs\<rparr>)"
| does_reorder_lobby: "reordered (h_lobby_members s) lobby \<Longrightarrow>
    chat_does late E s [] (s\<lparr>h_lobby_members := lobby\<rparr>)"
| does_reorder_members: "umap_find (h_session_channels s) i = Some ch \<Longrightarrow> reordered (sc_members ch) ms \<Longrightarrow>
    chat_does late E s [] (s\<lparr>h_session_channels := umap_put i (ch\<lparr>sc_members := ms\<rparr>) (h_session_channels s)\<rparr>)"

lemma chat_does_handler: "(\<exists>cs. chat_does late E s cs s') \<longleftrightarrow> chat_handler late E s s'"
proof
  assume "\<exists>cs. chat_does late E s cs s'"
  then obtain cs where "chat_does late E s cs s'" ..
  then show "chat_handler late E s s'"
    by (induction rule: chat_does.induct) (auto intro: chat_handler.intros)
next
  assume "chat_handler late E s s'"
  then show "\<exists>cs. chat_does late E s cs s'"
    by (induction rule: chat_handler.induct) (blast intro: chat_does.intros)+
qed

text \<open>A stretch of a run and the commands it amounts to.\<close>

inductive chat_goes ::
  "bool \<Rightarrow> 'r chat_env \<Rightarrow> 'r chat_process \<Rightarrow> chat_command list \<Rightarrow> 'r chat_process \<Rightarrow> bool"
  for late E p where
  goes_chat_stay: "chat_goes late E p [] p"
| goes_chat_run: "chat_goes late E p cs q \<Longrightarrow> chat_does late E (cp_server q) cs' s' \<Longrightarrow>
    chat_goes late E p (cs @ cs') (q\<lparr>cp_server := s'\<rparr>)"
| goes_chat_accept: "chat_goes late E p cs q \<Longrightarrow> cp_accepting q \<Longrightarrow> ec \<or> cp_acceptor_open q \<or> late \<Longrightarrow>
    chat_goes late E p cs (ChatServer_onAccept E ec q)"
| goes_internal_accept: "chat_goes late E p cs q \<Longrightarrow> cp_internal_accepting q \<Longrightarrow>
    ec \<or> cp_internal_acceptor_open q \<or> late \<Longrightarrow> chat_goes late E p cs (InternalChannel_onAccept ec q)"
| goes_chat_signal: "chat_goes late E p cs q \<Longrightarrow> chat_goes late E p cs (chat_signal q)"

lemma chat_goes_next:
  assumes "chat_goes late E p cs q" and "chat_step late E q q'"
  shows "\<exists>cs'. chat_goes late E p (cs @ cs') q'"
  using assms(2,1)
proof (induction rule: chat_step.induct)
  case (chat_run q s')
  then show ?case using chat_does_handler goes_chat_run by metis
qed (metis append_Nil2 chat_goes.intros)+

lemma chat_goes_reachable:
  assumes "chat_goes late E p cs q" and "chat_reachable late E p"
  shows "chat_reachable late E q"
  using assms
proof (induction rule: chat_goes.induct)
  case (goes_chat_run cs q cs' s')
  then have "chat_step late E q (q\<lparr>cp_server := s'\<rparr>)" using chat_does_handler chat_step.chat_run by metis
  with goes_chat_run show ?case by (blast intro: chat_next)
qed (auto intro: chat_next chat_step.intros)

section \<open>Runs\<close>

text \<open>\<open>s'\<close> comes from \<open>s\<close> by the commands \<open>cs\<close> of the specification.\<close>

definition commanded :: "'r chat_server \<Rightarrow> chat_command list \<Rightarrow> 'r chat_server \<Rightarrow> bool" where
  "commanded s cs s' \<longleftrightarrow> h_created s' = h_created s @ concat (map announced cs) \<and>
     (distinct (h_created s') \<longrightarrow> chat_abs s' = fold spec_exec cs (chat_abs s))"

lemma commanded_same: "chat_abs s' = chat_abs s \<Longrightarrow> h_created s' = h_created s \<Longrightarrow> commanded s [] s'"
  by (simp add: commanded_def)

lemma commanded_view: "channels s' = channels s \<Longrightarrow> commanded s [] s'"
  using chat_abs_view channels_eqD(4) commanded_same by blast

lemma commanded_trans:
  assumes "commanded s cs s'" and "commanded s' cs' s''"
  shows "commanded s (cs @ cs') s''"
proof -
  from assms(2) have "distinct (h_created s'') \<Longrightarrow> distinct (h_created s')" by (simp add: commanded_def)
  with assms show ?thesis by (simp add: commanded_def)
qed

lemma commanded_client: "commanded s (client_commands sid m) (ChatSession_processMessage E sid m s)"
  by (cases m) (simp_all add: commanded_def abs_client_message history_client_message del: spec_exec.simps)

lemma commanded_room_server:
  assumes "chat_inv s"
  shows "commanded s (room_server_commands m) (InternalSession_processMessage E m s)"
  using assms by (simp add: commanded_def abs_room_server_message history_room_server_message)

lemma commanded_disconnect:
  assumes "chat_inv s"
  shows "commanded s [Forget p] (chat_handleDisconnect p s)"
  using channel_manager.exec_refines [OF assms, of _ _ "Forget p"] channel_manager.history_exec [of _ _ "Forget p" s]
  by (simp add: commanded_def)

lemma commanded_upd [simp]:
  "commanded s cs (chat_upd f sid t) = commanded s cs t" "commanded s cs (internal_upd g iid t) = commanded s cs t"
  "commanded (chat_upd f sid s) cs t = commanded s cs t" "commanded (internal_upd g iid s) cs t = commanded s cs t"
  "commanded s cs (t\<lparr>h_clients := ts\<rparr>) = commanded s cs t" "commanded s cs (t\<lparr>h_internals := is\<rparr>) = commanded s cs t"
  "commanded (s\<lparr>h_clients := ts\<rparr>) cs t = commanded s cs t"
  "commanded s cs (t\<lparr>h_redis := r, h_now := now\<rparr>) = commanded s cs t"
  by (simp_all add: commanded_def chat_abs_def chat_upd_def internal_upd_def split: option.split)

lemma commanded_refl [simp]: "commanded s [] s"
  by (simp add: commanded_def)

text \<open>The messages of a read.\<close>

lemma commanded_client_messages:
  "commanded s (concat (map (client_commands sid) ms)) (fold (ChatSession_processMessage E sid) ms s)"
proof (induction ms arbitrary: s)
  case (Cons m ms)
  from commanded_trans [OF commanded_client Cons.IH] show ?case by simp
qed simp

lemma commanded_room_server_messages:
  assumes "chat_inv s"
  shows "commanded s (concat (map room_server_commands ms)) (fold (InternalSession_processMessage E) ms s)"
  using assms
proof (induction ms arbitrary: s)
  case (Cons m ms)
  from commanded_trans [OF commanded_room_server [OF Cons.prems] Cons.IH [OF chat_inv_internal_process [OF Cons.prems]]]
  show ?case by simp
qed simp

lemma commanded_close:
  assumes "chat_inv s"
  shows "commanded s (chat_departure sid s) (ChatSession_close sid s)"
proof -
  let ?f = "\<lambda>c. c\<lparr>ct_closed := True, ct_heartbeat := False\<rparr>"
  have "chat_playerId sid (chat_upd ?f sid s) = chat_playerId sid s"
    by (simp add: chat_playerId_def chat_upd_def split: option.split)
  then show ?thesis
    using assms commanded_disconnect [of "chat_upd ?f sid s"]
    by (simp add: ChatSession_close_def chat_departure_def Let_def)
qed

lemma commanded_read:
  assumes "chat_inv s"
  shows "commanded s (chat_read_commands E result sid s) (ChatSession_onRead E result sid s)"
proof -
  let ?s0 = "chat_upd (\<lambda>c. c\<lparr>ct_reading := False\<rparr>) sid s"
  have "chat_inv ?s0" using assms by simp
  from commanded_close [OF this, of sid] commanded_client_messages [of ?s0] show ?thesis
    by (simp add: ChatSession_onRead_def chat_read_commands_def Let_def case_prod_beta decode_loop_messages
        split: option.split)
qed

lemma commanded_internal_read:
  assumes "chat_inv s"
  shows "commanded s (internal_read_commands E result iid s) (InternalSession_onRead E result iid s)"
proof -
  let ?s0 = "internal_upd (\<lambda>c. c\<lparr>in_reading := False\<rparr>) iid s"
  have "chat_inv ?s0" using assms by simp
  from commanded_room_server_messages [OF this] show ?thesis
    by (simp add: InternalSession_onRead_def internal_read_commands_def InternalSession_close_def Let_def
        case_prod_beta decode_loop_messages split: option.split)
qed

lemma chat_departure_upd [simp]:
  assumes "\<And>c. ct_closed (f c) = ct_closed c" and "\<And>c. ct_player_id (f c) = ct_player_id c"
  shows "chat_departure sid (chat_upd f sid s) = chat_departure sid s"
  using assms by (simp add: chat_departure_def chat_closed_def chat_playerId_def chat_upd_def split: option.split)

lemma commanded_handler:
  assumes "chat_does late E s cs s'" and "chat_inv s"
  shows "commanded s cs s'"
  using assms
proof (induction rule: chat_does.induct)
  case (does_rehash_players players s)
  then have "umap_find players = umap_find (h_players s)"
    using umap_find_rehashed chat_invD(1) by blast
  then show ?case by (intro commanded_same) (simp_all add: chat_abs_def)
next
  case (does_rehash_channels chs s)
  then have "umap_find chs = umap_find (h_session_channels s)"
    using umap_find_rehashed chat_invD(2) by blast
  then show ?case by (intro commanded_same) (simp_all add: chat_abs_def umap_contains_def)
next
  case (does_reorder_members s i ch ms)
  then show ?case by (intro commanded_same chat_specI) (auto simp: umap_contains_def)
next
  case (does_chat_heartbeat s sid c)
  then show ?case
    using commanded_close [of "chat_upd (\<lambda>c. c\<lparr>ct_heartbeat := False\<rparr>) sid s" sid]
    by (simp add: ChatSession_onHeartbeat_def)
next
  case (does_chat_written s sid c ec)
  then show ?case
    using commanded_close [of "chat_upd (\<lambda>c. c\<lparr>ct_writes := ct_writes c - 1\<rparr>) sid s" sid]
    by (simp add: ChatSession_onWritten_def)
next
  case (does_chat_destroy s sid c)
  then show ?case
    using commanded_disconnect [of "s\<lparr>h_clients := ts\<rparr>" for ts]
    by (simp add: ChatSession_destroy_def chat_departure_def Let_def)
qed (simp_all add: commanded_read commanded_internal_read InternalSession_destroy_def
    commanded_same chat_abs_def)

lemma commanded_goes:
  assumes "chat_goes late E p cs p'" and "chat_inv (cp_server p)"
  shows "chat_inv (cp_server p') \<and> commanded (cp_server p) cs (cp_server p')"
  using assms
proof (induction rule: chat_goes.induct)
  case (goes_chat_run cs q cs' s')
  then have inv: "chat_inv (cp_server q)" by simp
  have "chat_inv s'" using chat_inv_handler [OF _ inv] goes_chat_run.hyps(2) chat_does_handler by blast
  then show ?case using goes_chat_run commanded_trans [OF _ commanded_handler [OF _ inv]] by simp
qed (auto simp: ChatServer_onAccept_def ChatServer_doAccept_def ChatSession_start_def
      InternalChannel_onAccept_def InternalChannel_doAccept_def InternalSession_start_def
      chat_signal_def ChatServer_stop_def InternalChannel_stop_def Let_def
      commanded_def chat_abs_def chat_upd_def internal_upd_def)

end
