(* ===== verification/ChatRuns.thy ===== *)
theory ChatRuns
  imports ChatRefinement RoomRuns
begin

text \<open>
  Executable runs of the chat server, in the style of \<open>RoomRuns\<close>, and a small concrete
  environment in which the theorems about the chat server are exercised.
\<close>

datatype chat_event =
    Ev_chat_accept bool
  | Ev_internal_accept bool
  | Ev_chat_read nat "byte list option"
  | Ev_chat_heartbeat nat
  | Ev_chat_written nat bool
  | Ev_chat_destroy nat
  | Ev_internal_read nat "byte list option"
  | Ev_chat_signal

definition chat_event_exec ::
  "bool \<Rightarrow> 'r chat_env \<Rightarrow> chat_event \<Rightarrow> 'r chat_process \<Rightarrow> 'r chat_process option" where
  "chat_event_exec late E ev p =
     (let s = cp_server p in
      case ev of
        Ev_chat_accept ec \<Rightarrow> guarded (cp_accepting p \<and> (ec \<or> cp_acceptor_open p \<or> late))
          (ChatServer_onAccept E ec p)
      | Ev_internal_accept ec \<Rightarrow> guarded (cp_internal_accepting p \<and> (ec \<or> cp_internal_acceptor_open p \<or> late))
          (InternalChannel_onAccept ec p)
      | Ev_chat_read sid result \<Rightarrow> (case h_clients s sid of None \<Rightarrow> None | Some c \<Rightarrow>
          guarded (ct_reading c \<and> (result = None \<or> \<not> ct_closed c \<or> late))
            (p\<lparr>cp_server := ChatSession_onRead E result sid s\<rparr>))
      | Ev_chat_heartbeat sid \<Rightarrow> (case h_clients s sid of None \<Rightarrow> None | Some c \<Rightarrow>
          guarded (ct_heartbeat c) (p\<lparr>cp_server := ChatSession_onHeartbeat sid s\<rparr>))
      | Ev_chat_written sid ec \<Rightarrow> (case h_clients s sid of None \<Rightarrow> None | Some c \<Rightarrow>
          guarded (0 < ct_writes c) (p\<lparr>cp_server := ChatSession_onWritten ec sid s\<rparr>))
      | Ev_chat_destroy sid \<Rightarrow> (case h_clients s sid of None \<Rightarrow> None | Some c \<Rightarrow>
          guarded (ChatSession_idle c) (p\<lparr>cp_server := ChatSession_destroy sid s\<rparr>))
      | Ev_internal_read iid result \<Rightarrow> (case h_internals s iid of None \<Rightarrow> None | Some c \<Rightarrow>
          guarded (in_reading c \<and> (result = None \<or> \<not> in_closed c \<or> late))
            (p\<lparr>cp_server := InternalSession_onRead E result iid s\<rparr>))
      | Ev_chat_signal \<Rightarrow> Some (chat_signal p))"

fun chat_run ::
  "bool \<Rightarrow> 'r chat_env \<Rightarrow> chat_event list \<Rightarrow> 'r chat_process \<Rightarrow> 'r chat_process option" where
  "chat_run late E [] p = Some p"
| "chat_run late E (ev # evs) p =
     (case chat_event_exec late E ev p of None \<Rightarrow> None | Some p' \<Rightarrow> chat_run late E evs p')"

lemma chat_event_step: "chat_event_exec late E ev p = Some p' \<Longrightarrow> chat_step late E p p'"
  by (cases ev)
    (auto simp: chat_event_exec_def guarded_def Let_def split: option.splits if_splits
      intro: chat_step.intros chat_handler.intros)

lemma chat_run_reachable:
  "chat_reachable late E p \<Longrightarrow> chat_run late E evs p = Some p' \<Longrightarrow> chat_reachable late E p'"
proof (induction evs arbitrary: p)
  case (Cons ev evs)
  from Cons.prems(2) obtain q where q: "chat_event_exec late E ev p = Some q" "chat_run late E evs q = Some p'"
    by (auto split: option.splits)
  show ?case by (rule Cons.IH [OF chat_next [OF Cons.prems(1) chat_event_step [OF q(1)]] q(2)])
qed simp

text \<open>The commands of an executable run.\<close>

fun chat_event_commands :: "'r chat_env \<Rightarrow> chat_event \<Rightarrow> 'r chat_server \<Rightarrow> chat_command list" where
  "chat_event_commands E (Ev_chat_read sid result) s = chat_read_commands E result sid s"
| "chat_event_commands E (Ev_chat_heartbeat sid) s = chat_departure sid s"
| "chat_event_commands E (Ev_chat_written sid ec) s = (if ec then chat_departure sid s else [])"
| "chat_event_commands E (Ev_chat_destroy sid) s = chat_departure sid s"
| "chat_event_commands E (Ev_internal_read iid result) s = internal_read_commands E result iid s"
| "chat_event_commands E _ s = []"

fun chat_run_commands :: "bool \<Rightarrow> 'r chat_env \<Rightarrow> chat_event list \<Rightarrow> 'r chat_process \<Rightarrow> chat_command list" where
  "chat_run_commands late E [] p = []"
| "chat_run_commands late E (ev # evs) p =
     (case chat_event_exec late E ev p of None \<Rightarrow> []
      | Some p' \<Rightarrow> chat_event_commands E ev (cp_server p) @ chat_run_commands late E evs p')"

lemma chat_event_goes:
  assumes "chat_goes late E p0 cs p" and "chat_event_exec late E ev p = Some p'"
  shows "chat_goes late E p0 (cs @ chat_event_commands E ev (cp_server p)) p'"
proof -
  note run = goes_chat_run [OF assms(1)]
  show ?thesis
  proof (cases ev)
    case (Ev_chat_written sid ec)
    then obtain c where "h_clients (cp_server p) sid = Some c" "0 < ct_writes c"
      and p': "p' = p\<lparr>cp_server := ChatSession_onWritten ec sid (cp_server p)\<rparr>"
      using assms(2) by (auto simp: chat_event_exec_def guarded_def Let_def split: option.splits if_splits)
    from run [OF does_chat_written [OF this(1,2), of late E ec]] show ?thesis by (simp add: Ev_chat_written p')
  qed (use assms in \<open>auto simp: chat_event_exec_def guarded_def Let_def split: option.splits if_splits
      intro: run chat_does.intros goes_chat_accept goes_internal_accept goes_chat_signal\<close>)
qed

lemma chat_run_goes:
  assumes "chat_goes late E p0 cs p" and "chat_run late E evs p = Some p'"
  shows "chat_goes late E p0 (cs @ chat_run_commands late E evs p) p'"
  using assms
proof (induction evs arbitrary: p cs)
  case (Cons ev evs)
  then obtain q where q: "chat_event_exec late E ev p = Some q" "chat_run late E evs q = Some p'"
    by (auto split: option.splits)
  from Cons.IH [OF chat_event_goes [OF Cons.prems(1) q(1)] q(2)] q(1) show ?case by simp
qed simp

section \<open>A small environment\<close>

text \<open>A message is one byte on the wire; the table says which.\<close>

definition chat_table :: "(byte \<times> chat_envelope) list" where
  "chat_table =
     [(1, ChatAuth ''alice'' [] ''Alice''), (2, ChatAuth ''bob'' [] ''Bob''),
      (3, ChatAuth ''alice'' ''game'' ''Alice''), (4, ChatAuth ''bob'' ''game'' ''Bob''),
      (5, ChatSend CHANNEL_LOBBY ''hi'' []), (6, ChatSend CHANNEL_ALL ''hi'' []),
      (7, SessionCreated ''game'' [(''alice'', ''Alice'')]), (8, SessionEnded ''game''),
      (9, ChatAuth ''alice'' ''none'' ''Alice'')]"

definition chat_proto :: "chat_envelope proto" where
  "chat_proto = \<lparr>SerializeAsString = (\<lambda>m. case find (\<lambda>(b, m'). m' = m) chat_table of
       None \<Rightarrow> [0] | Some (b, _) \<Rightarrow> [b]),
     ParseFromArray = (\<lambda>bs. case bs of [b] \<Rightarrow> map_of chat_table b | _ \<Rightarrow> None)\<rparr>"

definition chat_line :: "string \<Rightarrow> chat_receive" where
  "chat_line content = \<lparr>rc_channel = CHANNEL_ALL, rc_sender_id = ''alice'', rc_sender_name = ''Alice'',
     rc_content = content, rc_timestamp = 0\<rparr>"

definition chat_demo_env :: "mem chat_env" where
  "chat_demo_env = \<lparr>ce_max_message_length = 5, ce_history_size = 2, ce_session_ttl = 7200,
     ce_redis = Some mem_redis, ce_rate_limiter = None, ce_heartbeat_timeout = 90,
     ce_proto = chat_proto, ce_SerializeAsString = rc_content,
     ce_ParseFromString = (\<lambda>c. Some (chat_line c))\<rparr>"

definition chat_demo_start :: "mem chat_process" where
  "chat_demo_start = chat_main mem_empty 0"

definition ev_chat_msg :: "nat \<Rightarrow> byte \<Rightarrow> chat_event" where
  "ev_chat_msg sid b = Ev_chat_read sid (Some [1, 0, 0, 0, b])"

definition ev_room_msg :: "nat \<Rightarrow> byte \<Rightarrow> chat_event" where
  "ev_room_msg iid b = Ev_internal_read iid (Some [1, 0, 0, 0, b])"

lemma chat_demo_reachable_exists:
  assumes "\<exists>p. chat_run late chat_demo_env evs chat_demo_start = Some p \<and> P p"
  shows "\<exists>p. chat_reachable late chat_demo_env p \<and> P p"
proof -
  from assms obtain p where p: "chat_run late chat_demo_env evs (chat_main mem_empty 0) = Some p"
    and "P p" by (auto simp: chat_demo_start_def)
  with chat_run_reachable [OF chat_init p] show ?thesis by blast
qed

section \<open>Evaluating runs\<close>

lemma chat_demo_env_simps:
  "ce_max_message_length chat_demo_env = 5" "ce_history_size chat_demo_env = 2"
  "ce_session_ttl chat_demo_env = 7200" "ce_redis chat_demo_env = Some mem_redis"
  "ce_rate_limiter chat_demo_env = None" "ce_heartbeat_timeout chat_demo_env = 90"
  "ce_proto chat_demo_env = chat_proto" "ce_SerializeAsString chat_demo_env = rc_content"
  "ce_ParseFromString chat_demo_env = (\<lambda>c. Some (chat_line c))"
  by (simp_all add: chat_demo_env_def)

lemma chat_demo_decode: "tryDecode chat_proto [1, 0, 0, 0, b] = (map_of chat_table b, [])"
  by (simp add: tryDecode_def decode_length_def MAX_MESSAGE_SIZE_def Let_def chat_proto_def
      split: option.split)

lemma chat_demo_loop:
  "decode_loop chat_proto process closed [1, 0, 0, 0, b] s =
     (case map_of chat_table b of None \<Rightarrow> ([], s) | Some m \<Rightarrow> ([], process m s))"
proof -
  have "decode_loop chat_proto process closed [] t = ([], t)" for t
    by (rule decode_loop_None) (simp add: tryDecode_def)
  then show ?thesis
    by (subst decode_loop.simps) (simp add: chat_demo_decode Let_def split: option.split)
qed

lemma chat_demo_messages:
  "loop_messages chat_proto process closed [1, 0, 0, 0, b] s =
     (case map_of chat_table b of None \<Rightarrow> [] | Some m \<Rightarrow> [m])"
proof -
  have "loop_messages chat_proto process closed [] t = []" for t
    by (simp add: loop_messages.simps tryDecode_def)
  then show ?thesis
    by (subst loop_messages.simps) (simp add: chat_demo_decode Let_def split: option.split)
qed

lemmas chat_demo_simps = chat_event_exec_def guarded_def Let_def chat_demo_start_def chat_main_def
  ev_chat_msg_def ev_room_msg_def ChatServer_start_def ChatServer_doAccept_def ChatServer_onAccept_def
  InternalChannel_start_def InternalChannel_doAccept_def InternalChannel_onAccept_def ChannelManager_new_def
  chat_upd_def internal_upd_def ChatSession_start_def ChatSession_new_def ChatSession_doRead_def
  chat_resetHeartbeatTimer_def ChatSession_onRead_def ChatSession_close_def chat_closed_def
  ChatSession_onHeartbeat_def ChatSession_onWritten_def ChatSession_destroy_def ChatSession_idle_def
  InternalSession_start_def InternalSession_new_def InternalSession_doRead_def InternalSession_onRead_def
  InternalSession_processMessage_def feed_def chat_demo_env_simps chat_demo_decode chat_demo_loop chat_table_def
  ChatSession_processMessage_def ChatSession_onSend_def chat_playerId_def isAuthenticated_def
  chat_session_send_def ChatSession_send_def ChatSession_push_def ChatSession_doWrite_def
  ChatSession_setPlayerId_def setAuthenticated_def chat_sendTo_def chat_lock_def sendError_def
  broadcastToLobby_def broadcastToSession_def validateMessage_def handleAuth_def replace_existing_def
  kick_existing_def forget_player_def complete_auth_def save_player_def with_redis_def sendHistory_def
  saveToHistory_def chat_handleDisconnect_def handleChatSend_def handleSessionCreated_def announce_player_def
  handleSessionEnded_def move_to_lobby_def umap_contains_def umap_put_def umap_erase_def uset_insert_def
  uset_erase_def RedisClient_defs rbind_def rmap_def rreturn_def rtry_def mem_redis_def mem_defs mem_range_def
  mem_empty_def history_key_def session_key_def

lemmas chat_demo_command_simps = chat_read_commands_def internal_read_commands_def chat_departure_def
  chat_demo_messages chat_demo_simps

end
