(* ===== verification/ChatProperties.thy ===== *)
theory ChatProperties
  imports ChatRuns
begin

text \<open>
  The properties of the chat server: its tables agree in every reachable state, it refines the
  specification, a message reaches exactly the connections it should reach, the history is
  replayed in order, and a second login takes the player over.
\<close>

section \<open>Tables\<close>

text \<open>C14. In every state the chat server reaches, the lobby consists of the players without a game
  session, a channel only has members that are in its session, and the flag \<open>in_lobby\<close> says the
  same as the session identifier. If no session was announced twice, the members of a channel are
  all the players of its session.\<close>

theorem chat_tables_agree:
  assumes "chat_reachable late E p" and "s = cp_server p"
  shows "set (h_lobby_members s) = {q. session_of (h_players s) q = Some []} \<and>
    (\<forall>i. set (members_of (h_session_channels s) i) \<subseteq> {q. session_of (h_players s) q = Some i}) \<and>
    (\<forall>q st. umap_find (h_players s) q = Some st \<longrightarrow> ps_in_lobby st = (ps_session_id st = [])) \<and>
    (distinct (h_created s) \<longrightarrow>
      (\<forall>i. i \<noteq> [] \<longrightarrow> {q. session_of (h_players s) q = Some i} = set (members_of (h_session_channels s) i)))"
proof -
  have inv: "chat_inv s" using chat_inv_reachable [OF assms(1)] assms(2) by simp
  show ?thesis
    using chat_invD(11) [OF inv]
    by (auto simp: chat_invD(5) [OF inv] dest: chat_invD(7) [OF inv] chat_invD(9) [OF inv])
qed

theorem chat_tables_agree_witness:
  "\<exists>p. chat_reachable False chat_demo_env p \<and>
     (set (h_lobby_members (cp_server p)) = {''bob''} \<and>
      set (members_of (h_session_channels (cp_server p)) ''game'') = {''alice''} \<and>
      (\<forall>i. i \<noteq> [] \<longrightarrow> {q. session_of (h_players (cp_server p)) q = Some i} =
         set (members_of (h_session_channels (cp_server p)) i)))"
proof -
  have "\<exists>p. chat_reachable False chat_demo_env p \<and>
     (set (h_lobby_members (cp_server p)) = {''bob''} \<and>
      set (members_of (h_session_channels (cp_server p)) ''game'') = {''alice''} \<and>
      h_created (cp_server p) = [''game''])"
    by (rule chat_demo_reachable_exists [where evs = "[Ev_internal_accept False, ev_room_msg 0 7,
        Ev_chat_accept False, ev_chat_msg 1 3, Ev_chat_accept False, ev_chat_msg 2 2]"])
      (simp add: chat_demo_simps members_of_def)
  then obtain p where p: "chat_reachable False chat_demo_env p"
    "set (h_lobby_members (cp_server p)) = {''bob''}"
    "set (members_of (h_session_channels (cp_server p)) ''game'') = {''alice''}"
    "h_created (cp_server p) = [''game'']" by blast
  then show ?thesis using chat_tables_agree [OF p(1) refl] by (intro exI [of _ p]) simp
qed

section \<open>Refinement\<close>

text \<open>C4. The handlers of the channel manager implement the specification: from any reachable state,
  any sequence of authentications, disconnects, announcements and ends of sessions has the effect
  the specification gives it, and leaves as recipients of the channels the players that the
  specification has there, as long as no session is announced twice.\<close>

theorem channel_manager_refines_spec:
  assumes "chat_reachable late E p"
    and "distinct (h_created (fold (chat_exec E names) cmds (cp_server p)))"
  shows "chat_abs (fold (chat_exec E names) cmds (cp_server p)) =
      fold spec_exec cmds (chat_abs (cp_server p)) \<and>
    (if i = [] then set (h_lobby_members (fold (chat_exec E names) cmds (cp_server p)))
     else set (members_of (h_session_channels (fold (chat_exec E names) cmds (cp_server p))) i)) =
    spec_in i (fold spec_exec cmds (chat_abs (cp_server p)))"
  using channel_manager.run_refines channel_manager.recipients_after_run
    chat_inv_reachable [OF assms(1)] assms(2) by blast

definition demo_commands :: "chat_command list" where
  "demo_commands = [Announce ''game'', Authenticate ''alice'' ''game'' ''Alice'' 0,
     Authenticate ''bob'' [] ''Bob'' 1, Finish ''game'']"

theorem channel_manager_refines_spec_witness:
  "set (h_lobby_members (fold (chat_exec chat_demo_env (\<lambda>_. [])) demo_commands (cp_server chat_demo_start))) =
     {''alice'', ''bob''}"
proof -
  have reach: "chat_reachable False chat_demo_env chat_demo_start"
    unfolding chat_demo_start_def by (rule chat_init)
  have "h_created (fold (chat_exec chat_demo_env (\<lambda>_. [])) demo_commands (cp_server chat_demo_start)) = [''game'']"
    by (simp add: channel_manager.history_run demo_commands_def chat_demo_simps)
  moreover have "spec_in [] (fold spec_exec demo_commands (chat_abs (cp_server chat_demo_start))) = {''alice'', ''bob''}"
    by (auto simp: demo_commands_def spec_in_def spec_leave_def chat_demo_simps chat_abs_def)
  ultimately show ?thesis
    using channel_manager_refines_spec [OF reach, of "\<lambda>_. []" demo_commands "[]"] by simp
qed

text \<open>C16. The bytes that arrive at a client session have the effect of the commands they encode:
  whatever part of a frame was buffered before, if buffer and data together are the frames of the
  messages \<open>ms\<close> and the beginning of a further one, the state of the specification changes by the
  authentications among \<open>ms\<close>, in their order, and by nothing else.\<close>

theorem client_bytes_refine_spec:
  assumes "h_clients s sid = Some c" and "\<not> ct_closed c"
    and "ct_buffer c @ data = frames (ce_proto E) ms @ part"
    and "\<forall>m \<in> set (ms @ ms'). frame_ok (ce_proto E) m" and "partial_of (ce_proto E) ms' part"
  shows "chat_abs (ChatSession_onRead E (Some data) sid s) =
    fold spec_exec (concat (map (client_commands sid) ms)) (chat_abs s)"
  unfolding chat_read_frames [OF assms] by (simp add: chat_upd_view abs_client_messages)

definition demo_connected :: "mem chat_server" where
  "demo_connected = cp_server (ChatServer_onAccept chat_demo_env False chat_demo_start)"

lemma demo_frame_ok: "\<forall>m \<in> set (map snd chat_table). frame_ok chat_proto m"
  by (simp add: chat_table_def frame_ok_def proto_ok_def chat_proto_def MAX_MESSAGE_SIZE_def)

theorem client_bytes_refine_spec_witness:
  "sp_players (chat_abs (ChatSession_onRead chat_demo_env
     (Some (frames chat_proto [ChatAuth ''alice'' [] ''Alice'', ChatSend CHANNEL_LOBBY ''hi'' []] @ [1, 0, 0]))
     0 demo_connected)) ''alice'' = Some \<lparr>sp_name = ''Alice'', sp_session_id = [], sp_connection = 0\<rparr>"
proof -
  let ?ms = "[ChatAuth ''alice'' [] ''Alice'', ChatSend CHANNEL_LOBBY ''hi'' []]"
  let ?next = "[ChatAuth ''bob'' [] ''Bob'']"
  have ok: "\<forall>m \<in> set (?ms @ ?next). frame_ok (ce_proto chat_demo_env) m"
    using demo_frame_ok by (simp add: chat_demo_env_simps chat_table_def)
  have part: "partial_of (ce_proto chat_demo_env) ?next [1, 0, 0]"
    by (simp add: partial_of_def encode_def encode_length_def chat_demo_env_simps chat_proto_def chat_table_def)
  obtain c where c: "h_clients demo_connected 0 = Some c" "\<not> ct_closed c" "ct_buffer c = []"
    by (simp add: demo_connected_def chat_demo_simps)
  have "chat_abs (ChatSession_onRead chat_demo_env (Some (frames chat_proto ?ms @ [1, 0, 0])) 0 demo_connected) =
      fold spec_exec (concat (map (client_commands 0) ?ms)) (chat_abs demo_connected)"
    by (rule client_bytes_refine_spec [OF c(1,2) _ ok part]) (simp add: c chat_demo_env_simps)
  then show ?thesis by simp
qed

text \<open>C17. The bytes the room server sends have the effect of the announcements and ends they encode,
  in their order.\<close>

theorem room_server_bytes_refine_spec:
  assumes "chat_reachable late E p" and "s = cp_server p"
    and "distinct (h_created (InternalSession_onRead E (Some data) iid s))"
    and "h_internals s iid = Some c" and "in_buffer c @ data = frames (ce_proto E) ms @ part"
    and "\<forall>m \<in> set (ms @ ms'). frame_ok (ce_proto E) m" and "partial_of (ce_proto E) ms' part"
  shows "chat_abs (InternalSession_onRead E (Some data) iid s) =
    fold spec_exec (concat (map room_server_commands ms)) (chat_abs s)"
proof -
  let ?s0 = "internal_upd (\<lambda>c. c\<lparr>in_reading := False\<rparr>) iid s"
  have "chat_inv ?s0" using chat_inv_reachable [OF assms(1)] assms(2) by simp
  with assms(3) show ?thesis
    unfolding internal_read_frames [OF assms(4-)]
    by (simp add: internal_upd_view abs_room_server_messages channels_eqD(4) [OF channels_updates(2)])
qed

definition demo_linked :: "mem chat_process" where
  "demo_linked = InternalChannel_onAccept False chat_demo_start"

lemma demo_linked_reachable: "chat_reachable False chat_demo_env demo_linked"
  unfolding demo_linked_def
  by (rule chat_run_reachable [OF chat_init, where evs = "[Ev_internal_accept False]"])
    (simp add: chat_demo_simps)

theorem room_server_bytes_refine_spec_witness:
  "sp_sessions (chat_abs (InternalSession_onRead chat_demo_env
     (Some (frames chat_proto [SessionCreated ''game'' [(''alice'', ''Alice'')]])) 0 (cp_server demo_linked))) = {''game''}"
proof -
  let ?m = "SessionCreated ''game'' [(''alice'', ''Alice'')]"
  have ok: "\<forall>m \<in> set ([?m] @ []). frame_ok (ce_proto chat_demo_env) m"
    using demo_frame_ok by (simp add: chat_demo_env_simps chat_table_def)
  have part: "partial_of (ce_proto chat_demo_env) [] []" by (simp add: partial_of_def)
  obtain c where c: "h_internals (cp_server demo_linked) 0 = Some c" "in_buffer c = []"
    by (simp add: demo_linked_def chat_demo_simps)
  have bytes: "frames chat_proto [?m] = [1, 0, 0, 0, 7]"
    by (simp add: frames_def encode_def encode_length_def chat_proto_def chat_table_def)
  have once: "distinct (h_created (InternalSession_onRead chat_demo_env (Some (frames chat_proto [?m])) 0
      (cp_server demo_linked)))"
    unfolding bytes by (simp add: demo_linked_def chat_demo_simps)
  have "sp_sessions (chat_abs (cp_server demo_linked)) = {}"
    by (simp add: demo_linked_def chat_demo_simps)
  then show ?thesis
    using room_server_bytes_refine_spec [OF demo_linked_reachable refl once c(1) _ ok part]
    by (simp add: c(2) chat_demo_env_simps)
qed

text \<open>C15. Runs of the chat server are runs of the specification. \<open>chat_goes late E p cs p'\<close> is a stretch
  of a run labelled with what happens in it: the authentications that the clients send and the
  announcements and ends of sessions that the room server sends, in the order in which they are
  handled, and a command to forget the player of each connection that ends; chat messages, timers,
  completed writes, accepted connections, the clock, changes of Redis and of the order of the tables
  contribute nothing. As long as no session is announced twice, its effect on the players and
  the sessions is exactly that of these commands, and the recipients of each channel are the players
  that the specification has there. And the labels are no restriction: every step of the server
  continues the labelled run.\<close>

theorem chat_runs_refine_spec:
  assumes "chat_reachable late E p" and "chat_goes late E p cs p'" and "distinct (h_created (cp_server p'))"
  shows "chat_abs (cp_server p') = fold spec_exec cs (chat_abs (cp_server p)) \<and>
    h_created (cp_server p') = h_created (cp_server p) @ concat (map announced cs) \<and>
    (\<forall>i. (if i = [] then set (h_lobby_members (cp_server p')) else set (members_of (h_session_channels (cp_server p')) i)) =
       spec_in i (fold spec_exec cs (chat_abs (cp_server p)))) \<and>
    (\<forall>p''. chat_step late E p' p'' \<longrightarrow> (\<exists>cs'. chat_goes late E p (cs @ cs') p''))"
proof -
  have run: "chat_inv (cp_server p')" "commanded (cp_server p) cs (cp_server p')"
    using commanded_goes [OF assms(2) chat_inv_reachable [OF assms(1)]] by simp_all
  from run(2) assms(3) have abs: "chat_abs (cp_server p') = fold spec_exec cs (chat_abs (cp_server p))"
    and created: "h_created (cp_server p') = h_created (cp_server p) @ concat (map announced cs)"
    by (simp_all add: commanded_def)
  have "(if i = [] then set (h_lobby_members (cp_server p')) else set (members_of (h_session_channels (cp_server p')) i)) =
      spec_in i (chat_abs (cp_server p'))" for i
    using channel_manager.lobby_abs [OF run(1)] channel_manager.members_abs [OF run(1) assms(3)] by simp
  with abs created show ?thesis using chat_goes_next [OF assms(2)] by (simp only: simp_thms) blast
qed

text \<open>A session is announced, Alice joins it and Bob the lobby, the session ends, and Bob's connection
  is lost.\<close>

definition demo_chat_evs :: "chat_event list" where
  "demo_chat_evs = [Ev_internal_accept False, ev_room_msg 0 7, Ev_chat_accept False, ev_chat_msg 1 3,
     Ev_chat_accept False, ev_chat_msg 2 2, ev_room_msg 0 8, Ev_chat_read 2 None]"

lemma demo_chat_run:
  "\<exists>p'. chat_run False chat_demo_env demo_chat_evs chat_demo_start = Some p' \<and> h_created (cp_server p') = [''game''] \<and>
     chat_run_commands False chat_demo_env demo_chat_evs chat_demo_start =
       [Announce ''game'', Authenticate ''alice'' ''game'' ''Alice'' 1, Authenticate ''bob'' [] ''Bob'' 2,
        Finish ''game'', Forget ''bob'']"
  by (simp add: demo_chat_evs_def chat_demo_command_simps)

theorem chat_runs_refine_spec_witness:
  "\<exists>p'. chat_goes False chat_demo_env chat_demo_start
       [Announce ''game'', Authenticate ''alice'' ''game'' ''Alice'' 1, Authenticate ''bob'' [] ''Bob'' 2,
        Finish ''game'', Forget ''bob''] p' \<and>
     set (h_lobby_members (cp_server p')) = {''alice''}"
proof -
  let ?cs = "[Announce ''game'', Authenticate ''alice'' ''game'' ''Alice'' 1, Authenticate ''bob'' [] ''Bob'' 2,
    Finish ''game'', Forget ''bob'']"
  obtain p' where p': "chat_run False chat_demo_env demo_chat_evs chat_demo_start = Some p'"
    "h_created (cp_server p') = [''game'']" "chat_run_commands False chat_demo_env demo_chat_evs chat_demo_start = ?cs"
    using demo_chat_run by blast
  have goes: "chat_goes False chat_demo_env chat_demo_start ?cs p'"
    using chat_run_goes [OF goes_chat_stay p'(1)] p'(3) by simp
  have reach: "chat_reachable False chat_demo_env chat_demo_start"
    unfolding chat_demo_start_def by (rule chat_init)
  have "spec_in [] (fold spec_exec ?cs (chat_abs (cp_server chat_demo_start))) = {''alice''}"
    by (auto simp: spec_in_def spec_leave_def chat_demo_simps chat_abs_def split: if_splits)
  moreover have "distinct (h_created (cp_server p'))" by (simp add: p'(2))
  from chat_runs_refine_spec [OF reach goes this]
  have "\<forall>i. (if i = [] then set (h_lobby_members (cp_server p'))
        else set (members_of (h_session_channels (cp_server p')) i)) =
      spec_in i (fold spec_exec ?cs (chat_abs (cp_server chat_demo_start)))"
    by blast
  ultimately have "set (h_lobby_members (cp_server p')) = {''alice''}" by (metis (full_types))
  with goes show ?thesis by blast
qed

section \<open>Delivery\<close>

definition rate_limited :: "'r chat_env \<Rightarrow> string \<Rightarrow> 'r \<Rightarrow> bool" where
  "rate_limited E p r = (case ce_rate_limiter E of None \<Rightarrow> False | Some L \<Rightarrow> fst (allow L p r) = Inr False)"

lemma onSend_cases:
  "ChatSession_onSend E channel content target sid s =
     (if \<not> isAuthenticated sid s
      then chat_session_send E (ChatError NOT_AUTHENTICATED ''Not authenticated'') sid s
      else let s1 = (case ce_rate_limiter E of None \<Rightarrow> s
               | Some L \<Rightarrow> s\<lparr>h_redis := snd (allow L (chat_playerId sid s) (h_redis s))\<rparr>)
           in if rate_limited E (chat_playerId sid s) (h_redis s)
              then chat_session_send E (ChatError CHAT_RATE_LIMITED ''Too many messages'') sid s1
              else handleChatSend E (chat_playerId sid s) channel content target s1)"
  by (auto simp: ChatSession_onSend_def rate_limited_def Let_def chat_playerId_def
      split: option.split prod.split sum.split)

text \<open>C7. Who hears a chat message: a connection that is not authenticated, or over its limit, gets an
  error and nobody hears anything. Otherwise an open connection receives exactly the frames the
  specification gives it: one copy of the message, with the sender's registered name and the
  server's time, for every recipient it serves; in the lobby the recipients are the players
  without a session, in a game the players of the sender's session, for a whisper the target and
  the sender; an empty, overlong or misdirected message is answered with an error to the sender
  alone. No other connection receives anything.\<close>

theorem chat_message_delivery:
  assumes "chat_reachable late E pr" and "s = cp_server pr" and "distinct (h_created s)"
    and "p = chat_playerId sid s"
  shows "chat_outbox (ChatSession_onSend E channel content target sid s) q = chat_outbox s q @
    (if \<not> chat_open s q then []
     else if \<not> isAuthenticated sid s
     then (if q = sid then [encode (ce_proto E) (ChatError NOT_AUTHENTICATED ''Not authenticated'')] else [])
     else if rate_limited E p (h_redis s)
     then (if q = sid then [encode (ce_proto E) (ChatError CHAT_RATE_LIMITED ''Too many messages'')] else [])
     else spec_frames (ce_proto E) (chat_abs s) q
            (spec_deliver (ce_max_message_length E) (h_now s) (chat_abs s) p channel content target))"
proof -
  define s1 where "s1 = (case ce_rate_limiter E of None \<Rightarrow> s
    | Some L \<Rightarrow> s\<lparr>h_redis := snd (allow L p (h_redis s))\<rparr>)"
  have same: "chat_outbox s1 q = chat_outbox s q" "chat_open s1 = chat_open s" "chat_abs s1 = chat_abs s"
    "h_now s1 = h_now s" "h_created s1 = h_created s"
    by (simp_all add: s1_def chat_outbox_def chat_abs_def split: option.split)
  have inv: "chat_inv s1"
    using chat_inv_reachable [OF assms(1)] assms(2) by (simp add: s1_def split: option.split)
  have "chat_outbox (handleChatSend E p channel content target s1) q = chat_outbox s q @
      (if chat_open s q then spec_frames (ce_proto E) (chat_abs s) q
        (spec_deliver (ce_max_message_length E) (h_now s) (chat_abs s) p channel content target) else [])"
    using handleChatSend_outbox [OF inv, of q E p channel content target]
      outbox_closed [of s1 q E p channel content target] assms(3) by (simp add: same)
  then show ?thesis
    unfolding onSend_cases assms(4) [symmetric] Let_def s1_def [symmetric]
    by (simp add: outbox_send same)
qed

definition demo_lobby_spec :: chat_spec where
  "demo_lobby_spec = \<lparr>sp_players =
     [''alice'' \<mapsto> \<lparr>sp_name = ''Alice'', sp_session_id = [], sp_connection = 0\<rparr>,
      ''bob'' \<mapsto> \<lparr>sp_name = ''Bob'', sp_session_id = [], sp_connection = 1\<rparr>], sp_sessions = {}\<rparr>"

lemma demo_lobby_frames:
  "spec_frames P demo_lobby_spec 1 (spec_deliver 5 0 demo_lobby_spec ''alice'' CHANNEL_LOBBY ''hi'' []) =
     [encode P (ChatReceive \<lparr>rc_channel = CHANNEL_LOBBY, rc_sender_id = ''alice'',
        rc_sender_name = ''Alice'', rc_content = ''hi'', rc_timestamp = 0\<rparr>)]"
proof -
  have "spec_in [] demo_lobby_spec = {''alice'', ''bob''}" by (auto simp: spec_in_def demo_lobby_spec_def)
  moreover have "\<not> blank ''hi''" by (simp add: blank_def)
  ultimately show ?thesis
    by (simp add: spec_frames_def spec_deliver_def) (simp add: demo_lobby_spec_def spec_served_def)
qed

theorem chat_message_delivery_witness:
  "\<exists>pr. chat_reachable False chat_demo_env pr \<and>
      chat_outbox (ChatSession_onSend chat_demo_env CHANNEL_LOBBY ''hi'' [] 0 (cp_server pr)) 1 =
        [encode chat_proto (ChatAuthResult True []),
         encode chat_proto (ChatReceive \<lparr>rc_channel = CHANNEL_LOBBY, rc_sender_id = ''alice'',
           rc_sender_name = ''Alice'', rc_content = ''hi'', rc_timestamp = 0\<rparr>)]"
proof -
  have "\<exists>pr. chat_reachable False chat_demo_env pr \<and>
     (h_created (cp_server pr) = [] \<and> chat_playerId 0 (cp_server pr) = ''alice'' \<and> isAuthenticated 0 (cp_server pr) \<and>
      chat_open (cp_server pr) 1 \<and> h_now (cp_server pr) = 0 \<and>
      chat_outbox (cp_server pr) 1 = [encode chat_proto (ChatAuthResult True [])] \<and>
      chat_abs (cp_server pr) = demo_lobby_spec)"
    by (rule chat_demo_reachable_exists [where evs = "[Ev_chat_accept False, ev_chat_msg 0 1,
        Ev_chat_accept False, ev_chat_msg 1 2]"])
      (auto simp: chat_demo_simps chat_open_def chat_outbox_def chat_abs_def abs_player_def fun_eq_iff
        demo_lobby_spec_def)
  then obtain pr where pr: "chat_reachable False chat_demo_env pr"
    and at: "h_created (cp_server pr) = []" "chat_playerId 0 (cp_server pr) = ''alice''" "isAuthenticated 0 (cp_server pr)"
      "chat_open (cp_server pr) 1" "h_now (cp_server pr) = 0"
      "chat_outbox (cp_server pr) 1 = [encode chat_proto (ChatAuthResult True [])]"
      "chat_abs (cp_server pr) = demo_lobby_spec"
    by blast
  have once: "distinct (h_created (cp_server pr))" by (simp add: at)
  show ?thesis
    using pr unfolding chat_message_delivery [OF pr refl once at(2) [symmetric]] at chat_demo_env_simps
    by (intro exI [of _ pr])
      (simp add: chat_message_delivery [OF pr refl once at(2) [symmetric]] at chat_demo_env_simps
        demo_lobby_frames rate_limited_def del: One_nat_def)
qed

text \<open>C19. The history: as long as Redis is up for the history key of the session (the key holds a
  list, if it is there, and the commands on it succeed) and the history length is not zero, a player
  who joins a session whose messages \<open>ms\<close> were stored receives the last messages up to that length,
  the oldest first.\<close>

theorem history_roundtrip:
  assumes R: "history_works E R ls i up" and n: "0 < history_length E" and up: "up (h_redis s)"
    and empty: "ls (h_redis s) (history_key i) = []"
    and parse: "\<forall>m \<in> set ms. ce_ParseFromString E (ce_SerializeAsString E m) = Some m"
    and p: "connection s p = Some q" "chat_open s q"
  shows "chat_outbox (sendHistory E p i (fold (saveToHistory E i) ms s)) q = chat_outbox s q @
    map (\<lambda>m. encode (ce_proto E) (ChatReceive m)) (drop (length ms - history_length E) ms)"
proof -
  let ?t = "fold (saveToHistory E i) ms s" and ?ser = "ce_SerializeAsString E"
  have lists: "redis_lists R ls" using R by (simp add: history_works_def)
  have channels: "channels ?t = channels s" by (rule fold_frame) (simp add: frame_simps)
  have clients: "h_clients ?t = h_clients s" by (rule fold_frame) simp
  note stored = save_history_lists [OF R n up empty, of ms]
  obtain x r' where range: "sw_lrange R (history_key i) 0 (int (history_length E) - 1) (h_redis ?t) = (Inr x, r')"
    using R stored unfolding history_works_def by blast
  have "x = take (history_length E) (rev (map ?ser ms))"
    using redis_listsD(3) [OF lists range n] stored by simp
  then have x: "rev x = map ?ser (drop (length ms - history_length E) ms)"
    by (simp add: rev_take drop_map)
  have "sendHistory E p i ?t = fold (\<lambda>m s. case ce_ParseFromString E m of None \<Rightarrow> s
      | Some receive \<Rightarrow> chat_sendTo E p (ChatReceive receive) s) (rev x) (?t\<lparr>h_redis := r'\<rparr>)"
    using R range by (simp add: sendHistory_def history_works_def RedisClient_defs flip: uint_nat)
  moreover have "connection (?t\<lparr>h_redis := r'\<rparr>) = connection s"
    by (rule connection_view) (simp add: frame_simps channels)
  moreover have "h_clients (?t\<lparr>h_redis := r'\<rparr>) = h_clients s" by (simp add: clients)
  note outbox_same_clients [OF this]
  moreover have "\<forall>m \<in> set (drop (length ms - history_length E) ms).
      ce_ParseFromString E (?ser m) = Some m"
    using parse by (auto dest: in_set_dropD)
  note outbox_replay [OF _ _ this, of "?t\<lparr>h_redis := r'\<rparr>" p q]
  ultimately show ?thesis using p by (simp add: x)
qed

definition demo_listener :: "mem chat_server" where
  "demo_listener = demo_connected\<lparr>h_players := [(''alice'', \<lparr>ps_player_name = ''Alice'', ps_session_id = ''game'',
     ps_session = 0, ps_in_lobby = False\<rparr>)]\<rparr>"

theorem history_roundtrip_witness:
  "chat_outbox (sendHistory chat_demo_env ''alice'' ''game'' (fold (saveToHistory chat_demo_env ''game'')
     [chat_line ''a'', chat_line ''b'', chat_line ''c''] demo_listener)) 0 =
   [encode chat_proto (ChatReceive (chat_line ''b'')), encode chat_proto (ChatReceive (chat_line ''c''))]"
proof -
  let ?k = "history_key ''game''"
  have works: "history_works chat_demo_env mem_redis mem_list ''game'' (\<lambda>r. holds_list r ?k)"
    unfolding history_works_def by (simp add: chat_demo_env_simps mem_redis_lists mem_list_commands)
  have up: "holds_list (h_redis demo_listener) ?k" and at: "mem_list (h_redis demo_listener) ?k = []"
    "connection demo_listener ''alice'' = Some 0" "chat_open demo_listener 0" "chat_outbox demo_listener 0 = []"
    by (simp_all add: demo_listener_def demo_connected_def chat_demo_simps connection_def chat_open_def
        chat_outbox_def mem_list_def holds_list_def)
  show ?thesis
    using history_roundtrip [OF works _ up at(1) _ at(2,3),
        of "[chat_line ''a'', chat_line ''b'', chat_line ''c'']"] at(4)
    by (simp add: chat_demo_env_simps chat_line_def)
qed

end
