(* ===== verification/ChatLogin.thy ===== *)
theory ChatLogin
  imports ChatRuns
begin

text \<open>
  Logging in: who a connection is taken for (\<open>who\<close>), and what an accepted login changes at the
  connections.
\<close>

definition who :: "'r chat_server \<Rightarrow> nat \<Rightarrow> (string \<times> bool) option" where
  "who s q = map_option (\<lambda>c. (ct_player_id c, ct_authenticated c)) (h_clients s q)"

lemma login_closed [simp]:
  "ct_closed (setAuthenticated b c) = ct_closed c" "ct_closed (ChatSession_setPlayerId p c) = ct_closed c"
  by (simp_all add: setAuthenticated_def ChatSession_setPlayerId_def)

lemma who_iff:
  "who s q = Some (p, b) \<Longrightarrow> chat_playerId q s = p" "who s q = Some (p, b) \<Longrightarrow> isAuthenticated q s = b"
  by (auto simp: who_def chat_playerId_def isAuthenticated_def)

lemma who_same [simp]:
  "who (chat_session_send E e sid s) = who s"
  "who (s\<lparr>h_redis := r\<rparr>) = who s" "who (s\<lparr>h_players := a\<rparr>) = who s"
  "who (s\<lparr>h_lobby_members := b\<rparr>) = who s" "who (s\<lparr>h_session_channels := c\<rparr>) = who s"
  "who (forget_player p st s) = who s" "who (save_player E p i name s) = who s"
  by (auto simp: who_def chat_session_send_def chat_upd_def ChatSession_send_def fun_eq_iff
      split: option.split)

lemma who_sendTo [simp]: "who (chat_sendTo E p e s) = who s"
  by (simp add: chat_sendTo_def split: option.split)

lemma who_history [simp]: "who (sendHistory E p i s) = who s"
  by (simp add: sendHistory_def fold_frame split: option.split prod.split sum.split)

lemma who_login [simp]:
  "who (chat_upd (\<lambda>c. setAuthenticated b (ChatSession_setPlayerId p c)) sid s) q =
     (if q = sid \<and> h_clients s sid \<noteq> None then Some (p, b) else who s q)"
  by (auto simp: who_def chat_upd_def setAuthenticated_def ChatSession_setPlayerId_def split: option.split)

lemma outbox_unchanged [simp]:
  "chat_outbox (chat_upd (\<lambda>c. setAuthenticated b (ChatSession_setPlayerId p c)) sid s) = chat_outbox s"
  "chat_outbox (s\<lparr>h_redis := r\<rparr>) = chat_outbox s" "chat_outbox (s\<lparr>h_players := a\<rparr>) = chat_outbox s"
  "chat_outbox (s\<lparr>h_lobby_members := l\<rparr>) = chat_outbox s"
  "chat_outbox (s\<lparr>h_session_channels := cs\<rparr>) = chat_outbox s"
  "chat_outbox (forget_player p st s) = chat_outbox s" "chat_outbox (save_player E p i name s) = chat_outbox s"
  by (auto simp: chat_outbox_def chat_upd_def setAuthenticated_def ChatSession_setPlayerId_def fun_eq_iff
      split: option.split)

text \<open>The history goes to one connection only, and only adds to what was sent before.\<close>

lemma outbox_replay_any:
  "\<exists>sent. chat_outbox (fold (\<lambda>m s. case ce_ParseFromString E m of None \<Rightarrow> s
      | Some receive \<Rightarrow> chat_sendTo E p (ChatReceive receive) s) ms s) q = chat_outbox s q @ sent \<and>
     (connection s p \<noteq> Some q \<longrightarrow> sent = [])"
proof (induction ms arbitrary: s)
  case (Cons m ms)
  have "connection (chat_sendTo E p e s) = connection s" for e
    by (rule connection_view) (simp add: frame_simps)
  then show ?case
    using Cons.IH [of s] Cons.IH [of "chat_sendTo E p (ChatReceive (the (ce_ParseFromString E m))) s"]
    by (cases "ce_ParseFromString E m"; cases "connection s p = Some q") (auto simp: chat_outbox_sendTo)
qed simp

lemma outbox_history_any:
  "\<exists>sent. chat_outbox (sendHistory E p i s) q = chat_outbox s q @ sent \<and> (connection s p \<noteq> Some q \<longrightarrow> sent = [])"
proof (cases "ce_redis E")
  case (Some R)
  obtain x r where op: "RedisClient_lrange R (history_key i) 0 (uint (ce_history_size E) - 1) (h_redis s) = (x, r)"
    by fastforce
  have "connection (s\<lparr>h_redis := r\<rparr>) = connection s" by (rule connection_view) (simp add: frame_simps)
  with outbox_replay_any [of E p _ "s\<lparr>h_redis := r\<rparr>" q] show ?thesis
    by (cases x) (simp_all add: sendHistory_def Some op)
qed (simp add: sendHistory_def)

lemma complete_auth_effect:
  assumes "chat_open s sid"
  shows "connection (complete_auth E p i name sid s) p = Some sid"
    and "who (complete_auth E p i name sid s) sid = Some (p, True)"
    and "q \<noteq> sid \<Longrightarrow> who (complete_auth E p i name sid s) q = who s q"
    and "q \<noteq> sid \<Longrightarrow> chat_outbox (complete_auth E p i name sid s) q = chat_outbox s q"
    and "\<exists>sent. chat_outbox (complete_auth E p i name sid s) sid =
      chat_outbox s sid @ encode (ce_proto E) (ChatAuthResult True []) # sent"
proof -
  define st where "st = \<lparr>ps_player_name = name, ps_session_id = i, ps_session = sid, ps_in_lobby = (i = [])\<rparr>"
  define t where "t = chat_session_send E (ChatAuthResult True []) sid
    (chat_upd (\<lambda>c. setAuthenticated True (ChatSession_setPlayerId p c)) sid
      (s\<lparr>h_players := umap_put p st (h_players s)\<rparr>))"
  have auth: "complete_auth E p i name sid s = (if i \<noteq> [] then sendHistory E p i t else t)"
    by (simp add: complete_auth_def Let_def t_def st_def)
  have players: "h_players t = umap_put p st (h_players s)"
    by (simp add: t_def channels_eqD(1) [OF channels_sends(1)] channels_eqD(1) [OF channels_updates(1)])
  then have conn: "connection t p = Some sid" by (simp add: connection_def st_def)
  have "h_clients s sid \<noteq> None" using assms by (auto simp: chat_open_iff)
  then have who: "who t r = (if r = sid then Some (p, True) else who s r)" for r by (simp add: t_def)
  have out: "chat_outbox t r = chat_outbox s r @
      (if r = sid then [encode (ce_proto E) (ChatAuthResult True [])] else [])" for r
    using assms by (auto simp: t_def outbox_send)
  have "connection (sendHistory E p i t) = connection t"
    by (rule connection_view) (simp add: frame_simps)
  with conn show "connection (complete_auth E p i name sid s) p = Some sid" by (simp add: auth)
  show "who (complete_auth E p i name sid s) sid = Some (p, True)"
    and "q \<noteq> sid \<Longrightarrow> who (complete_auth E p i name sid s) q = who s q"
    by (simp_all add: auth who)
  show "q \<noteq> sid \<Longrightarrow> chat_outbox (complete_auth E p i name sid s) q = chat_outbox s q"
    using outbox_history_any [of E p i t q] conn out [of q] by (auto simp: auth)
  show "\<exists>sent. chat_outbox (complete_auth E p i name sid s) sid =
      chat_outbox s sid @ encode (ce_proto E) (ChatAuthResult True []) # sent"
    using outbox_history_any [of E p i t sid] out [of sid] by (auto simp: auth)
qed

text \<open>An authentication that is accepted.\<close>

lemma auth_completes:
  assumes "p \<noteq> []" and "name \<noteq> []" and "i = [] \<or> umap_contains (h_session_channels s) i"
  obtains t where "handleAuth E p i name sid s = complete_auth E p i name sid t"
    and "chat_open t = chat_open s" and "who t = who (replace_existing E p sid s)"
    and "chat_outbox t = chat_outbox (replace_existing E p sid s)"
proof -
  define s1 where "s1 = replace_existing E p sid s"
  have same: "umap_contains (h_session_channels s1) i = umap_contains (h_session_channels s) i"
    using arg_cong [OF abs_replace [of E p sid s], of "\<lambda>a. i \<in> sp_sessions a"] by (simp add: s1_def)
  have open1: "chat_open s1 = chat_open s"
    by (simp add: s1_def replace_existing_def kick_existing_def split: option.split)
  show ?thesis
  proof (cases "i = []")
    case True
    then show ?thesis
      using assms open1 by (intro that [of "s1\<lparr>h_lobby_members := uset_insert p (h_lobby_members s1)\<rparr>"])
        (simp_all add: handleAuth_def Let_def flip: s1_def)
  next
    case False
    with assms(3) same obtain ch where "umap_find (h_session_channels s1) i = Some ch"
      by (auto simp: umap_contains_def)
    then show ?thesis
      using assms False open1 by (intro that [of "save_player E p i name (s1\<lparr>h_session_channels :=
          umap_put i (ch\<lparr>sc_members := uset_insert p (sc_members ch)\<rparr>) (h_session_channels s1)\<rparr>)"])
        (simp_all add: handleAuth_def Let_def flip: s1_def)
  qed
qed

text \<open>C18. A second login takes the player over: when a registered player authenticates on another
  connection, for the lobby or for a session that exists, the new connection is authenticated as
  that player and receives the player's messages from now on; the old one receives one notice,
  is no longer authenticated and belongs to no player, so that its end does not disturb the new
  one.\<close>

theorem second_login_takes_over:
  assumes st: "umap_find (h_players s) p = Some st" and old: "ps_session st = old" "old \<noteq> sid" "chat_open s old"
    and sid: "chat_open s sid" and ok: "p \<noteq> []" "name \<noteq> []" "i = [] \<or> umap_contains (h_session_channels s) i"
    and s': "s' = handleAuth E p i name sid s"
  shows "connection s' p = Some sid \<and> chat_playerId sid s' = p \<and> isAuthenticated sid s' \<and>
    chat_playerId old s' = [] \<and> \<not> isAuthenticated old s' \<and>
    chat_outbox s' old = chat_outbox s old @
      [encode (ce_proto E) (ChatError NOT_AUTHENTICATED ''Replaced by new connection'')] \<and>
    (\<exists>sent. chat_outbox s' sid = chat_outbox s sid @ encode (ce_proto E) (ChatAuthResult True []) # sent)"
proof -
  define s1 where "s1 = replace_existing E p sid s"
  have alive: "h_clients s old \<noteq> None" using old(3) by (auto simp: chat_open_iff)
  have kick: "s1 = chat_session_send E (ChatError NOT_AUTHENTICATED ''Replaced by new connection'') old
      (chat_upd (\<lambda>c. setAuthenticated False (ChatSession_setPlayerId [] c)) old (forget_player p st s))"
    using st old alive by (simp add: s1_def replace_existing_def kick_existing_def chat_lock_def)
  have s1: "who s1 old = Some ([], False)" "chat_outbox s1 sid = chat_outbox s sid"
    "chat_outbox s1 old = chat_outbox s old @
      [encode (ce_proto E) (ChatError NOT_AUTHENTICATED ''Replaced by new connection'')]"
    using old alive by (simp_all add: kick outbox_send)
  obtain t where t: "s' = complete_auth E p i name sid t" "chat_open t = chat_open s" "who t = who s1"
    "chat_outbox t = chat_outbox s1"
    unfolding s' s1_def by (rule auth_completes [OF ok])
  have "chat_open t sid" using sid t(2) by simp
  note effect = complete_auth_effect [OF this, where E = E and p = p and i = i and name = name, folded t(1)]
  have "who s' sid = Some (p, True)" "who s' old = Some ([], False)"
    using effect(2) effect(3) [OF old(2)] s1(1) t(3) by simp_all
  note id = who_iff [OF this(1)] who_iff [OF this(2)]
  show ?thesis
    using effect(1,5) effect(4) [OF old(2)] s1 t(4) by (simp add: id)
qed

definition demo_two :: "mem chat_server" where
  "demo_two = (cp_server chat_demo_start)\<lparr>h_clients := [0 \<mapsto> ChatSession_new, 1 \<mapsto> ChatSession_new],
     h_players := [(''alice'', \<lparr>ps_player_name = ''Alice'', ps_session_id = [], ps_session = 0, ps_in_lobby = True\<rparr>)],
     h_lobby_members := [''alice'']\<rparr>"

theorem second_login_takes_over_witness:
  "connection (handleAuth chat_demo_env ''alice'' [] ''Alice'' 1 demo_two) ''alice'' = Some 1 \<and>
   \<not> isAuthenticated 0 (handleAuth chat_demo_env ''alice'' [] ''Alice'' 1 demo_two)"
proof -
  have st: "umap_find (h_players demo_two) ''alice'' = Some \<lparr>ps_player_name = ''Alice'', ps_session_id = [],
      ps_session = 0, ps_in_lobby = True\<rparr>" by (simp add: demo_two_def)
  have "chat_open demo_two 0" "chat_open demo_two 1"
    by (simp_all add: demo_two_def chat_open_iff ChatSession_new_def)
  then show ?thesis
    using second_login_takes_over [OF st, of 0 1 "''Alice''" "[]" _ chat_demo_env] by simp
qed

end
