(* ===== verification/ChatWrites.thy ===== *)
theory ChatWrites
  imports ChatLogin
begin

text \<open>
  What holds of every single session of the chat server. The locale collects what a handler can
  do to a session object; a predicate that is kept by each of these holds of every session in
  every reachable state. It is used twice: for the write queue (\<open>async_write\<close> must not be started
  while another one is running on the socket), and for the identity of an authenticated session.
\<close>

lemma clients_announced [simp]:
  "h_clients (snd (fold (announce_player E i) players acc)) = h_clients (snd acc)"
  by (induction players arbitrary: acc) (auto simp: announce_player_def split: prod.split)

lemma clients_sessions:
  "h_clients (handleSessionCreated E i players s) = h_clients s"
  "h_clients (handleSessionEnded E i s) = h_clients s"
  by (auto simp: handleSessionCreated_def handleSessionEnded_def Let_def case_prod_beta move_to_lobby_def
      intro!: fold_frame [where g = h_clients] split: option.split)

locale chat_session_predicate =
  fixes I :: "chat_session \<Rightarrow> bool"
  assumes I_new: "I ChatSession_new"
    and I_push: "I c \<Longrightarrow> I (ChatSession_push f c)"
    and I_login: "p \<noteq> [] \<or> \<not> b \<Longrightarrow> I c \<Longrightarrow> I (setAuthenticated b (ChatSession_setPlayerId p c))"
    and I_clear: "ct_closed c \<Longrightarrow> I c \<Longrightarrow> I (ChatSession_setPlayerId [] c)"
    and I_reading: "I c \<Longrightarrow> I (c\<lparr>ct_reading := b\<rparr>)"
    and I_heartbeat: "I c \<Longrightarrow> I (c\<lparr>ct_heartbeat := b\<rparr>)"
    and I_buffer: "I c \<Longrightarrow> I (c\<lparr>ct_buffer := bs\<rparr>)"
    and I_close: "I c \<Longrightarrow> I (c\<lparr>ct_closed := True\<rparr>)"
    and I_written: "I c \<Longrightarrow> 0 < ct_writes c \<Longrightarrow> I (ChatSession_written c)"
    and I_failed: "I c \<Longrightarrow> 0 < ct_writes c \<Longrightarrow> I (c\<lparr>ct_writes := ct_writes c - 1, ct_closed := True\<rparr>)"
begin

definition all_sessions :: "'r chat_server \<Rightarrow> bool" where
  "all_sessions s \<longleftrightarrow> (\<forall>sid c. h_clients s sid = Some c \<longrightarrow> I c)"

lemma all_same_clients: "h_clients s = h_clients t \<Longrightarrow> all_sessions s = all_sessions t"
  by (simp add: all_sessions_def)

lemma all_upd: "all_sessions s \<Longrightarrow> (\<And>c. h_clients s sid = Some c \<Longrightarrow> I c \<Longrightarrow> I (f c)) \<Longrightarrow> all_sessions (chat_upd f sid s)"
  by (auto simp: all_sessions_def chat_upd_def split: option.split)

lemma all_fields [simp]:
  "all_sessions (s\<lparr>h_redis := r\<rparr>) = all_sessions s" "all_sessions (s\<lparr>h_redis := r, h_now := now\<rparr>) = all_sessions s"
  "all_sessions (s\<lparr>h_players := a\<rparr>) = all_sessions s" "all_sessions (s\<lparr>h_lobby_members := l\<rparr>) = all_sessions s"
  "all_sessions (s\<lparr>h_session_channels := cs\<rparr>) = all_sessions s"
  "all_sessions (s\<lparr>h_session_channels := cs, h_created := cr\<rparr>) = all_sessions s"
  "all_sessions (s\<lparr>h_internals := is\<rparr>) = all_sessions s" "all_sessions (s\<lparr>h_internals := is, h_next := n\<rparr>) = all_sessions s"
  "all_sessions (forget_player p st s) = all_sessions s" "all_sessions (with_redis E op s) = all_sessions s"
  "all_sessions (save_player E p i name s) = all_sessions s" "all_sessions (saveToHistory E i m s) = all_sessions s"
  "all_sessions (internal_upd g iid s) = all_sessions s" "all_sessions (chat_handleDisconnect p s) = all_sessions s"
  by (simp_all add: all_sessions_def internal_upd_def chat_handleDisconnect_def split: option.split)

lemma all_send: "all_sessions s \<Longrightarrow> all_sessions (chat_session_send E e sid s)"
  unfolding chat_session_send_def by (rule all_upd) (simp_all add: ChatSession_send_def I_push)

lemma all_sendTo: "all_sessions s \<Longrightarrow> all_sessions (chat_sendTo E p e s)"
  by (simp add: chat_sendTo_def all_send split: option.split)

lemma all_error: "all_sessions s \<Longrightarrow> all_sessions (sendError E p code msg s)"
  by (simp add: sendError_def all_sendTo)

lemma all_loops:
  assumes "all_sessions s"
  shows "all_sessions (broadcastToLobby E e s)" and "all_sessions (broadcastToSession E i e s)"
    and "all_sessions (sendHistory E p i s)"
  using assms
  by (auto simp: broadcastToLobby_def broadcastToSession_def sendHistory_def all_sendTo
      intro!: fold_keeps [where P = all_sessions] split: option.split prod.split sum.split)

lemma all_login:
  "all_sessions s \<Longrightarrow> p \<noteq> [] \<or> \<not> b \<Longrightarrow>
   all_sessions (chat_upd (\<lambda>c. setAuthenticated b (ChatSession_setPlayerId p c)) sid s)"
  by (rule all_upd) (simp_all add: I_login)

lemma all_replace: "all_sessions s \<Longrightarrow> all_sessions (replace_existing E p sid s)"
  by (simp add: replace_existing_def kick_existing_def all_send all_login split: option.split)

lemma all_complete: "all_sessions s \<Longrightarrow> p \<noteq> [] \<Longrightarrow> all_sessions (complete_auth E p i name sid s)"
  by (simp add: complete_auth_def Let_def all_loops all_send all_login)

lemma all_auth: "all_sessions s \<Longrightarrow> all_sessions (handleAuth E p i name sid s)"
  by (simp add: handleAuth_def Let_def all_send all_complete all_replace split: option.split)

lemma all_validate: "all_sessions s \<Longrightarrow> validateMessage E p content s = (b, s') \<Longrightarrow> all_sessions s'"
  by (auto simp: validateMessage_def all_error split: if_splits)

lemma all_chat_send: "all_sessions s \<Longrightarrow> all_sessions (handleChatSend E p channel content target s)"
  by (auto simp: handleChatSend_def Let_def all_error all_sendTo all_loops dest: all_validate
      split: option.split prod.split bool.split chat_channel.split)

lemma all_onSend: "all_sessions s \<Longrightarrow> all_sessions (ChatSession_onSend E channel content target sid s)"
  by (simp add: ChatSession_onSend_def Let_def all_send all_chat_send split: option.split prod.split sum.split)

lemma all_process: "all_sessions s \<Longrightarrow> all_sessions (ChatSession_processMessage E sid m s)"
  by (cases m) (simp_all add: ChatSession_processMessage_def all_auth all_onSend)

end

sublocale chat_session_predicate \<subseteq> messages: message_loop "ce_proto E" "ChatSession_processMessage E sid"
  "chat_closed sid" all_sessions for E :: "'r chat_env" and sid
  by unfold_locales (rule all_process)

context chat_session_predicate
begin

lemma all_close: "all_sessions s \<Longrightarrow> all_sessions (ChatSession_close sid s)"
proof -
  assume all: "all_sessions s"
  let ?s1 = "chat_upd (\<lambda>c. c\<lparr>ct_closed := True, ct_heartbeat := False\<rparr>) sid s"
  have s1: "all_sessions ?s1" by (rule all_upd [OF all]) (simp add: I_close I_heartbeat)
  moreover have "h_clients (chat_handleDisconnect p ?s1) = h_clients ?s1" for p
    by (simp add: chat_handleDisconnect_def split: option.split)
  then have "all_sessions (chat_upd (ChatSession_setPlayerId []) sid (chat_handleDisconnect p ?s1))" for p
    by (intro all_upd) (use s1 in \<open>auto simp: chat_upd_def I_clear split: option.splits\<close>)
  ultimately show ?thesis using all by (simp add: ChatSession_close_def Let_def)
qed

lemma all_read: "all_sessions s \<Longrightarrow> all_sessions (ChatSession_onRead E result sid s)"
  by (auto simp: ChatSession_onRead_def Let_def case_prod_beta ChatSession_doRead_def chat_resetHeartbeatTimer_def
      intro!: all_close all_upd messages.loop_keeps I_reading I_buffer I_heartbeat split: option.split)

lemma all_heartbeat: "all_sessions s \<Longrightarrow> all_sessions (ChatSession_onHeartbeat sid s)"
  unfolding ChatSession_onHeartbeat_def by (intro all_close all_upd I_heartbeat)

lemma all_written:
  assumes all: "all_sessions s" and c: "h_clients s sid = Some c" "0 < ct_writes c"
  shows "all_sessions (ChatSession_onWritten ec sid s)"
proof (cases ec)
  case False
  with all c show ?thesis
    by (auto simp: ChatSession_onWritten_def I_written intro!: all_upd)
next
  case True
  let ?f = "\<lambda>c. c\<lparr>ct_writes := ct_writes c - 1\<rparr>"
  have c': "I (c\<lparr>ct_writes := ct_writes c - 1, ct_closed := True\<rparr>)"
    by (rule I_failed [OF _ c(2)]) (use all c(1) in \<open>simp add: all_sessions_def\<close>)
  let ?close = "\<lambda>c. c\<lparr>ct_closed := True\<rparr>"
  have closed: "all_sessions (chat_upd (\<lambda>c. ?close (?f c)) sid s)"
    using c c' by (intro all_upd [OF all]) simp
  have "ChatSession_close sid (chat_upd ?f sid s) = (if ct_closed c then chat_upd (\<lambda>c. ?close (?f c)) sid s
      else (let s1 = chat_upd (\<lambda>c. c\<lparr>ct_heartbeat := False\<rparr>) sid (chat_upd (\<lambda>c. ?close (?f c)) sid s)
        in if chat_playerId sid s1 \<noteq> []
           then chat_upd (ChatSession_setPlayerId []) sid (chat_handleDisconnect (chat_playerId sid s1) s1) else s1))"
    using c(1) by (cases c) (simp add: ChatSession_close_def Let_def chat_closed_def chat_upd_def)
  moreover have s1: "all_sessions (chat_upd (\<lambda>c. c\<lparr>ct_heartbeat := False\<rparr>) sid (chat_upd (\<lambda>c. ?close (?f c)) sid s))"
    by (intro all_upd [OF closed] I_heartbeat)
  moreover have "all_sessions (chat_upd (ChatSession_setPlayerId []) sid (chat_handleDisconnect p
      (chat_upd (\<lambda>c. c\<lparr>ct_heartbeat := False\<rparr>) sid (chat_upd (\<lambda>c. ?close (?f c)) sid s))))" for p
    using s1 c(1)
    by (intro all_upd) (auto simp: chat_upd_def chat_handleDisconnect_def I_clear split: option.splits)
  ultimately show ?thesis using True closed by (simp add: ChatSession_onWritten_def Let_def)
qed

lemma all_internal_process: "all_sessions s \<Longrightarrow> all_sessions (InternalSession_processMessage E m s)"
  by (cases m) (simp_all add: InternalSession_processMessage_def
      all_same_clients [OF clients_sessions(1)] all_same_clients [OF clients_sessions(2)])

end

sublocale chat_session_predicate \<subseteq> internals: message_loop "ce_proto E" "InternalSession_processMessage E"
  "\<lambda>_. False" all_sessions for E :: "'r chat_env"
  by unfold_locales (rule all_internal_process)

context chat_session_predicate
begin

lemma all_internal_read: "all_sessions s \<Longrightarrow> all_sessions (InternalSession_onRead E result iid s)"
  by (simp add: InternalSession_onRead_def Let_def case_prod_beta InternalSession_close_def
      internals.loop_keeps split: option.split)

lemma all_destroy: "all_sessions s \<Longrightarrow> all_sessions (ChatSession_destroy sid s)"
  by (simp add: ChatSession_destroy_def Let_def) (simp add: all_sessions_def)

lemma all_handler:
  assumes "chat_handler late E s s'" and "all_sessions s"
  shows "all_sessions s'"
  using assms
  by (induction rule: chat_handler.induct)
    (simp_all add: all_read all_heartbeat all_written all_destroy all_internal_read InternalSession_destroy_def)

lemma all_accept: "all_sessions s \<Longrightarrow>
  all_sessions (ChatSession_start E sid (s\<lparr>h_clients := (h_clients s)(sid \<mapsto> ChatSession_new), h_next := n\<rparr>))"
  unfolding ChatSession_start_def ChatSession_doRead_def chat_resetHeartbeatTimer_def
  by (intro all_upd) (auto simp: all_sessions_def I_new I_reading I_heartbeat)

lemma all_step:
  assumes "chat_step late E p p'" and "all_sessions (cp_server p)"
  shows "all_sessions (cp_server p')"
  using assms
  by (induction rule: chat_step.induct)
    (simp_all add: all_handler ChatServer_onAccept_def ChatServer_doAccept_def all_accept
      InternalChannel_onAccept_def InternalChannel_doAccept_def InternalSession_start_def
      chat_signal_def ChatServer_stop_def InternalChannel_stop_def Let_def)

lemma all_reachable: "chat_reachable late E p \<Longrightarrow> all_sessions (cp_server p)"
  by (induction rule: chat_reachable.induct)
    (simp_all add: all_step, simp add: chat_main_def InternalChannel_start_def InternalChannel_doAccept_def
      ChatServer_start_def ChatServer_doAccept_def ChannelManager_new_def all_sessions_def)

end

section \<open>The two predicates\<close>

definition writes_ok :: "chat_session \<Rightarrow> bool" where
  "writes_ok c \<longleftrightarrow> ct_writes c \<le> 1 \<and> (ct_writes c = 1 \<longrightarrow> ct_write_queue c \<noteq> []) \<and>
     (\<not> ct_closed c \<longrightarrow> ct_write_queue c \<noteq> [] \<longrightarrow> ct_writes c = 1)"

definition identified :: "chat_session \<Rightarrow> bool" where
  "identified c \<longleftrightarrow> (ct_authenticated c \<and> \<not> ct_closed c \<longrightarrow> ct_player_id c \<noteq> [])"

interpretation writes: chat_session_predicate writes_ok
  by unfold_locales (auto simp: writes_ok_def ChatSession_new_def ChatSession_push_def ChatSession_doWrite_def
      ChatSession_written_def setAuthenticated_def ChatSession_setPlayerId_def Let_def split: list.splits)

interpretation identity: chat_session_predicate identified
  by unfold_locales (auto simp: identified_def ChatSession_new_def
      setAuthenticated_def ChatSession_setPlayerId_def)

text \<open>C20. In every reachable state a chat session has at most one write outstanding at its socket, an
  open session has one exactly if frames are waiting, and an open session that is authenticated
  carries a player identifier.\<close>

theorem chat_writes_never_overlap:
  assumes "chat_reachable late E p" and "h_clients (cp_server p) sid = Some c"
  shows "ct_writes c \<le> 1 \<and> (\<not> ct_closed c \<longrightarrow> (ct_writes c = 1 \<longleftrightarrow> ct_write_queue c \<noteq> [])) \<and>
    (ct_authenticated c \<and> \<not> ct_closed c \<longrightarrow> ct_player_id c \<noteq> [])"
  using writes.all_reachable [OF assms(1)] identity.all_reachable [OF assms(1)] assms(2)
  by (auto simp: writes.all_sessions_def identity.all_sessions_def writes_ok_def identified_def)

theorem chat_writes_never_overlap_witness:
  "\<exists>p c. chat_reachable False chat_demo_env p \<and> h_clients (cp_server p) 0 = Some c \<and>
     length (ct_write_queue c) = 2 \<and> ct_writes c \<le> 1"
proof -
  have "\<exists>p. chat_reachable False chat_demo_env p \<and>
      (\<exists>c. h_clients (cp_server p) 0 = Some c \<and> length (ct_write_queue c) = 2)"
    by (rule chat_demo_reachable_exists [where evs = "[Ev_chat_accept False, ev_chat_msg 0 1, ev_chat_msg 0 5]"])
      (simp add: chat_demo_simps)
  then show ?thesis using chat_writes_never_overlap by blast
qed

end
