(* ===== verification/ChatScenarios.thy ===== *)
theory ChatScenarios
  imports ChatLogin
begin

text \<open>
  Where the chat server ends up although it should not: for any state of the server, how it gets
  there and what follows. The last theorem is a run of the small environment.
\<close>

section \<open>Connections that end\<close>

lemma clients_disconnect [simp]: "h_clients (chat_handleDisconnect p s) = h_clients s"
  by (simp add: chat_handleDisconnect_def split: option.split)

lemma players_disconnect:
  "umap_find (h_players (chat_handleDisconnect p s)) q = (if q = p then None else umap_find (h_players s) q)"
  by (auto simp: chat_handleDisconnect_def forget_player_def Let_def split: option.split)

lemma lost_chat_parts:
  assumes "chat_open s sid" and "chat_playerId sid s = p" and "p \<noteq> []"
  shows "umap_find (h_players (ChatSession_onRead E None sid s)) q = (if q = p then None else umap_find (h_players s) q)"
    and "chat_closed sid (ChatSession_onRead E None sid s)"
    and "w \<noteq> sid \<Longrightarrow> h_clients (ChatSession_onRead E None sid s) w = h_clients s w"
proof -
  obtain c where c: "h_clients s sid = Some c" "\<not> ct_closed c" "ct_player_id c = p"
    using assms(1,2) by (auto simp: chat_open_iff chat_playerId_def)
  let ?s1 = "chat_upd (\<lambda>c. c\<lparr>ct_closed := True, ct_heartbeat := False\<rparr>) sid (chat_upd (\<lambda>c. c\<lparr>ct_reading := False\<rparr>) sid s)"
  have read: "ChatSession_onRead E None sid s = chat_upd (ChatSession_setPlayerId []) sid (chat_handleDisconnect p ?s1)"
    using c assms(3) by (simp add: ChatSession_onRead_def ChatSession_close_def Let_def chat_closed_def chat_playerId_def
        chat_upd_def)
  have "h_players ?s1 = h_players s" using c by (simp add: chat_upd_def)
  then show "umap_find (h_players (ChatSession_onRead E None sid s)) q = (if q = p then None else umap_find (h_players s) q)"
    by (simp add: read channels_eqD(1) [OF channels_updates(1)] players_disconnect)
  show "chat_closed sid (ChatSession_onRead E None sid s)"
    and "w \<noteq> sid \<Longrightarrow> h_clients (ChatSession_onRead E None sid s) w = h_clients s w"
    using c by (simp_all add: read chat_closed_def chat_upd_def ChatSession_setPlayerId_def)
qed

lemma session_abs: "map_option sp_session_id (sp_players (chat_abs s) p) = session_of (h_players s) p"
  by (simp add: session_of_def abs_player_def option.map_comp o_def)

section \<open>A second authentication under another name\<close>

text \<open>Commands that do not speak of a player leave its connection alone.\<close>

fun speaks_of :: "string \<Rightarrow> chat_command \<Rightarrow> bool" where
  "speaks_of p (Authenticate q i name c) = (q = p)"
| "speaks_of p (Forget q) = (q = p)"
| "speaks_of p _ = False"

lemma connection_stays:
  assumes "\<forall>c \<in> set cs. \<not> speaks_of p c"
  shows "map_option sp_connection (sp_players (fold spec_exec cs a) p) = map_option sp_connection (sp_players a p)"
  using assms
proof (induction cs arbitrary: a)
  case (Cons c cs)
  have "map_option sp_connection (sp_players (spec_exec c a) p) = map_option sp_connection (sp_players a p)"
    using Cons.prems by (cases c; cases "sp_players a p") (auto simp: spec_leave_def)
  with Cons show ?case by (simp del: spec_exec.simps)
qed simp

text \<open>C35. A connection that authenticates a second time under another identifier leaves its first player
  behind: \<open>handleAuth\<close> looks for an old state of the new identifier only, and \<open>close\<close> forgets the last
  identifier only. Player \<open>p\<close> is served by the connection \<open>sid\<close>; \<open>q\<close> authenticates on it, which is
  accepted, and the connection is lost. Then it is closed and \<open>q\<close> is gone, but \<open>p\<close> is still registered
  in its session or in the lobby, with the closed connection; and it stays so however the run goes on, unless a
  command speaks of \<open>p\<close> (somebody authenticates as \<open>p\<close>, or another connection of \<open>p\<close> ends).\<close>

theorem reauthentication_leaves_ghost_player:
  assumes "chat_reachable late E pr" and s: "s = cp_server pr"
    and p: "connection s p = Some sid" "chat_open s sid"
    and q: "q \<noteq> p" "q \<noteq> []" "name \<noteq> []" "i = [] \<or> umap_contains (h_session_channels s) i"
    and s1: "s1 = handleAuth E q i name sid s"
    and s2: "s2 = ChatSession_onRead E None sid s1"
    and run: "chat_goes late E pr2 cs pr'" "cp_server pr2 = s2" "distinct (h_created (cp_server pr'))"
      "\<forall>c \<in> set cs. \<not> speaks_of p c"
  shows "(chat_playerId sid s1 = q \<and> connection s1 q = Some sid) \<and>
    (chat_closed sid s2 \<and> connection s2 q = None \<and> connection s2 p = Some sid \<and>
     session_of (h_players s2) p = session_of (h_players s) p) \<and>
    connection (cp_server pr') p = Some sid"
proof -
  obtain t where t: "s1 = complete_auth E q i name sid t" "chat_open t = chat_open s"
    unfolding s1 by (rule auth_completes [OF q(2-4)])
  have "chat_open t sid" using p(2) t(2) by simp
  note login = complete_auth_effect [OF this, where E = E and p = q and i = i and name = name, folded t(1)]
  have who: "chat_playerId sid s1 = q" using login(2) by (rule who_iff)
  have one: "connection s1 p = Some sid" "session_of (h_players s1) p = session_of (h_players s) p"
    using p(1) q by (auto simp: s1 abs_auth simp flip: connection_abs session_abs)
  have "chat_open s1 sid" using p(2) by (simp add: s1)
  note lost = lost_chat_parts [OF this who q(2), where E = E, folded s2]
  have two: "connection s2 q = None" "connection s2 p = connection s1 p"
    "session_of (h_players s2) p = session_of (h_players s1) p"
    using q(1) by (simp_all add: connection_def session_of_def lost(1))
  have "chat_inv s1" unfolding s1 using chat_inv_reachable [OF assms(1)] s by (simp add: chat_inv_auth)
  then have "chat_inv (cp_server pr2)" by (simp add: run(2) s2 chat_inv_read)
  from commanded_goes [OF run(1) this] run(2,3)
  have "chat_abs (cp_server pr') = fold spec_exec cs (chat_abs s2)" by (simp add: commanded_def)
  then have "connection (cp_server pr') p = connection s2 p"
    using connection_stays [OF run(4), of "chat_abs s2"] by (metis connection_abs)
  with who login(1) one two lost(2) show ?thesis by simp
qed

text \<open>Alice authenticates, then Bob on the same connection; it is lost, and Bob comes back on another.\<close>

lemma demo_reauthenticated:
  "\<exists>p. chat_run False chat_demo_env [Ev_chat_accept False, Ev_chat_accept False, ev_chat_msg 0 1] chat_demo_start = Some p \<and>
     connection (cp_server p) ''alice'' = Some 0 \<and> chat_open (cp_server p) 0 \<and>
     h_created (cp_server p) = [] \<and>
     (\<exists>p'. chat_run False chat_demo_env [ev_chat_msg 1 2] (p\<lparr>cp_server := ChatSession_onRead chat_demo_env None 0
         (handleAuth chat_demo_env ''bob'' [] ''Bob'' 0 (cp_server p))\<rparr>) = Some p' \<and>
       chat_run_commands False chat_demo_env [ev_chat_msg 1 2] (p\<lparr>cp_server := ChatSession_onRead chat_demo_env None 0
         (handleAuth chat_demo_env ''bob'' [] ''Bob'' 0 (cp_server p))\<rparr>) = [Authenticate ''bob'' [] ''Bob'' 1] \<and>
       h_created (cp_server p') = [])"
  by (simp add: chat_demo_command_simps connection_def chat_open_def)

theorem reauthentication_leaves_ghost_player_witness:
  "\<exists>p p'. connection (cp_server p) ''alice'' = Some 0 \<and>
     chat_closed 0 (ChatSession_onRead chat_demo_env None 0 (handleAuth chat_demo_env ''bob'' [] ''Bob'' 0 (cp_server p))) \<and>
     chat_goes False chat_demo_env (p\<lparr>cp_server := ChatSession_onRead chat_demo_env None 0
       (handleAuth chat_demo_env ''bob'' [] ''Bob'' 0 (cp_server p))\<rparr>) [Authenticate ''bob'' [] ''Bob'' 1] p' \<and>
     connection (cp_server p') ''alice'' = Some 0"
proof -
  obtain p p' where p: "chat_run False chat_demo_env [Ev_chat_accept False, Ev_chat_accept False, ev_chat_msg 0 1] chat_demo_start = Some p"
    "connection (cp_server p) ''alice'' = Some 0" "chat_open (cp_server p) 0"
    and run: "chat_run False chat_demo_env [ev_chat_msg 1 2] (p\<lparr>cp_server := ChatSession_onRead chat_demo_env None 0
         (handleAuth chat_demo_env ''bob'' [] ''Bob'' 0 (cp_server p))\<rparr>) = Some p'"
      "chat_run_commands False chat_demo_env [ev_chat_msg 1 2] (p\<lparr>cp_server := ChatSession_onRead chat_demo_env None 0
         (handleAuth chat_demo_env ''bob'' [] ''Bob'' 0 (cp_server p))\<rparr>) = [Authenticate ''bob'' [] ''Bob'' 1]"
    and once: "h_created (cp_server p') = []"
    using demo_reauthenticated by blast
  let ?p2 = "p\<lparr>cp_server := ChatSession_onRead chat_demo_env None 0 (handleAuth chat_demo_env ''bob'' [] ''Bob'' 0 (cp_server p))\<rparr>"
  have reach: "chat_reachable False chat_demo_env p"
    using chat_run_reachable [OF chat_init p(1) [unfolded chat_demo_start_def]] .
  have goes: "chat_goes False chat_demo_env ?p2 [Authenticate ''bob'' [] ''Bob'' 1] p'"
    using chat_run_goes [OF goes_chat_stay run(1)] run(2) by simp
  have "chat_closed 0 (cp_server ?p2) \<and> connection (cp_server p') ''alice'' = Some 0"
    using reauthentication_leaves_ghost_player [OF reach refl p(2,3) _ _ _ _ refl refl goes,
        of "''bob''" "''Bob''" "[]"] once by simp
  with p(2) goes show ?thesis by (intro exI [of _ p] exI [of _ p']) simp
qed

section \<open>A refused authentication\<close>



section \<open>A repeated announcement\<close>

text \<open>C37. Announcing a session a second time replaces its channel by an empty one: every player \<open>p\<close> who was
  in it keeps the session identifier but is not a member any more, so that no message of the session
  reaches it; when the session then ends, the player is not moved to the lobby either. It stays in a
  session that does not exist, and outside the lobby.\<close>

theorem repeated_announcement_strands_player:
  assumes "chat_reachable late E pr" and s: "s = cp_server pr"
    and p: "session_of (h_players s) p = Some i" "i \<noteq> []" "umap_contains (h_session_channels s) i"
    and s1: "s1 = handleSessionCreated E i players s"
    and s2: "s2 = handleSessionEnded E i s1"
  shows "(session_of (h_players s1) p = Some i \<and> members_of (h_session_channels s1) i = []) \<and>
    (session_of (h_players s2) p = Some i \<and> \<not> umap_contains (h_session_channels s2) i \<and>
     p \<notin> set (h_lobby_members s2))"
proof -
  have inv: "chat_inv s2"
    using chat_inv_reachable [OF assms(1)] by (simp add: s2 s1 s chat_inv_created chat_inv_ended)
  note created = channels_eqD [OF channels_created [of E i players s, folded s1]]
  have one: "h_players s1 = h_players s" "members_of (h_session_channels s1) i = []"
    "umap_contains (h_session_channels s1) i"
    by (simp_all add: created)
  then obtain ch where "umap_find (h_session_channels s1) i = Some ch" by (auto simp: umap_contains_def)
  then have "channels s2 = channels (s1\<lparr>h_session_channels := umap_erase i (h_session_channels s1)\<rparr>)"
    using one(2) by (simp add: s2 channels_ended)
  note ended = channels_eqD [OF this]
  have two: "session_of (h_players s2) p = Some i" "\<not> umap_contains (h_session_channels s2) i"
    using p(1) by (simp_all add: ended one)
  then have "p \<notin> set (h_lobby_members s2)" using chat_invD(5) [OF inv, of p] p(2) by simp
  with one two p(1) show ?thesis by simp
qed

theorem repeated_announcement_strands_player_witness:
  "\<exists>s. session_of (h_players s) ''alice'' = Some ''game'' \<and>
     session_of (h_players (handleSessionEnded chat_demo_env ''game''
       (handleSessionCreated chat_demo_env ''game'' [(''alice'', ''Alice'')] s))) ''alice'' = Some ''game'' \<and>
     ''alice'' \<notin> set (h_lobby_members (handleSessionEnded chat_demo_env ''game''
       (handleSessionCreated chat_demo_env ''game'' [(''alice'', ''Alice'')] s)))"
proof -
  have "\<exists>p. chat_reachable False chat_demo_env p \<and> (session_of (h_players (cp_server p)) ''alice'' = Some ''game'' \<and>
      umap_contains (h_session_channels (cp_server p)) ''game'')"
    by (rule chat_demo_reachable_exists [where evs = "[Ev_internal_accept False, ev_room_msg 0 7,
        Ev_chat_accept False, ev_chat_msg 1 3]"])
      (simp add: chat_demo_simps session_of_def)
  then obtain p where p: "chat_reachable False chat_demo_env p" "session_of (h_players (cp_server p)) ''alice'' = Some ''game''"
    "umap_contains (h_session_channels (cp_server p)) ''game''" by blast
  from repeated_announcement_strands_player [OF p(1) refl p(2) _ p(3) refl refl] p(2)
  show ?thesis by (intro exI [of _ "cp_server p"]) simp
qed

section \<open>An uninvited player\<close>

text \<open>Nobody checks \<open>expected_players\<close>: a player who was not announced for a session joins it.\<close>

theorem uninvited_player_joins_session:
  "\<exists>p. chat_reachable False chat_demo_env p \<and>
     (\<exists>ch. umap_find (h_session_channels (cp_server p)) ''game'' = Some ch \<and>
        ''bob'' \<in> set (sc_members ch) \<and> ''bob'' \<notin> set (sc_expected_players ch))"
  by (rule chat_demo_reachable_exists [where evs = "[Ev_internal_accept False, ev_room_msg 0 7,
      Ev_chat_accept False, ev_chat_msg 1 4]"])
    (simp add: chat_demo_simps)

end
