(* ===== verification/GameEnd.thy ===== *)
theory GameEnd
  imports RoomService RoomProperties ChatProperties
begin

text \<open>
  The end of a game across both servers: the connection of a game server is lost, the room
  server closes the room in game and tells the chat server, and the players of the session are
  back in the lobby of the chat.
\<close>

section \<open>The room server\<close>

text \<open>There is only one game.\<close>

lemma only_game:
  assumes inv: "rooms_inv E g rooms p2r" and r: "umap_find rooms rid = Some r" "in_game r"
  shows "map fst (filter (\<lambda>(_, room). in_game room) rooms) = [rid]"
proof -
  let ?games = "filter (\<lambda>(_, room). in_game room) rooms"
  have "(rid, r) \<in> set ?games"
    using r set_umap_iff [OF rooms_invD(1) [OF inv], of rid r] by simp
  moreover have "filter (in_game \<circ> snd) rooms = ?games"
    by (rule filter_cong) auto
  then have "length ?games \<le> 1"
    using rooms_invD(6) [OF inv] by (simp add: umap_count_def)
  ultimately have "?games = [(rid, r)]"
    by (cases ?games) (auto simp: Suc_le_eq)
  then show ?thesis by simp
qed

lemma end_session_chat:
  "i \<noteq> [] \<Longrightarrow> e_chat_channel E \<Longrightarrow> m_chat (end_session E i s) = sendSessionEnded (e_chat_proto E) i (m_chat s)"
  by (simp add: end_session_def Let_def)

lemma lost_game_server:
  assumes inv: "consistent E s" and r: "umap_find (m_rooms s) rid = Some r" "in_game r"
  shows "m_rooms (handleGameServerDisconnect E s) = umap_erase rid (m_rooms s)"
    and "m_player_to_room (handleGameServerDisconnect E s) = fold umap_erase (playerIds r) (m_player_to_room s)"
    and "e_chat_channel E \<Longrightarrow> m_chat (handleGameServerDisconnect E s) =
      sendSessionEnded (e_chat_proto E) (r_session_id r) (m_chat s)"
proof -
  have h: "handleGameServerDisconnect E s = close_game_room E rid s"
    unfolding handleGameServerDisconnect_def Let_def only_game [OF inv r] by simp
  have "r_session_id r \<noteq> []"
    using rooms_invD(4) [OF inv r(1)] r(2) by (simp add: room_ok_def room_wf_def)
  then show "e_chat_channel E \<Longrightarrow> m_chat (handleGameServerDisconnect E s) =
      sendSessionEnded (e_chat_proto E) (r_session_id r) (m_chat s)"
    using r(1) by (simp add: h close_game_room_def Let_def end_session_chat)
qed (simp_all add: handleGameServerDisconnect_def only_game [OF inv r] close_game_room_parts [OF r(1)] del: filter.simps)

lemma lost_connection:
  assumes "m_games s gid = Some g" and "\<not> gs_closed g" and "gs_server_id g \<noteq> []"
  shows "GameServerSession_close E gid s = handleGameServerDisconnect E (upd_game (\<lambda>g. g\<lparr>gs_closed := True\<rparr>) gid s)"
  using assms by (simp add: GameServerSession_close_def Let_def)

section \<open>The chat server\<close>

lemma back_in_lobby:
  assumes inv: "chat_inv cs" "distinct (h_created cs)" and abs: "chat_abs cs' = spec_exec (Finish i) (chat_abs cs)"
    and "i \<noteq> []" and pid: "session_of (h_players cs) pid = Some i"
  shows "session_of (h_players cs') pid = Some []"
proof -
  have "pid \<in> set (members_of (h_session_channels cs) i)"
    using chat_invD(11) [OF inv(1)] inv(2) assms(4) pid by blast
  then have "umap_contains (h_session_channels cs) i"
    by (cases "umap_find (h_session_channels cs) i") (simp_all add: members_of_def umap_contains_def)
  then have "sp_players (chat_abs cs') pid = map_option (spec_leave i) (sp_players (chat_abs cs) pid)"
    by (simp add: abs)
  with pid show ?thesis by (auto simp: session_of_def abs_player_def spec_leave_def)
qed

section \<open>Both servers\<close>

text \<open>C6. The end of a game reaches the chat: when the connection of a game server that has identified
  itself is lost while a room is in game, the room disappears and its players are in no room, so
  that another game can start; one frame is queued on the link to the chat server. When its bytes
  arrive there, the channel of the session is gone and everybody who was in it is in the lobby.\<close>

theorem lost_game_ends_chat_session:
  assumes room: "room_reachable late E p" "uuids_fresh (m_rng (rp_server p))"
      "umap_find (m_rooms (rp_server p)) rid = Some r" "r_state r = ROOM_IN_GAME"
      "m_games (rp_server p) gid = Some g" "\<not> gs_closed g" "gs_server_id g \<noteq> []"
    and link: "e_chat_channel E" "cc_connected (m_chat (rp_server p))" "e_chat_proto E = ce_proto C"
      "frame_ok (ce_proto C) (SessionEnded (r_session_id r))"
    and chat: "chat_reachable late' C q" "distinct (h_created (cp_server q))"
      "h_internals (cp_server q) iid = Some c" "in_buffer c = []"
  shows "umap_find (m_rooms (GameServerSession_close E gid (rp_server p))) rid = None \<and>
    \<not> hasActiveGame (GameServerSession_close E gid (rp_server p)) \<and>
    (\<forall>pid \<in> set (playerIds r). umap_find (m_player_to_room (GameServerSession_close E gid (rp_server p))) pid = None) \<and>
    (\<exists>frame. cc_write_queue (m_chat (GameServerSession_close E gid (rp_server p))) =
        cc_write_queue (m_chat (rp_server p)) @ [frame] \<and>
      \<not> umap_contains (h_session_channels (InternalSession_onRead C (Some frame) iid (cp_server q))) (r_session_id r) \<and>
      (\<forall>pid. session_of (h_players (cp_server q)) pid = Some (r_session_id r) \<longrightarrow>
        session_of (h_players (InternalSession_onRead C (Some frame) iid (cp_server q))) pid = Some []))"
proof -
  let ?i = "r_session_id r" and ?cs = "cp_server q"
  let ?s = "upd_game (\<lambda>g. g\<lparr>gs_closed := True\<rparr>) gid (rp_server p)"
  let ?frame = "encode (ce_proto C) (SessionEnded ?i)"
  let ?cs' = "InternalSession_onRead C (Some ?frame) iid ?cs"
  have safe: "rooms_safe E ?s" using reachable_rooms_safe [OF room(1)] by simp
  have inv: "consistent E ?s" using safe room(2) by (intro rooms_safe_consistent) simp_all
  have r: "umap_find (m_rooms ?s) rid = Some r" "in_game r"
    using room(3,4) by (simp_all add: upd_game_def split: option.split)
  have chat0: "m_chat ?s = m_chat (rp_server p)" by (simp add: upd_game_def split: option.split)
  have session: "?i \<noteq> []" using rooms_invD(4) [OF inv r(1)] r(2) by (simp add: room_ok_def room_wf_def)
  note ends = lost_game_server [OF inv r] and lost = lost_connection [OF room(5-7), of E]
  have left: "consistent E (handleGameServerDisconnect E ?s)"
    using rooms_safe_game_disconnect [OF safe] room(2) by (intro rooms_safe_consistent) simp_all
  have "\<not> game_running (room_abs (handleGameServerDisconnect E ?s))"
    by (simp add: game_disconnect_refines [OF inv] game_running_def)
  then have idle: "\<not> hasActiveGame (GameServerSession_close E gid (rp_server p))"
    using game_running_abs [OF rooms_invD(1) [OF left]] by (simp add: lost hasActiveGame_iff room_abs_def)
  have out: "\<forall>pid \<in> set (playerIds r). umap_find (m_player_to_room (GameServerSession_close E gid (rp_server p))) pid = None"
    by (simp add: lost ends find_fold_erase)
  have queue: "cc_write_queue (m_chat (GameServerSession_close E gid (rp_server p))) =
      cc_write_queue (m_chat (rp_server p)) @ [?frame]"
    using link by (simp add: lost ends chat0 sendSessionEnded_def cc_send_def cc_push_def cc_doWrite_def Let_def)
  have ok: "\<forall>m \<in> set ([SessionEnded ?i] @ []). frame_ok (ce_proto C) m" using link(4) by simp
  have "?cs' = internal_upd (\<lambda>c. InternalSession_doRead (c\<lparr>in_buffer := []\<rparr>)) iid
        (InternalSession_processMessage C (SessionEnded ?i) (internal_upd (\<lambda>c. c\<lparr>in_reading := False\<rparr>) iid ?cs))"
    using internal_read_frames [OF chat(3) _ ok, of ?frame "[]"] chat(4)
    by (simp add: frames_def partial_of_def)
  moreover have "chat_inv (internal_upd (\<lambda>c. c\<lparr>in_reading := False\<rparr>) iid ?cs)"
    "distinct (h_created (internal_upd (\<lambda>c. c\<lparr>in_reading := False\<rparr>) iid ?cs))"
    using chat_inv_reachable [OF chat(1)] chat(2) by (simp_all add: internal_upd_def split: option.split)
  ultimately have abs: "chat_abs ?cs' = spec_exec (Finish ?i) (chat_abs ?cs)"
    by (simp add: internal_upd_view abs_room_server_message del: spec_exec.simps)
  have gone: "\<not> umap_contains (h_session_channels ?cs') ?i"
    using arg_cong [OF abs, of "\<lambda>a. ?i \<in> sp_sessions a"] by (auto split: if_splits)
  have "session_of (h_players ?cs') pid = Some []" if "session_of (h_players ?cs) pid = Some ?i" for pid
    using back_in_lobby [OF chat_inv_reachable [OF chat(1)] chat(2) abs _ that] session by blast
  moreover have "umap_find (m_rooms (GameServerSession_close E gid (rp_server p))) rid = None"
    by (simp add: lost ends(1))
  ultimately show ?thesis using idle out queue gone by blast
qed

section \<open>A lost game\<close>

text \<open>Alice plays alone; the game server has sent its heartbeat; the link has connected.\<close>

definition end_proto :: "chat_envelope proto" where
  "end_proto = \<lparr>SerializeAsString = (\<lambda>m. case m of SessionEnded _ \<Rightarrow> [7] | _ \<Rightarrow> [0]),
     ParseFromArray = (\<lambda>bs. map_of [([7], SessionEnded demo_id1),
       ([8], SessionCreated demo_id1 [(''alice'', ''Alice'')]), ([9], ChatAuth ''alice'' demo_id1 ''Alice'')] bs)\<rparr>"

definition end_env :: "mem room_env" where
  "end_env = demo_env\<lparr>e_chat_proto := end_proto\<rparr>"

definition end_chat_env :: "mem chat_env" where
  "end_chat_env = chat_demo_env\<lparr>ce_proto := end_proto\<rparr>"

lemma end_env_simps:
  "e_max_rooms end_env = 2" "e_max_players_per_room end_env = 4"
  "e_session_store end_env = Some mem_store" "e_chat_channel end_env" "e_chat_proto end_env = end_proto"
  "e_rate_limiter end_env = None" "e_heartbeat_timeout end_env = 30" "e_room_proto end_env = demo_proto"
  "e_game_server_host end_env = ''127.0.0.1''" "e_game_server_port end_env = 7979"
  by (simp_all add: end_env_def demo_env_simps)

lemma end_playing:
  "\<exists>p. room_reachable False end_env p \<and> m_rng (rp_server p) = demo_rng 12 \<and>
     (\<exists>r. umap_find (m_rooms (rp_server p)) demo_id0 = Some r \<and> r_state r = ROOM_IN_GAME \<and>
        r_session_id r = demo_id1 \<and> playerIds r = [''alice''] \<and> isHost ''alice'' r) \<and>
     (\<exists>g. m_games (rp_server p) 1 = Some g \<and> \<not> gs_closed g \<and> gs_server_id g = ''game-1'') \<and>
     m_chat (rp_server p) = ChatServerChannel_new\<lparr>cc_resolves := 1\<rparr>"
proof -
  have "\<exists>p. room_run False end_env [ev_connect, ev_msg 0 1, ev_msg 0 4, Ev_game_accept False, ev_game_msg 1 9]
      demo_start = Some p \<and> m_rng (rp_server p) = demo_rng 12 \<and>
     (\<exists>r. umap_find (m_rooms (rp_server p)) demo_id0 = Some r \<and> r_state r = ROOM_IN_GAME \<and>
        r_session_id r = demo_id1 \<and> playerIds r = [''alice''] \<and> isHost ''alice'' r) \<and>
     (\<exists>g. m_games (rp_server p) 1 = Some g \<and> \<not> gs_closed g \<and> gs_server_id g = ''game-1'') \<and>
     m_chat (rp_server p) = ChatServerChannel_new\<lparr>cc_resolves := 1\<rparr>"
    by (simp add: demo_simps end_env_simps handleGameServerHeartbeat_def sendSessionCreated_def cc_start_def
        cc_doResolveAndConnect_def ChatServerChannel_new_def)
  then show ?thesis using room_run_reachable [OF room_init] by (metis demo_start_def)
qed

lemma end_connected:
  assumes "room_reachable False end_env p" and "m_chat (rp_server p) = ChatServerChannel_new\<lparr>cc_resolves := 1\<rparr>"
  obtains p' where "room_reachable False end_env p'" and "cc_connected (m_chat (rp_server p'))"
    and "cc_write_queue (m_chat (rp_server p')) = []"
    and "m_rng (rp_server p') = m_rng (rp_server p)" and "m_rooms (rp_server p') = m_rooms (rp_server p)"
    and "m_games (rp_server p') = m_games (rp_server p)"
proof -
  let ?link = "\<lambda>f p. p\<lparr>rp_server := upd_chat (\<lambda>_. f (m_chat (rp_server p))) (rp_server p)\<rparr>"
  let ?p1 = "?link (cc_onResolved False) p"
  let ?p2 = "?link (cc_onConnected False) ?p1"
  have "room_step False end_env p ?p1"
    using assms(2) by (intro room_step.run room_handler.chat_link cc_handler.resolved) simp
  moreover have "m_chat (rp_server ?p1) = ChatServerChannel_new\<lparr>cc_connects := 1\<rparr>"
    using assms(2) by (simp add: upd_chat_def cc_defs Let_def ChatServerChannel_new_def)
  moreover from this have "room_step False end_env ?p1 ?p2"
    by (intro room_step.run room_handler.chat_link cc_handler.connected) (simp only: chat_link.select_convs chat_link.simps, simp)
  moreover have "cc_connected (m_chat (rp_server ?p2))" "cc_write_queue (m_chat (rp_server ?p2)) = []"
    using assms(2) by (simp_all add: upd_chat_def cc_defs Let_def ChatServerChannel_new_def)
  ultimately show ?thesis
    using that [of ?p2] room_next [OF room_next [OF assms(1)]] by (simp add: upd_chat_def)
qed

lemma end_decode:
  assumes "ParseFromArray P [b] = Some m"
  shows "tryDecode P [1, 0, 0, 0, b] = (Some m, [])"
    and "decode_loop P process closed [1, 0, 0, 0, b] s = ([], process m s)"
proof -
  show dec: "tryDecode P [1, 0, 0, 0, b] = (Some m, [])"
    using assms by (simp add: tryDecode_def decode_length_def MAX_MESSAGE_SIZE_def Let_def)
  have "decode_loop P process closed [] t = ([], t)" for t
    by (rule decode_loop_None) (simp add: tryDecode_def)
  then show "decode_loop P process closed [1, 0, 0, 0, b] s = ([], process m s)"
    by (subst decode_loop.simps) (simp add: dec Let_def)
qed

lemma end_parse:
  "ParseFromArray end_proto [8] = Some (SessionCreated demo_id1 [(''alice'', ''Alice'')])"
  "ParseFromArray end_proto [9] = Some (ChatAuth ''alice'' demo_id1 ''Alice'')"
  by (simp_all add: end_proto_def)

lemma end_chat_env_simps:
  "ce_max_message_length end_chat_env = 5" "ce_history_size end_chat_env = 2"
  "ce_session_ttl end_chat_env = 7200" "ce_redis end_chat_env = Some mem_redis"
  "ce_rate_limiter end_chat_env = None" "ce_heartbeat_timeout end_chat_env = 90"
  "ce_proto end_chat_env = end_proto"
  "ce_ParseFromString end_chat_env = (\<lambda>c. Some (chat_line c))"
  by (simp_all add: end_chat_env_def chat_demo_env_simps)

lemma end_chatting:
  "\<exists>q. chat_reachable False end_chat_env q \<and> h_created (cp_server q) = [demo_id1] \<and>
     (\<exists>c. h_internals (cp_server q) 0 = Some c \<and> in_buffer c = []) \<and>
     session_of (h_players (cp_server q)) ''alice'' = Some demo_id1"
proof -
  have "\<exists>q. chat_run False end_chat_env [Ev_internal_accept False, ev_room_msg 0 8, Ev_chat_accept False,
      ev_chat_msg 1 9] chat_demo_start = Some q \<and> h_created (cp_server q) = [demo_id1] \<and>
     (\<exists>c. h_internals (cp_server q) 0 = Some c \<and> in_buffer c = []) \<and>
     session_of (h_players (cp_server q)) ''alice'' = Some demo_id1"
    by (simp add: chat_demo_simps end_chat_env_simps end_decode [OF end_parse(1)] end_decode [OF end_parse(2)]
        session_of_def demo_ids)
  then show ?thesis using chat_run_reachable [OF chat_init] by (metis chat_demo_start_def)
qed

theorem lost_game_ends_chat_session_witness:
  "\<exists>p q frame. room_reachable False end_env p \<and> hasActiveGame (rp_server p) \<and>
     chat_reachable False end_chat_env q \<and> session_of (h_players (cp_server q)) ''alice'' = Some demo_id1 \<and>
     \<not> hasActiveGame (GameServerSession_close end_env 1 (rp_server p)) \<and>
     cc_write_queue (m_chat (GameServerSession_close end_env 1 (rp_server p))) = [frame] \<and>
     session_of (h_players (InternalSession_onRead end_chat_env (Some frame) 0 (cp_server q))) ''alice'' = Some []"
proof -
  obtain p0 r g where p0: "room_reachable False end_env p0"
    "m_chat (rp_server p0) = ChatServerChannel_new\<lparr>cc_resolves := 1\<rparr>"
    and state: "m_rng (rp_server p0) = demo_rng 12" "umap_find (m_rooms (rp_server p0)) demo_id0 = Some r"
      "m_games (rp_server p0) 1 = Some g"
    and r: "r_state r = ROOM_IN_GAME" "r_session_id r = demo_id1"
    and g: "\<not> gs_closed g" "gs_server_id g = ''game-1''"
    using end_playing by blast
  obtain p where p: "room_reachable False end_env p" "cc_connected (m_chat (rp_server p))"
    "cc_write_queue (m_chat (rp_server p)) = []"
    and same: "m_rng (rp_server p) = m_rng (rp_server p0)" "m_rooms (rp_server p) = m_rooms (rp_server p0)"
      "m_games (rp_server p) = m_games (rp_server p0)"
    by (rule end_connected [OF p0])
  obtain q c where q: "chat_reachable False end_chat_env q" "h_created (cp_server q) = [demo_id1]"
    "h_internals (cp_server q) 0 = Some c" "in_buffer c = []"
    "session_of (h_players (cp_server q)) ''alice'' = Some demo_id1"
    using end_chatting by blast
  have fresh: "uuids_fresh (m_rng (rp_server p))" by (simp add: same state demo_fresh)
  have once: "distinct (h_created (cp_server q))" by (simp add: q(2))
  have frame: "frame_ok (ce_proto end_chat_env) (SessionEnded (r_session_id r))"
    by (simp add: end_chat_env_simps r frame_ok_def proto_ok_def end_proto_def MAX_MESSAGE_SIZE_def)
  have active: "hasActiveGame (rp_server p)"
    using map_of_SomeD state(2) r(1) by (fastforce simp: hasActiveGame_def list_ex_iff same)
  have "\<exists>frame. \<not> hasActiveGame (GameServerSession_close end_env 1 (rp_server p)) \<and>
     cc_write_queue (m_chat (GameServerSession_close end_env 1 (rp_server p))) = [frame] \<and>
     session_of (h_players (InternalSession_onRead end_chat_env (Some frame) 0 (cp_server q))) ''alice'' = Some []"
    using lost_game_ends_chat_session [OF p(1) fresh state(2) [folded same(2)] r(1) state(3) [folded same(3)] g(1) _
        end_env_simps(4) p(2) _ frame q(1) once q(3,4)] g(2) q(5) r(2) p(3)
    by (auto simp: end_env_simps end_chat_env_simps)
  with p(1) active q(1,5) show ?thesis by blast
qed

section \<open>A game whose host leaves\<close>

lemma leave_outside [simp]:
  "m_chat (handleLeaveRoom E p s) = m_chat s" "m_redis (handleLeaveRoom E p s) = m_redis s"
  by (auto simp: handleLeaveRoom_def removeRoom_def Let_def split: option.split)

text \<open>C32. When the host leaves a room that is in game, or its connection is lost, the room disappears
  and the server is free for the next game, but the game's session does not end: nothing is sent to
  the chat server and the session stays registered in Redis, and with the room its identifier is
  forgotten.\<close>

theorem host_leaving_game_keeps_session:
  assumes "room_reachable late E p" and "uuids_fresh (m_rng (rp_server p))"
    and "umap_find (m_rooms (rp_server p)) rid = Some r" and "r_state r = ROOM_IN_GAME"
    and "isHost host r" and "host \<in> set (playerIds r)"
  shows "umap_find (m_rooms (handleDisconnect E host (rp_server p))) rid = None \<and>
    \<not> hasActiveGame (handleDisconnect E host (rp_server p)) \<and>
    (\<forall>pid \<in> set (playerIds r). umap_find (m_player_to_room (handleDisconnect E host (rp_server p))) pid = None) \<and>
    m_chat (handleDisconnect E host (rp_server p)) = m_chat (rp_server p) \<and>
    m_redis (handleDisconnect E host (rp_server p)) = m_redis (rp_server p)"
proof -
  let ?s = "rp_server p" and ?s' = "handleDisconnect E host (rp_server p)"
  have safe: "rooms_safe E ?s" using assms(1) by (rule reachable_rooms_safe)
  have inv: "consistent E ?s" using safe assms(2) by (rule rooms_safe_consistent)
  have host: "umap_find (m_player_to_room ?s) host = Some rid"
    using index_memberD [OF rooms_invD(3) [OF inv] assms(3,6)] .
  have tables: "m_rooms ?s' = umap_erase rid (umap_put rid (snd (removePlayer host r)) (m_rooms ?s))"
    "m_player_to_room ?s' = fold umap_erase (remove1 host (playerIds r)) (umap_erase host (m_player_to_room ?s))"
    using assms(5) by (simp_all add: handleDisconnect_def unregisterSession_def leave_parts [OF host assms(3)])
  have "umap_ok (m_rooms ?s')" using rooms_invD(1) [OF inv] by (simp add: tables)
  moreover have "k = rid" if "umap_find (m_rooms ?s) k = Some v" "in_game v" for k v
    using only_game [OF inv that] only_game [OF inv assms(3,4)] by simp
  ultimately have "\<not> hasActiveGame ?s'"
    unfolding hasActiveGame_iff umap_count_zero_iff not_not
    by (auto simp: set_umap_iff tables split: if_splits)
  moreover have "umap_find (m_player_to_room ?s') pid = None" if "pid \<in> set (playerIds r)" for pid
    using that by (auto simp: tables find_fold_erase in_set_remove1)
  ultimately show ?thesis by (simp add: tables(1)) (simp add: handleDisconnect_def unregisterSession_def)
qed

theorem host_leaving_game_keeps_session_witness:
  "\<exists>p. room_reachable False end_env p \<and> hasActiveGame (rp_server p) \<and>
     \<not> hasActiveGame (handleDisconnect end_env ''alice'' (rp_server p)) \<and>
     m_chat (handleDisconnect end_env ''alice'' (rp_server p)) = m_chat (rp_server p)"
proof -
  obtain p r where p: "room_reachable False end_env p" "m_rng (rp_server p) = demo_rng 12"
    "umap_find (m_rooms (rp_server p)) demo_id0 = Some r" "r_state r = ROOM_IN_GAME"
    "isHost ''alice'' r" "playerIds r = [''alice'']"
    using end_playing by blast
  have "hasActiveGame (rp_server p)"
    using map_of_SomeD [OF p(3)] p(4) by (fastforce simp: hasActiveGame_def list_ex_iff)
  with p host_leaving_game_keeps_session [OF p(1) _ p(3-5), simplified p(2) demo_fresh] show ?thesis
    by (intro exI [of _ p]) (simp add: demo_fresh)
qed

end
