(* ===== verification/GameEntry.thy ===== *)
theory GameEntry
  imports RoomProperties
begin

text \<open>
  How the players of a started game get into it. The room server hands every member a token;
  the members present their tokens to the game server, which asks the room server over its
  \<open>GameServerSession\<close> about each. The token keys of Redis are seen as a ledger (token to
  player and session); starting a game adds one entry for each member, and a validation
  answers from the ledger and strikes the entry out.
\<close>

section \<open>The ledger of tokens\<close>

definition ledger :: "json_api \<Rightarrow> (string \<Rightarrow> string option) \<Rightarrow> string \<Rightarrow> token_data option" where
  "ledger J keys tok = (case keys (token_key tok) of None \<Rightarrow> None | Some t \<Rightarrow> parse_token J t)"

definition admission :: "token_data option \<Rightarrow> envelope" where
  "admission entry = (case entry of
     None \<Rightarrow> TokenValidateResponse False [] []
   | Some td \<Rightarrow> TokenValidateResponse True (td_player_id td) (td_session_id td))"

text \<open>The answers to a sequence of requests: each entry of the ledger is good once.\<close>

fun admit :: "(string \<Rightarrow> token_data option) \<Rightarrow> string list \<Rightarrow> envelope list" where
  "admit L [] = []"
| "admit L (tok # toks) = admission (L tok) # admit (L(tok := None)) toks"

lemma length_admit [simp]: "length (admit L toks) = length toks"
  by (induction toks arbitrary: L) simp_all

lemma nth_admit:
  "k < length toks \<Longrightarrow>
   admit L toks ! k = admission (if toks ! k \<in> set (take k toks) then None else L (toks ! k))"
  by (induction toks arbitrary: L k) (auto simp: nth_Cons split: nat.split)

lemma ledger_put:
  "parse_token J t = Some td \<Longrightarrow> ledger J (m(token_key tok \<mapsto> t)) = (ledger J m)(tok \<mapsto> td)"
  by (auto simp: ledger_def fun_eq_iff token_key_inj)

lemma ledger_del: "ledger J (m(token_key tok := None)) = (ledger J m)(tok := None)"
  by (auto simp: ledger_def fun_eq_iff token_key_inj)

text \<open>\<open>SADD\<close> does not touch the strings.\<close>

definition sadd_keeps_strings :: "'r redis_api \<Rightarrow> ('r \<Rightarrow> string \<Rightarrow> string option) \<Rightarrow> bool" where
  "sadd_keeps_strings R kv \<longleftrightarrow> (\<forall>k x r. kv (snd (sw_sadd R k x r)) = kv r)"

lemma validateToken_ledger:
  assumes "redis_strings (ss_redis S) kv" and "tokens_up S up" and "up r"
  obtains r' where "validateToken S tok r = (Inr (ledger (ss_json S) (kv r) tok), r')"
    and "ledger (ss_json S) (kv r') = (ledger (ss_json S) (kv r))(tok := None)" and "up r'"
proof -
  obtain v r1 where get: "sw_get (ss_redis S) (token_key tok) r = (Inr v, r1)" "up r1"
    using assms(2,3) by (rule tokens_up_getE)
  then have v: "v = kv r (token_key tok)" "kv r1 = kv r" using redis_stringsD(2) [OF assms(1)] by blast+
  obtain n r2 where del: "sw_del (ss_redis S) (token_key tok) r1 = (Inr n, r2)" "up r2"
    using assms(2) get(2) by (rule tokens_up_delE)
  show ?thesis
  proof (cases v)
    case None
    with get have "validateToken S tok r = (Inr None, r1)"
      by (simp add: validateToken_def RedisClient_defs Let_def rreturn_def)
    moreover have "(ledger (ss_json S) (kv r))(tok := None) = ledger (ss_json S) (kv r1)"
      using v None by (auto simp: ledger_def fun_eq_iff)
    ultimately show ?thesis using that [of r1] v None get(2) by (simp add: ledger_def)
  next
    case (Some t)
    with get del have "validateToken S tok r = (Inr (parse_token (ss_json S) t), r2)"
      by (simp add: validateToken_def RedisClient_defs Let_def rreturn_def)
    moreover have "ledger (ss_json S) (kv r2) = (ledger (ss_json S) (kv r))(tok := None)"
      using redis_stringsD(3) [OF assms(1) del(1)] v by (simp add: ledger_del)
    moreover have "ledger (ss_json S) (kv r) tok = parse_token (ss_json S) t"
      using v(1) Some by (simp add: ledger_def flip: v(1))
    ultimately show ?thesis using that [of r2] del(2) by simp
  qed
qed

section \<open>The game server's requests\<close>

definition game_outbox :: "'r room_server \<Rightarrow> nat \<Rightarrow> byte list list" where
  "game_outbox s gid = (case m_games s gid of None \<Rightarrow> [] | Some g \<Rightarrow> gs_wire g @ gs_write_queue g)"

text \<open>What the read handler leaves in the session, apart from its buffer.\<close>

lemma push_game_wire [simp]:
  "gs_wire (GameServerSession_push f g) = gs_wire g" "gs_buffer (GameServerSession_push f g) = gs_buffer g"
  by (simp_all add: GameServerSession_push_def GameServerSession_doWrite_def Let_def)

lemma game_request_answered:
  assumes "redis_strings (ss_redis S) kv" and "tokens_up S up" and "up (m_redis s)" and "m_games s gid = Some g"
  shows "\<exists>g'. m_games (GameServerSession_processMessage E S gid (TokenValidateRequest tok) s) gid = Some g' \<and>
      gs_wire g' @ gs_write_queue g' = gs_wire g @ gs_write_queue g @
        [encode (e_room_proto E) (admission (ledger (ss_json S) (kv (m_redis s)) tok))]"
    and "ledger (ss_json S) (kv (m_redis (GameServerSession_processMessage E S gid (TokenValidateRequest tok) s))) =
      (ledger (ss_json S) (kv (m_redis s)))(tok := None)"
    and "up (m_redis (GameServerSession_processMessage E S gid (TokenValidateRequest tok) s))"
proof -
  obtain r' where v: "validateToken S tok (m_redis s) = (Inr (ledger (ss_json S) (kv (m_redis s)) tok), r')"
    "ledger (ss_json S) (kv r') = (ledger (ss_json S) (kv (m_redis s)))(tok := None)"
      "up r'"
    by (rule validateToken_ledger [OF assms(1-3)])
  have "GameServerSession_processMessage E S gid (TokenValidateRequest tok) s =
      game_send E (admission (ledger (ss_json S) (kv (m_redis s)) tok)) gid (s\<lparr>m_redis := r'\<rparr>)"
    using v(1) by (simp add: GameServerSession_processMessage_def handleTokenValidate_def Let_def admission_def
        split: option.split)
  with assms(4) v(2,3) show "\<exists>g'. m_games (GameServerSession_processMessage E S gid (TokenValidateRequest tok) s) gid = Some g' \<and>
      gs_wire g' @ gs_write_queue g' = gs_wire g @ gs_write_queue g @
        [encode (e_room_proto E) (admission (ledger (ss_json S) (kv (m_redis s)) tok))]"
    "ledger (ss_json S) (kv (m_redis (GameServerSession_processMessage E S gid (TokenValidateRequest tok) s))) =
      (ledger (ss_json S) (kv (m_redis s)))(tok := None)"
    "up (m_redis (GameServerSession_processMessage E S gid (TokenValidateRequest tok) s))"
    by (simp_all add: game_send_def upd_game_def GameServerSession_send_def)
qed

text \<open>The ledger once the tokens have been presented.\<close>

abbreviation strike :: "string list \<Rightarrow> (string \<Rightarrow> token_data option) \<Rightarrow> string \<Rightarrow> token_data option" where
  "strike \<equiv> fold (\<lambda>tok L. L(tok := None))"

lemma admit_append: "admit L (xs @ ys) = admit L xs @ admit (strike xs L) ys"
  by (induction xs arbitrary: L) simp_all

lemma game_requests_answered:
  assumes "redis_strings (ss_redis S) kv" and "tokens_up S up" and "up (m_redis s)" and "m_games s gid \<noteq> None"
    and "t = fold (GameServerSession_processMessage E S gid) (map TokenValidateRequest toks) s"
  shows "m_games t gid \<noteq> None" and "up (m_redis t)"
    and "game_outbox t gid = game_outbox s gid @
      map (encode (e_room_proto E)) (admit (ledger (ss_json S) (kv (m_redis s))) toks)"
    and "ledger (ss_json S) (kv (m_redis t)) = strike toks (ledger (ss_json S) (kv (m_redis s)))"
proof -
  have "m_games t gid \<noteq> None \<and> up (m_redis t) \<and> game_outbox t gid = game_outbox s gid @
      map (encode (e_room_proto E)) (admit (ledger (ss_json S) (kv (m_redis s))) toks) \<and>
    ledger (ss_json S) (kv (m_redis t)) = strike toks (ledger (ss_json S) (kv (m_redis s)))"
    using assms(3-5)
  proof (induction toks arbitrary: s)
    case (Cons tok toks)
    let ?u = "GameServerSession_processMessage E S gid (TokenValidateRequest tok) s"
    from Cons.prems obtain g where g: "m_games s gid = Some g" by auto
    from game_request_answered [OF assms(1,2) Cons.prems(1) g] obtain g' where g': "m_games ?u gid = Some g'"
      "gs_wire g' @ gs_write_queue g' = gs_wire g @ gs_write_queue g @
          [encode (e_room_proto E) (admission (ledger (ss_json S) (kv (m_redis s)) tok))]"
      "ledger (ss_json S) (kv (m_redis ?u)) = (ledger (ss_json S) (kv (m_redis s)))(tok := None)"
      "up (m_redis ?u)"
      by blast
    then have "game_outbox ?u gid = game_outbox s gid @
        [encode (e_room_proto E) (admission (ledger (ss_json S) (kv (m_redis s)) tok))]"
      using g by (simp add: game_outbox_def)
    with Cons.IH [of ?u] Cons.prems(3) g'(1,3,4) show ?case by (simp add: fun_upd_def)
  qed simp
  then show "m_games t gid \<noteq> None" and "up (m_redis t)"
    and "game_outbox t gid = game_outbox s gid @
      map (encode (e_room_proto E)) (admit (ledger (ss_json S) (kv (m_redis s))) toks)"
    and "ledger (ss_json S) (kv (m_redis t)) = strike toks (ledger (ss_json S) (kv (m_redis s)))"
    by blast+
qed

text \<open>One read: the complete requests are answered, the rest stays in the buffer.\<close>

lemma game_outbox_upd [simp]:
  "game_outbox (upd_game (\<lambda>g. g\<lparr>gs_reading := b\<rparr>) gid s) w = game_outbox s w"
  "game_outbox (upd_game (\<lambda>g. GameServerSession_doRead (g\<lparr>gs_buffer := part\<rparr>)) gid s) w = game_outbox s w"
  by (auto simp: game_outbox_def upd_game_def GameServerSession_doRead_def split: option.split)

lemma upd_game_redis [simp]: "m_redis (upd_game f gid s) = m_redis s"
  by (simp add: upd_game_def split: option.split)

lemma game_read_answered:
  assumes laws: "redis_strings (ss_redis S) kv" "tokens_up S up" "up (m_redis s)"
    and g: "m_games s gid = Some g" "gs_buffer g @ data = frames (e_room_proto E) (map TokenValidateRequest toks) @ part"
    and rest: "partial_of (e_room_proto E) ms part" "\<forall>m \<in> set (map TokenValidateRequest toks @ ms). frame_ok (e_room_proto E) m"
    and t: "t = GameServerSession_onRead E S (Some data) gid s"
  shows "\<exists>g'. m_games t gid = Some g' \<and> gs_buffer g' = part" and "up (m_redis t)"
    and "game_outbox t gid = game_outbox s gid @
      map (encode (e_room_proto E)) (admit (ledger (ss_json S) (kv (m_redis s))) toks)"
    and "ledger (ss_json S) (kv (m_redis t)) = strike toks (ledger (ss_json S) (kv (m_redis s)))"
proof -
  let ?s0 = "upd_game (\<lambda>g. g\<lparr>gs_reading := False\<rparr>) gid s"
  let ?s1 = "fold (GameServerSession_processMessage E S gid) (map TokenValidateRequest toks) ?s0"
  have s0: "m_games ?s0 gid = Some (g\<lparr>gs_reading := False\<rparr>)" using g(1) by (simp add: upd_game_def)
  have "t = upd_game (\<lambda>g. GameServerSession_doRead (g\<lparr>gs_buffer := part\<rparr>)) gid ?s1"
    using decode_loop_frames [OF rest(2,1), of "GameServerSession_processMessage E S gid" ?s0] s0 g(2)
    by (simp add: t GameServerSession_onRead_def feed_def)
  note this [simp]
  note req = game_requests_answered [OF laws(1,2), of ?s0 gid ?s1 E toks, OF _ _ refl, unfolded s0, simplified, OF laws(3)]
  from req(1) show "\<exists>g'. m_games t gid = Some g' \<and> gs_buffer g' = part"
    by (auto simp: upd_game_def GameServerSession_doRead_def)
  from req(2-4) show "up (m_redis t)" "game_outbox t gid = game_outbox s gid @
      map (encode (e_room_proto E)) (admit (ledger (ss_json S) (kv (m_redis s))) toks)"
    "ledger (ss_json S) (kv (m_redis t)) = strike toks (ledger (ss_json S) (kv (m_redis s)))"
    by simp_all
qed

lemma game_reads_answered:
  assumes laws: "redis_strings (ss_redis S) kv" "tokens_up S up" and "up (m_redis s)"
    and "m_games s gid = Some g"
    and "gs_buffer g @ concat chunks = frames (e_room_proto E) (map TokenValidateRequest toks)"
    and "partial_of (e_room_proto E) (map TokenValidateRequest toks) (gs_buffer g)"
    and "\<forall>tok \<in> set toks. frame_ok (e_room_proto E) (TokenValidateRequest tok)"
  shows "game_outbox (fold (\<lambda>c. GameServerSession_onRead E S (Some c) gid) chunks s) gid = game_outbox s gid @
    map (encode (e_room_proto E)) (admit (ledger (ss_json S) (kv (m_redis s))) toks)"
  using assms(3-7)
proof (induction chunks arbitrary: s g toks)
  case Nil
  then have "toks = []" using partial_of_all by fastforce
  then show ?case by simp
next
  case (Cons c chunks)
  let ?P = "e_room_proto E" and ?t = "GameServerSession_onRead E S (Some c) gid s"
  have "(gs_buffer g @ c) @ concat chunks = frames ?P (map TokenValidateRequest toks)"
    using Cons.prems(3) by simp
  then obtain ms1 ms2 part where ms: "map TokenValidateRequest toks = ms1 @ ms2"
    "gs_buffer g @ c = frames ?P ms1 @ part" "partial_of ?P ms2 part" "part @ concat chunks = frames ?P ms2"
    using prefix_of_frames by blast
  then obtain xs ys where toks: "toks = xs @ ys" "ms1 = map TokenValidateRequest xs" "ms2 = map TokenValidateRequest ys"
    by (auto simp: map_eq_append_conv)
  have "\<forall>m \<in> set (map TokenValidateRequest xs @ map TokenValidateRequest ys). frame_ok ?P m"
    using Cons.prems(5) toks(1) by auto
  note read = game_read_answered [OF laws Cons.prems(1,2) ms(2) [unfolded toks] ms(3) [unfolded toks] this refl]
  from read(1) obtain g' where g': "m_games ?t gid = Some g'" "gs_buffer g' = part" by blast
  with Cons.IH [of ?t g' ys] ms(3,4) toks Cons.prems(5) read(2-4) show ?case by (simp add: admit_append)
qed

section \<open>Entries of a start\<close>

lemma issued_tokens_in_ledger:
  assumes "e_session_store E = Some S" "tokens_up S up" "redis_strings (ss_redis S) kv" "up (m_redis s)"
    and "\<forall>q \<in> set ps. token_json_ok (ss_json S) q i"
    and "uuids_fresh (m_rng (fold (send_game_start E i) ps s))" and "j < length ps"
  shows "ledger (ss_json S) (kv (m_redis (fold (send_game_start E i) ps s))) (nth_token E i ps j s) =
    Some \<lparr>td_player_id = ps ! j, td_session_id = i\<rparr>"
  using tokens_stored [OF assms] assms(5,7) parse_token_ok
  by (fastforce simp: ledger_def)

lemma other_tokens_in_ledger:
  assumes store: "e_session_store E = Some S" "tokens_up S up" "redis_strings (ss_redis S) kv" "up (m_redis s)"
    and json: "\<forall>q \<in> set ps. token_json_ok (ss_json S) q i" and "\<forall>j < length ps. tok \<noteq> nth_token E i ps j s"
  shows "ledger (ss_json S) (kv (m_redis (fold (send_game_start E i) ps s))) tok =
    ledger (ss_json S) (kv (m_redis s)) tok"
  using assms(5,6)
proof (induction ps rule: rev_induct)
  case (snoc q ps)
  let ?t = "fold (send_game_start E i) ps s"
  have ok: "token_json_ok (ss_json S) q i" and oks: "\<forall>x \<in> set ps. token_json_ok (ss_json S) x i"
    using snoc.prems(1) by auto
  have new: "tok \<noteq> fst (generateUuid (m_rng ?t))" using snoc.prems(2) by auto
  have old: "\<forall>j < length ps. tok \<noteq> nth_token E i ps j s"
  proof (intro allI impI)
    fix j assume "j < length ps"
    then show "tok \<noteq> nth_token E i ps j s" using snoc.prems(2) [rule_format, of j] by simp
  qed
  obtain txtv where "json_dump (ss_json S) (token_json q i) = Inr txtv"
    "kv (m_redis (send_game_start E i q ?t)) = (kv (m_redis ?t))(token_key (fst (generateUuid (m_rng ?t))) \<mapsto> txtv)"
    using send_game_start_works [OF store(1-3) tokens_keep_up [OF store oks] ok] by metis
  with snoc.IH [OF oks old] new show ?case by (simp add: ledger_def token_key_inj)
qed simp

lemma handleStartGame_games [simp]: "m_games (handleStartGame E host s) = m_games s"
proof -
  have "m_games (fold (send_game_start E i) ps t) = m_games t" for i ps and t :: "'a room_server"
    by (induction ps arbitrary: t) simp_all
  then show ?thesis
    by (simp add: handleStartGame_def Let_def next_uuid_def split: option.split prod.split)
qed

text \<open>What an accepted start does to the connections and to the ledger.\<close>

lemma start_fills_ledger:
  assumes run: "room_reachable False E p" "uuids_fresh (m_rng (handleStartGame E host (rp_server p)))"
    and room: "umap_find (m_player_to_room (rp_server p)) host = Some rid"
      "umap_find (m_rooms (rp_server p)) rid = Some r" "[] \<notin> set (playerIds r)"
    and guards: "isHost host r" "\<not> hasActiveGame (rp_server p)" "canStart r"
    and store: "e_session_store E = Some S" "tokens_up S up" "redis_strings (ss_redis S) kv"
      "up (m_redis (rp_server p))"
      "\<forall>q \<in> set (playerIds r). token_json_ok (ss_json S) q (fst (generateUuid (m_rng (rp_server p))))"
    and sets: "sadd_keeps_strings (ss_redis S) kv"
  obtains i ts where "up (m_redis (handleStartGame E host (rp_server p)))" and "umap_find (m_rooms (handleStartGame E host (rp_server p))) rid =
       Some (setSessionId i (setState ROOM_IN_GAME r))"
    and "length ts = length (playerIds r)" and "distinct ts"
    and "\<forall>j < length ts. \<exists>sid. umap_find (m_sessions (rp_server p)) (playerIds r ! j) = Some sid \<and>
       outbox (handleStartGame E host (rp_server p)) sid = outbox (rp_server p) sid @
         [encode (e_room_proto E) (GameStart i (ts ! j) (e_game_server_host E) (ucast (e_game_server_port E)))]"
    and "\<forall>j < length ts. ledger (ss_json S) (kv (m_redis (handleStartGame E host (rp_server p)))) (ts ! j) =
       Some \<lparr>td_player_id = playerIds r ! j, td_session_id = i\<rparr>"
    and "\<forall>tok. tok \<notin> set ts \<longrightarrow> ledger (ss_json S) (kv (m_redis (handleStartGame E host (rp_server p)))) tok =
       ledger (ss_json S) (kv (m_redis (rp_server p))) tok"
proof -
  let ?s = "rp_server p" and ?i = "fst (generateUuid (m_rng (rp_server p)))" and ?ps = "playerIds r"
  obtain t where t: "t = with_store E (\<lambda>S. registerGameSession S ?i) (?s\<lparr>m_rng := snd (generateUuid (m_rng ?s)),
        m_rooms := umap_put rid (setSessionId ?i (setState ROOM_IN_GAME r)) (m_rooms ?s)\<rparr>)"
    and members: "distinct ?ps"
    and parts: "m_redis (handleStartGame E host ?s) = m_redis (fold (send_game_start E ?i) ?ps t)"
      "m_rng (handleStartGame E host ?s) = m_rng (fold (send_game_start E ?i) ?ps t)"
      "m_rooms (handleStartGame E host ?s) = m_rooms t"
    and up: "up (m_redis t)"
    and sent: "\<forall>j < length ?ps. \<exists>sid. umap_find (m_sessions ?s) (?ps ! j) = Some sid \<and>
       outbox (handleStartGame E host ?s) sid = outbox ?s sid @ [encode (e_room_proto E)
         (GameStart ?i (nth_token E ?i ?ps j t) (e_game_server_host E) (ucast (e_game_server_port E)))]"
    by (rule start_hands_out_tokens [OF run room guards store])
  have keys: "kv (m_redis t) = kv (m_redis ?s)"
    using sets store(1) by (simp add: t with_store_def rtry_def registerGameSession_def RedisClient_sadd_def
        sadd_keeps_strings_def)
  let ?ts = "map (\<lambda>j. nth_token E ?i ?ps j t) [0..<length ?ps]"
  have own: "\<forall>j < length ?ts. ledger (ss_json S) (kv (m_redis (handleStartGame E host ?s))) (?ts ! j) =
      Some \<lparr>td_player_id = ?ps ! j, td_session_id = ?i\<rparr>"
    using issued_tokens_in_ledger [OF store(1-3) up store(5)] run(2) parts(1,2) by simp
  have ups: "up (m_redis (handleStartGame E host ?s))"
    using tokens_keep_up [OF store(1-3) up store(5)] by (simp add: parts(1))
  have dist: "distinct ?ts"
    unfolding distinct_conv_nth
  proof (intro allI impI)
    fix j k assume jk: "j < length ?ts" "k < length ?ts" "j \<noteq> k"
    then have "?ps ! j \<noteq> ?ps ! k" using members by (simp add: nth_eq_iff_index_eq)
    then show "?ts ! j \<noteq> ?ts ! k" using own jk by (metis option.inject token_data.ext_inject)
  qed
  have other: "ledger (ss_json S) (kv (m_redis (handleStartGame E host ?s))) tok = ledger (ss_json S) (kv (m_redis ?s)) tok"
    if "tok \<notin> set ?ts" for tok
  proof -
    have "\<forall>j < length ?ps. tok \<noteq> nth_token E ?i ?ps j t" using that by auto
    from other_tokens_in_ledger [OF store(1-3) up store(5) this] show ?thesis by (simp add: parts(1) keys)
  qed
  have "umap_find (m_rooms (handleStartGame E host ?s)) rid = Some (setSessionId ?i (setState ROOM_IN_GAME r))"
    by (simp add: parts(3) t)
  then show ?thesis by (rule that [of ?i ?ts, OF ups _ _ dist _ own]) (use sent other in \<open>simp_all\<close>)
qed

section \<open>Entry to a game\<close>

text \<open>C5. From the start of a game to the door of the game server. An accepted start puts the room in
  game with a new session identifier and gives every member, on its own connection, one
  \<open>GameStart\<close> with this identifier, and no two members the same token. Whatever tokens are then presented
  to the game server, in whatever order, and however the bytes of its requests are cut into
  reads, the room server answers each request, in order: a member's token is accepted the
  first time, for exactly this member and this session; a token presented before is refused,
  and so is a token that the start did not issue and that Redis did not hold. Redis is assumed to be
  up for the token keys from the state \<open>p\<close> on (\<open>tokens_up\<close>: a positive time to live, and no token key
  of another type), and nlohmann/json to write and read back the tokens of the members.\<close>

theorem members_enter_game_once:
  assumes run: "room_reachable False E p" "uuids_fresh (m_rng (handleStartGame E host (rp_server p)))"
    and room: "umap_find (m_player_to_room (rp_server p)) host = Some rid"
      "umap_find (m_rooms (rp_server p)) rid = Some r" "[] \<notin> set (playerIds r)"
    and guards: "isHost host r" "\<not> hasActiveGame (rp_server p)" "canStart r"
    and store: "e_session_store E = Some S" "tokens_up S up" "redis_strings (ss_redis S) kv"
      "up (m_redis (rp_server p))"
      "\<forall>q \<in> set (playerIds r). token_json_ok (ss_json S) q (fst (generateUuid (m_rng (rp_server p))))"
    and redis: "sadd_keeps_strings (ss_redis S) kv"
    and game: "m_games (rp_server p) gid = Some g" "gs_buffer g = []"
    and bytes: "concat chunks = concat (map (encode (e_room_proto E)) (map TokenValidateRequest toks))"
      "\<forall>tok \<in> set toks. frame_ok (e_room_proto E) (TokenValidateRequest tok)"
  shows "\<exists>i ts answers. umap_find (m_rooms (handleStartGame E host (rp_server p))) rid =
      Some (setSessionId i (setState ROOM_IN_GAME r)) \<and>
    length ts = length (playerIds r) \<and> distinct ts \<and>
    (\<forall>j < length ts. \<exists>sid. umap_find (m_sessions (rp_server p)) (playerIds r ! j) = Some sid \<and>
       outbox (handleStartGame E host (rp_server p)) sid = outbox (rp_server p) sid @
         [encode (e_room_proto E) (GameStart i (ts ! j) (e_game_server_host E) (ucast (e_game_server_port E)))]) \<and>
    game_outbox (fold (\<lambda>c. GameServerSession_onRead E S (Some c) gid) chunks (handleStartGame E host (rp_server p))) gid =
      game_outbox (rp_server p) gid @ map (encode (e_room_proto E)) answers \<and>
    length answers = length toks \<and>
    (\<forall>k < length toks. \<forall>j < length ts. toks ! k = ts ! j \<longrightarrow> toks ! k \<notin> set (take k toks) \<longrightarrow>
       answers ! k = TokenValidateResponse True (playerIds r ! j) i) \<and>
    (\<forall>k < length toks. toks ! k \<in> set (take k toks) \<or>
         toks ! k \<notin> set ts \<and> kv (m_redis (rp_server p)) (token_key (toks ! k)) = None \<longrightarrow>
       answers ! k = TokenValidateResponse False [] [])"
proof -
  let ?s = "rp_server p" and ?t = "handleStartGame E host (rp_server p)"
  let ?L = "ledger (ss_json S) (kv (m_redis ?t))"
  obtain i ts where up: "up (m_redis ?t)" and in_game: "umap_find (m_rooms ?t) rid = Some (setSessionId i (setState ROOM_IN_GAME r))"
    and ts: "length ts = length (playerIds r)" "distinct ts"
    and sent: "\<forall>j < length ts. \<exists>sid. umap_find (m_sessions ?s) (playerIds r ! j) = Some sid \<and>
       outbox ?t sid = outbox ?s sid @
         [encode (e_room_proto E) (GameStart i (ts ! j) (e_game_server_host E) (ucast (e_game_server_port E)))]"
    and own: "\<forall>j < length ts. ?L (ts ! j) = Some \<lparr>td_player_id = playerIds r ! j, td_session_id = i\<rparr>"
    and other: "\<forall>tok. tok \<notin> set ts \<longrightarrow> ?L tok = ledger (ss_json S) (kv (m_redis ?s)) tok"
    by (rule start_fills_ledger [OF run room guards store redis])
  have g: "m_games ?t gid = Some g" "gs_buffer g @ concat chunks = frames (e_room_proto E) (map TokenValidateRequest toks)"
    using game bytes(1) by (simp_all add: frames_def)
  have "encode (e_room_proto E) m \<noteq> []" for m using length_encode_ge [of "e_room_proto E" m] by auto
  then have "partial_of (e_room_proto E) (map TokenValidateRequest toks) (gs_buffer g)"
    using game(2) by (cases toks) (auto simp: partial_of_def)
  note answered = game_reads_answered [OF store(3,2) up g this bytes(2)]
  have "game_outbox ?t gid = game_outbox ?s gid" by (simp add: game_outbox_def)
  moreover have "admit ?L toks ! k = TokenValidateResponse True (playerIds r ! j) i"
    if "k < length toks" "j < length ts" "toks ! k = ts ! j" "toks ! k \<notin> set (take k toks)" for k j
    using that own by (simp add: nth_admit admission_def)
  moreover have "admit ?L toks ! k = TokenValidateResponse False [] []"
    if "k < length toks" "toks ! k \<in> set (take k toks) \<or>
         toks ! k \<notin> set ts \<and> kv (m_redis ?s) (token_key (toks ! k)) = None" for k
    using that other by (auto simp: nth_admit admission_def ledger_def)
  ultimately show ?thesis
    using in_game ts sent answered by (intro exI [of _ i] exI [of _ ts] exI [of _ "admit ?L toks"]) simp
qed

text \<open>Alice has a room, a game server is connected, and Alice's token can be encoded.\<close>

definition entry_proto :: "envelope proto" where
  "entry_proto = \<lparr>
     SerializeAsString = (\<lambda>m. if m = TokenValidateRequest demo_id2 then [10]
       else if m = GameStart demo_id1 demo_id2 ''127.0.0.1'' 7979 then [11] else [0]),
     ParseFromArray = (\<lambda>bs. if bs = [10] then Some (TokenValidateRequest demo_id2) else ParseFromArray demo_proto bs)\<rparr>"

definition entry_env :: "mem room_env" where
  "entry_env = demo_env\<lparr>e_room_proto := entry_proto\<rparr>"

lemma entry_env_simps:
  "e_max_rooms entry_env = 2" "e_max_players_per_room entry_env = 4"
  "e_session_store entry_env = Some mem_store" "e_chat_channel entry_env" "e_rate_limiter entry_env = None"
  "e_heartbeat_timeout entry_env = 30" "e_room_proto entry_env = entry_proto"
  "e_game_server_host entry_env = ''127.0.0.1''" "e_game_server_port entry_env = 7979"
  by (simp_all add: entry_env_def demo_env_simps)

lemma entry_decode: "tryDecode entry_proto [1, 0, 0, 0, 1] = (Some (CreateRoom ''alice'' ''Alice'' ''room'' 2), [])"
  by (simp add: tryDecode_def decode_length_def MAX_MESSAGE_SIZE_def Let_def entry_proto_def demo_proto_def
      demo_table_def)

lemma entry_loop:
  "decode_loop entry_proto process closed [1, 0, 0, 0, 1] s =
     ([], process (CreateRoom ''alice'' ''Alice'' ''room'' 2) s)"
proof -
  have "decode_loop entry_proto process closed [] t = ([], t)" for t
    by (rule decode_loop_None) (simp add: tryDecode_def)
  then show ?thesis by (simp add: decode_loop_Some [OF entry_decode])
qed

lemma entry_ready:
  "\<exists>p. room_reachable False entry_env p \<and>
     umap_find (m_player_to_room (rp_server p)) ''alice'' = Some demo_id0 \<and>
     umap_find (m_rooms (rp_server p)) demo_id0 = Some (Room_new demo_id0 ''room'' ''alice'' ''Alice'' 2) \<and>
     \<not> hasActiveGame (rp_server p) \<and> umap_find (m_sessions (rp_server p)) ''alice'' = Some 0 \<and>
     m_games (rp_server p) 1 = Some (GameServerSession_doRead GameServerSession_new) \<and>
     m_rng (handleStartGame entry_env ''alice'' (rp_server p)) = demo_rng 12 \<and> m_redis (rp_server p) = mem_empty \<and>
     outbox (handleStartGame entry_env ''alice'' (rp_server p)) 0 = outbox (rp_server p) 0 @
       [encode entry_proto (GameStart demo_id1 demo_id2 ''127.0.0.1'' 7979)]"
proof -
  have "\<exists>p. room_run False entry_env [ev_connect, ev_msg 0 1, Ev_game_accept False] demo_start = Some p \<and>
     umap_find (m_player_to_room (rp_server p)) ''alice'' = Some demo_id0 \<and>
     umap_find (m_rooms (rp_server p)) demo_id0 = Some (Room_new demo_id0 ''room'' ''alice'' ''Alice'' 2) \<and>
     \<not> hasActiveGame (rp_server p) \<and> umap_find (m_sessions (rp_server p)) ''alice'' = Some 0 \<and>
     m_games (rp_server p) 1 = Some (GameServerSession_doRead GameServerSession_new) \<and>
     m_rng (handleStartGame entry_env ''alice'' (rp_server p)) = demo_rng 12 \<and> m_redis (rp_server p) = mem_empty \<and>
     outbox (handleStartGame entry_env ''alice'' (rp_server p)) 0 = outbox (rp_server p) 0 @
       [encode entry_proto (GameStart demo_id1 demo_id2 ''127.0.0.1'' 7979)]"
    by (simp add: demo_simps entry_env_simps entry_decode entry_loop outbox_def)
  then show ?thesis using room_run_reachable [OF room_init] by (metis demo_start_def)
qed

lemma mem_store_sadd: "sadd_keeps_strings (ss_redis mem_store) mem_string"
  by (auto simp: sadd_keeps_strings_def mem_store_def SessionStore_new_def mem_redis_def wrongtype_def
      mem_put_def mem_string_def fun_eq_iff split: option.split mem_value.split)

lemma entry_frame: "frame_ok entry_proto (TokenValidateRequest demo_id2)"
  by (simp add: frame_ok_def proto_ok_def entry_proto_def MAX_MESSAGE_SIZE_def)

text \<open>Alice's token is presented twice, in three reads.\<close>

theorem members_enter_game_once_witness:
  "\<exists>p. room_reachable False entry_env p \<and>
     game_outbox (fold (\<lambda>c. GameServerSession_onRead entry_env mem_store (Some c) 1)
        [[1, 0, 0], [0, 10, 1, 0, 0, 0], [10]] (handleStartGame entry_env ''alice'' (rp_server p))) 1 =
     [encode entry_proto (TokenValidateResponse True ''alice'' demo_id1),
      encode entry_proto (TokenValidateResponse False [] [])]"
proof -
  let ?r = "Room_new demo_id0 ''room'' ''alice'' ''Alice'' 2" and ?g = "GameServerSession_doRead GameServerSession_new"
  let ?bs = "[[1, 0, 0], [0, 10, 1, 0, 0, 0], [10 :: byte]]"
  obtain p where p: "room_reachable False entry_env p"
    "umap_find (m_player_to_room (rp_server p)) ''alice'' = Some demo_id0"
    "umap_find (m_rooms (rp_server p)) demo_id0 = Some ?r" "\<not> hasActiveGame (rp_server p)"
    "umap_find (m_sessions (rp_server p)) ''alice'' = Some 0" "m_games (rp_server p) 1 = Some ?g"
    "m_rng (handleStartGame entry_env ''alice'' (rp_server p)) = demo_rng 12" "m_redis (rp_server p) = mem_empty"
    "outbox (handleStartGame entry_env ''alice'' (rp_server p)) 0 = outbox (rp_server p) 0 @
       [encode entry_proto (GameStart demo_id1 demo_id2 ''127.0.0.1'' 7979)]"
    using entry_ready by blast
  have fresh: "uuids_fresh (m_rng (handleStartGame entry_env ''alice'' (rp_server p)))"
    by (simp add: p(7) demo_fresh)
  have room: "[] \<notin> set (playerIds ?r)" and buffer: "gs_buffer ?g = []" 
    and json: "\<forall>q \<in> set (playerIds ?r). token_json_ok (ss_json mem_store) q (fst (generateUuid (m_rng (rp_server p))))"
    by (simp_all add: GameServerSession_doRead_def GameServerSession_new_def mem_store_works)
  have up: "mem_up (m_redis (rp_server p))" by (simp add: p(8) mem_up_empty)
  have bytes: "concat ?bs = concat (map (encode (e_room_proto entry_env)) (map TokenValidateRequest [demo_id2, demo_id2]))"
    by (simp add: encode_def encode_length_def entry_env_simps entry_proto_def)
  have ok: "\<forall>tok \<in> set [demo_id2, demo_id2]. frame_ok (e_room_proto entry_env) (TokenValidateRequest tok)"
    by (simp add: entry_env_simps entry_frame)
  have members: "playerIds ?r = [''alice'']" by (simp add: Room_new_def playerIds_def)
  note entry = members_enter_game_once [OF p(1) fresh p(2,3) room demo_created_can_start(2) p(4)
      demo_created_can_start(4) entry_env_simps(3) mem_store_up mem_store_works(1) up json mem_store_sadd p(6) buffer bytes ok]
  obtain i ts answers where ts: "length ts = length (playerIds ?r)" "length answers = length [demo_id2, demo_id2]"
    and sent: "\<forall>j < length ts. \<exists>sid. umap_find (m_sessions (rp_server p)) (playerIds ?r ! j) = Some sid \<and>
       outbox (handleStartGame entry_env ''alice'' (rp_server p)) sid = outbox (rp_server p) sid @
         [encode (e_room_proto entry_env) (GameStart i (ts ! j) (e_game_server_host entry_env)
           (ucast (e_game_server_port entry_env)))]"
    and out: "game_outbox (fold (\<lambda>c. GameServerSession_onRead entry_env mem_store (Some c) 1) ?bs
        (handleStartGame entry_env ''alice'' (rp_server p))) 1 =
      game_outbox (rp_server p) 1 @ map (encode (e_room_proto entry_env)) answers"
    and first: "\<forall>k < length [demo_id2, demo_id2]. \<forall>j < length ts. [demo_id2, demo_id2] ! k = ts ! j \<longrightarrow>
        [demo_id2, demo_id2] ! k \<notin> set (take k [demo_id2, demo_id2]) \<longrightarrow>
        answers ! k = TokenValidateResponse True (playerIds ?r ! j) i"
    and again: "\<forall>k < length [demo_id2, demo_id2]. [demo_id2, demo_id2] ! k \<in> set (take k [demo_id2, demo_id2]) \<or>
        [demo_id2, demo_id2] ! k \<notin> set ts \<and>
          mem_string (m_redis (rp_server p)) (token_key ([demo_id2, demo_id2] ! k)) = None \<longrightarrow>
        answers ! k = TokenValidateResponse False [] []"
    using entry by (elim exE conjE) (rule that)
  have "encode entry_proto (GameStart i (ts ! 0) ''127.0.0.1'' 7979) =
      encode entry_proto (GameStart demo_id1 demo_id2 ''127.0.0.1'' 7979)"
    using sent [rule_format, of 0] ts(1) p(5,9) by (auto simp: members entry_env_simps)
  then have start: "i = demo_id1" "ts ! 0 = demo_id2"
    by (auto simp: encode_def encode_length_def entry_proto_def split: if_splits)
  have "answers ! 0 = TokenValidateResponse True ''alice'' demo_id1"
    using first [rule_format, of 0 0] ts(1) start by (simp add: members)
  moreover have "answers ! 1 = TokenValidateResponse False [] []"
    using again [rule_format, of 1] by simp
  ultimately have "answers = [TokenValidateResponse True ''alice'' demo_id1, TokenValidateResponse False [] []]"
    using ts(2) by (intro nth_equalityI) (auto simp: less_Suc_eq)
  moreover have "game_outbox (rp_server p) 1 = []"
    using p(6) by (simp add: game_outbox_def GameServerSession_doRead_def GameServerSession_new_def)
  ultimately show ?thesis using p(1) out by (intro exI [of _ p]) (simp add: entry_env_simps)
qed

end
