(* ===== verification/TokenSafety.thy ===== *)
theory TokenSafety
  imports GameEntry RoomPredicate
begin

text \<open>
  A token is accepted at most once, over whole runs of the room server: once its key is gone
  from Redis (a validation deletes it, or it expires), nothing the server does brings it
  back, whatever happens in between on any connection.
\<close>

section \<open>What Redis promises\<close>

text \<open>
  A string key comes into being only by a command that writes a string under this very key,
  also if the command throws.
\<close>

definition creates_own_key :: "'r redis_api \<Rightarrow> ('r \<Rightarrow> string \<Rightarrow> string option) \<Rightarrow> bool" where
  "creates_own_key R kv \<longleftrightarrow> (\<forall>r x. kv r x = None \<longrightarrow>
     (\<forall>k ttl v. k \<noteq> x \<longrightarrow> kv (snd (sw_setex R k ttl v r)) x = None) \<and>
     (\<forall>k. k \<noteq> x \<longrightarrow> kv (snd (sw_incr R k r)) x = None) \<and>
     (\<forall>k. kv (snd (sw_get R k r)) x = None) \<and>
     (\<forall>k. kv (snd (sw_del R k r)) x = None) \<and>
     (\<forall>k t. kv (snd (sw_expire R k t r)) x = None) \<and>
     (\<forall>k m. kv (snd (sw_sadd R k m r)) x = None) \<and>
     (\<forall>k m. kv (snd (sw_srem R k m r)) x = None))"

text \<open>The environment: a session store, and a rate limiter whose keys are not token keys.\<close>

definition token_env :: "'r room_env \<Rightarrow> 'r session_store \<Rightarrow> ('r \<Rightarrow> string \<Rightarrow> string option) \<Rightarrow> bool" where
  "token_env E S kv \<longleftrightarrow> e_session_store E = Some S \<and> creates_own_key (ss_redis S) kv \<and>
     (case e_rate_limiter E of None \<Rightarrow> True | Some L \<Rightarrow>
        creates_own_key (rl_redis L) kv \<and> (\<forall>ip tok. rl_key_prefix L @ ip \<noteq> token_key tok))"

text \<open>As long as the generator does not repeat itself, \<open>tok\<close> was generated and is not stored.\<close>

definition spent ::
  "'r room_env \<Rightarrow> 'r session_store \<Rightarrow> ('r \<Rightarrow> string \<Rightarrow> string option) \<Rightarrow> string \<Rightarrow> 'r room_server \<Rightarrow> bool" where
  "spent E S kv tok s \<longleftrightarrow> (token_env E S kv \<longrightarrow> uuids_fresh (m_rng s) \<longrightarrow>
     tok \<in> set (issued (m_rng s)) \<and> kv (m_redis s) (token_key tok) = None)"

lemma spent_cong:
  "spent E S kv tok s \<Longrightarrow> m_rng s' = m_rng s \<Longrightarrow>
   (token_env E S kv \<Longrightarrow> kv (m_redis s) (token_key tok) = None \<Longrightarrow> kv (m_redis s') (token_key tok) = None) \<Longrightarrow>
   spent E S kv tok s'"
  by (auto simp: spent_def)

lemma spent_ext:
  "spent E S kv tok s \<Longrightarrow> rng_ext (m_rng s) (m_rng s') \<Longrightarrow>
   (token_env E S kv \<Longrightarrow> uuids_fresh (m_rng s') \<Longrightarrow> tok \<in> set (issued (m_rng s)) \<Longrightarrow>
      kv (m_redis s) (token_key tok) = None \<Longrightarrow> kv (m_redis s') (token_key tok) = None) \<Longrightarrow>
   spent E S kv tok s'"
  using rng_ext_fresh [of "m_rng s" "m_rng s'"] rng_ext_issued [of "m_rng s" "m_rng s'"]
  by (auto simp: spent_def)

section \<open>The commands of the server\<close>

text \<open>A command, or a sequence of them, that does not create the key \<open>x\<close>.\<close>

definition keeps_absent :: "('r \<Rightarrow> string \<Rightarrow> string option) \<Rightarrow> string \<Rightarrow> ('r, 'a) redis_op \<Rightarrow> bool" where
  "keeps_absent kv x m \<longleftrightarrow> (\<forall>r. kv r x = None \<longrightarrow> kv (snd (m r)) x = None)"

lemma keeps_absentD: "keeps_absent kv x m \<Longrightarrow> kv r x = None \<Longrightarrow> kv (snd (m r)) x = None"
  by (simp add: keeps_absent_def)

lemma keeps_absent_bind:
  assumes "keeps_absent kv x m" and "\<And>y. keeps_absent kv x (f y)"
  shows "keeps_absent kv x (rbind m f)"
  unfolding keeps_absent_def
proof (intro allI impI)
  fix r assume r: "kv r x = None"
  obtain res r' where m: "m r = (res, r')" by fastforce
  then have "kv r' x = None" using keeps_absentD [OF assms(1) r] by simp
  with m keeps_absentD [OF assms(2)] show "kv (snd (rbind m f r)) x = None"
    by (cases res) (simp_all add: rbind_def)
qed

lemma keeps_absent_return: "keeps_absent kv x (rreturn y)"
  by (simp add: keeps_absent_def rreturn_def)

lemma keeps_absent_map: "keeps_absent kv x m \<Longrightarrow> keeps_absent kv x (rmap f m)"
  unfolding rmap_def by (simp add: keeps_absent_bind keeps_absent_return)

lemmas keeps_absent_rules = keeps_absent_bind keeps_absent_return keeps_absent_map

lemma creates_own_keyD:
  assumes "creates_own_key R kv"
  shows "k \<noteq> x \<Longrightarrow> keeps_absent kv x (RedisClient_setex R k v ttl)"
    and "k \<noteq> x \<Longrightarrow> keeps_absent kv x (RedisClient_incr R k)"
    and "keeps_absent kv x (RedisClient_get R k)"
    and "keeps_absent kv x (RedisClient_del R k)"
    and "keeps_absent kv x (RedisClient_expire R k t)"
    and "keeps_absent kv x (RedisClient_sadd R k m)"
    and "keeps_absent kv x (RedisClient_srem R k m)"
proof -
  have sw: "k \<noteq> x \<Longrightarrow> keeps_absent kv x (sw_setex R k ttl v)" "k \<noteq> x \<Longrightarrow> keeps_absent kv x (sw_incr R k)"
    "keeps_absent kv x (sw_get R k)" "keeps_absent kv x (sw_del R k)" "keeps_absent kv x (sw_expire R k t)"
    "keeps_absent kv x (sw_sadd R k m)" "keeps_absent kv x (sw_srem R k m)"
    using assms by (simp_all add: creates_own_key_def keeps_absent_def)
  then show "k \<noteq> x \<Longrightarrow> keeps_absent kv x (RedisClient_setex R k v ttl)"
    "k \<noteq> x \<Longrightarrow> keeps_absent kv x (RedisClient_incr R k)"
    "keeps_absent kv x (RedisClient_get R k)" "keeps_absent kv x (RedisClient_del R k)"
    "keeps_absent kv x (RedisClient_expire R k t)" "keeps_absent kv x (RedisClient_sadd R k m)"
    "keeps_absent kv x (RedisClient_srem R k m)"
    by (simp_all add: RedisClient_defs keeps_absent_rules split: option.split)
qed

lemma token_key_other: "game_server_key i \<noteq> token_key tok"
  by (simp add: game_server_key_def token_key_def)

text \<open>What the server asks of Redis: validations, counting requests, the set of sessions and the
  heartbeats of game servers leave an absent token absent; only creating this token would not.\<close>

lemma store_keeps_absent:
  assumes "creates_own_key (ss_redis S) kv"
  shows "keeps_absent kv x (validateToken S t)"
    and "keeps_absent kv x (registerGameSession S i)"
    and "keeps_absent kv x (unregisterGameSession S i)"
    and "keeps_absent kv (token_key tok) (updateGameServerHeartbeat S i)"
  using token_key_other [of i tok]
  by (auto simp: validateToken_def Let_def registerGameSession_def unregisterGameSession_def
      updateGameServerHeartbeat_def creates_own_keyD [OF assms] intro!: keeps_absent_rules split: option.split)

lemma allow_keeps_absent:
  "creates_own_key (rl_redis L) kv \<Longrightarrow> rl_key_prefix L @ ip \<noteq> x \<Longrightarrow> keeps_absent kv x (allow L ip)"
  by (auto simp: allow_def Let_def creates_own_keyD intro!: keeps_absent_rules)

lemma createToken_absent_key:
  assumes "creates_own_key (ss_redis S) kv" and "kv r (token_key tok) = None" and "fst (generateUuid g) \<noteq> tok"
  shows "kv (snd (snd (createToken S q i g r))) (token_key tok) = None"
proof -
  have "keeps_absent kv (token_key tok)
      (RedisClient_setex (ss_redis S) (token_key (fst (generateUuid g))) v (ss_token_ttl S))" for v
    using assms(3) by (simp add: creates_own_keyD(1) [OF assms(1)] token_key_inj)
  from keeps_absentD [OF this assms(2)] show ?thesis
    using assms(2) by (simp add: createToken_def case_prod_beta split: prod.split sum.split)
qed

section \<open>The handlers\<close>

lemma spent_update [simp]:
  "spent E S kv tok (s\<lparr>m_rooms := a\<rparr>) = spent E S kv tok s"
  "spent E S kv tok (s\<lparr>m_player_to_room := b\<rparr>) = spent E S kv tok s"
  "spent E S kv tok (s\<lparr>m_sessions := c\<rparr>) = spent E S kv tok s"
  "spent E S kv tok (s\<lparr>m_lobby_sessions := l\<rparr>) = spent E S kv tok s"
  "spent E S kv tok (s\<lparr>m_lobby_pending := q\<rparr>) = spent E S kv tok s"
  "spent E S kv tok (s\<lparr>m_lobby_waits := n\<rparr>) = spent E S kv tok s"
  "spent E S kv tok (s\<lparr>m_lobby_cancelled := n\<rparr>) = spent E S kv tok s"
  "spent E S kv tok (s\<lparr>m_clients := d\<rparr>) = spent E S kv tok s"
  "spent E S kv tok (s\<lparr>m_games := e\<rparr>) = spent E S kv tok s"
  "spent E S kv tok (s\<lparr>m_next := n\<rparr>) = spent E S kv tok s"
  "spent E S kv tok (s\<lparr>m_chat := f\<rparr>) = spent E S kv tok s"
  by (simp_all add: spent_def)

lemma spent_redis:
  assumes "spent E S kv tok s" and "token_env E S kv \<Longrightarrow> keeps_absent kv (token_key tok) m"
  shows "spent E S kv tok (s\<lparr>m_redis := snd (m (m_redis s))\<rparr>)"
  by (rule spent_cong [OF assms(1)]) (simp_all add: keeps_absentD [OF assms(2)])

lemma spent_issue:
  assumes "spent E S kv tok s"
  shows "spent E S kv tok (snd (issue_token E p i s))"
proof (rule spent_ext [OF assms rng_ext_issue_token])
  assume env: "token_env E S kv" and fresh: "uuids_fresh (m_rng (snd (issue_token E p i s)))"
    and tok: "tok \<in> set (issued (m_rng s))" "kv (m_redis s) (token_key tok) = None"
  obtain res g r where c: "createToken S p i (m_rng s) (m_redis s) = (res, g, r)" by (metis prod_cases3)
  have E: "e_session_store E = Some S" "creates_own_key (ss_redis S) kv" using env by (simp_all add: token_env_def)
  have g: "g = snd (generateUuid (m_rng s))" using createToken_value(1) [OF c] .
  have "rng_ext g (m_rng (snd (issue_token E p i s)))"
    using E(1) c by (cases res) (simp_all add: issue_token_def)
  then have "uuids_fresh g" using fresh by (rule rng_ext_fresh)
  then have "fst (generateUuid (m_rng s)) \<noteq> tok"
    using tok(1) by (auto simp: g uuids_fresh_def issued_generateUuid)
  from createToken_absent_key [OF E(2) tok(2) this, of p i] c
  have "kv r (token_key tok) = None" by simp
  then show "kv (m_redis (snd (issue_token E p i s))) (token_key tok) = None"
    using E(1) c by (cases res) (simp_all add: issue_token_def)
qed

text \<open>A command on the session store of the environment; with another store there is nothing to show.\<close>

lemma spent_command:
  assumes "spent E S kv tok s" and "e_session_store E = Some S'"
    and "creates_own_key (ss_redis S') kv \<Longrightarrow> keeps_absent kv (token_key tok) m"
  shows "spent E S kv tok (s\<lparr>m_redis := snd (m (m_redis s))\<rparr>)"
proof (cases "S' = S")
  case True
  then show ?thesis using assms by (intro spent_redis) (simp_all add: token_env_def)
next
  case False
  then show ?thesis using assms(2) by (simp add: spent_def token_env_def)
qed

lemma spent_limit:
  assumes "spent E S kv tok s" and "e_rate_limiter E = Some L"
  shows "spent E S kv tok (s\<lparr>m_redis := snd (allow L ip (m_redis s))\<rparr>)"
  by (rule spent_redis [OF assms(1)]) (use assms(2) in \<open>simp add: token_env_def allow_keeps_absent\<close>)

lemma spent_lobby:
  "spent E S kv tok (addLobbySession sid s) = spent E S kv tok s"
  "spent E S kv tok (removeLobbySession sid s) = spent E S kv tok s"
  "spent E S kv tok (notifyRoomListChanged s) = spent E S kv tok s"
  "spent E S kv tok (lobby_timer_cancelled s) = spent E S kv tok s"
  "spent E S kv tok (RoomManager_stop s) = spent E S kv tok s"
  by (simp_all add: addLobbySession_def removeLobbySession_def notifyRoomListChanged_def
      lobby_timer_cancelled_def RoomManager_stop_def)

lemma spent_uuid: "spent E S kv tok s \<Longrightarrow> spent E S kv tok (s\<lparr>m_rng := snd (generateUuid (m_rng s))\<rparr>)"
  by (erule spent_ext) simp_all

interpretation tokens: room_predicate E "spent E S kv tok" for E S kv tok
  by unfold_locales (auto simp: spent_lobby spent_uuid spent_issue spent_limit store_keeps_absent intro!: spent_command)

section \<open>Runs\<close>

text \<open>
  A step that changes nothing but Redis is, among others, what other users of Redis and the
  expiry of keys do. Nobody else creates tokens.
\<close>

definition redis_fair ::
  "('r \<Rightarrow> string \<Rightarrow> string option) \<Rightarrow> 'r room_process \<Rightarrow> 'r room_process \<Rightarrow> bool" where
  "redis_fair kv p p' \<longleftrightarrow>
     (rp_server p' = (rp_server p)\<lparr>m_redis := m_redis (rp_server p')\<rparr> \<longrightarrow>
        (\<forall>tok. kv (m_redis (rp_server p)) (token_key tok) = None \<longrightarrow>
           kv (m_redis (rp_server p')) (token_key tok) = None))"

definition room_path ::
  "bool \<Rightarrow> 'r room_env \<Rightarrow> ('r \<Rightarrow> string \<Rightarrow> string option) \<Rightarrow> 'r room_process \<Rightarrow> 'r room_process \<Rightarrow> bool" where
  "room_path late E kv = (\<lambda>p p'. room_step late E p p' \<and> redis_fair kv p p')\<^sup>*\<^sup>*"

lemma spent_step:
  assumes "room_step late E p p'" and "redis_fair kv p p'" and "spent E S kv tok (rp_server p)"
  shows "spent E S kv tok (rp_server p')"
  using assms(1,3)
proof (rule tokens.keeps_step)
  assume only: "rp_server p' = (rp_server p)\<lparr>m_redis := m_redis (rp_server p')\<rparr>"
  from arg_cong [OF this, of m_rng] have "m_rng (rp_server p') = m_rng (rp_server p)" by simp
  then show "spent E S kv tok (rp_server p')"
    using assms(2,3) only by (auto simp: redis_fair_def intro: spent_cong)
qed

lemma spent_path:
  assumes "room_path late E kv p p'" and "spent E S kv tok (rp_server p)"
  shows "spent E S kv tok (rp_server p')"
  using assms unfolding room_path_def by (induction rule: rtranclp_induct) (auto intro: spent_step)

text \<open>C12. A token is accepted at most once in the life of the server. Say \<open>validateToken\<close> accepted it
  and left Redis as it is in the state \<open>p\<close>. However the run goes on from there, with any clients,
  game servers, new games and failures of Redis, and also if handlers run late: as long as the
  generator does not repeat an identifier and nobody else writes token keys into Redis, every
  later request to validate the token is answered with a refusal, on whatever connection it
  arrives and whether or not Redis answers.\<close>

theorem token_is_never_accepted_again:
  assumes env: "token_env E S kv" "redis_strings (ss_redis S) kv"
    and first: "validateToken S tok r = (Inr (Some td), m_redis (rp_server p))"
      "tok \<in> set (issued (m_rng (rp_server p)))"
    and path: "room_path late E kv p p'" "uuids_fresh (m_rng (rp_server p'))"
    and game: "m_games (rp_server p') gid = Some g"
  shows "game_outbox (GameServerSession_processMessage E S gid (TokenValidateRequest tok) (rp_server p')) gid =
    game_outbox (rp_server p') gid @ [encode (e_room_proto E) (TokenValidateResponse False [] [])]"
proof -
  let ?s = "rp_server p'"
  obtain t where "kv r (token_key tok) = Some t"
    using validateToken_absent [OF env(2) _ first(1)] by (cases "kv r (token_key tok)") auto
  from validateToken_present [OF env(2) this first(1)]
  have "spent E S kv tok (rp_server p)" using first(2) by (simp add: spent_def)
  from spent_path [OF path(1) this] have gone: "kv (m_redis ?s) (token_key tok) = None"
    using env(1) path(2) by (simp add: spent_def)
  obtain res r' where v: "validateToken S tok (m_redis ?s) = (res, r')" by fastforce
  then have "res = Inr None \<or> (\<exists>e. res = Inl e)"
    using validateToken_absent [OF env(2) gone] by (cases res) auto
  with v game show ?thesis
    by (auto simp: GameServerSession_processMessage_def handleTokenValidate_def game_send_def upd_game_def
        GameServerSession_send_def game_outbox_def)
qed

text \<open>Alice's token has been validated; later a game server connects and presents it again.\<close>

definition spent_start :: "mem room_process" where
  "spent_start = room_main (snd (validateToken mem_store demo_id2 (demo_stored ''alice'' demo_id1 demo_id2 mem_empty)))
     (demo_rng 12)"

definition spent_later :: "mem room_process" where
  "spent_later = GameServerChannel_onAccept False spent_start"

lemma mem_redis_own_key: "creates_own_key mem_redis mem_string"
proof -
  have other: "mem_string (mem_put k v r) x = mem_string r x" if "k \<noteq> x" for k v r x
    using that by (simp add: mem_string_def mem_put_def)
  have set: "mem_string (mem_put k (RSet v) r) x = None" if "mem_string r x = None" for k v r x
    using that by (simp add: mem_string_def mem_put_def)
  show ?thesis
    unfolding creates_own_key_def
    by (auto simp: mem_redis_def wrongtype_def mem_keep_def other set split: option.split mem_value.split)
qed

lemma spent_token_env: "token_env demo_env mem_store mem_string"
  by (simp add: token_env_def demo_env_simps mem_store_def SessionStore_new_def mem_redis_own_key)

lemma spent_first:
  "validateToken mem_store demo_id2 (demo_stored ''alice'' demo_id1 demo_id2 mem_empty) =
     (Inr (Some \<lparr>td_player_id = ''alice'', td_session_id = demo_id1\<rparr>), m_redis (rp_server spent_start))"
proof -
  let ?r = "demo_stored ''alice'' demo_id1 demo_id2 mem_empty"
  obtain x r' where v: "validateToken mem_store demo_id2 ?r = (Inr x, r')"
    using mem_store_validate demo_stored_up mem_up_empty by metis
  have "mem_string ?r (token_key demo_id2) = Some (''111110alice'' @ demo_id1)"
    by (simp add: demo_stored_def)
  moreover have "json_dump (ss_json mem_store) (token_json ''alice'' demo_id1) = Inr (''111110alice'' @ demo_id1)"
    by (simp add: mem_store_def SessionStore_new_def toy_json_def token_json_def)
  ultimately have "x = Some \<lparr>td_player_id = ''alice'', td_session_id = demo_id1\<rparr>"
    using validateToken_present [OF mem_store_works(1) _ v] parse_token_ok [OF mem_store_works(2)] by metis
  with v show ?thesis by (simp add: spent_start_def process_defs upd_chat_def RoomManager_new_def)
qed

lemma spent_run:
  "m_rng (rp_server spent_start) = demo_rng 12" "m_rng (rp_server spent_later) = demo_rng 12"
  "m_games (rp_server spent_later) 0 = Some (GameServerSession_doRead GameServerSession_new)"
  "room_path False demo_env mem_string spent_start spent_later"
proof -
  have "room_step False demo_env spent_start spent_later"
    unfolding spent_later_def by (rule room_step.game_accept) (simp_all add: spent_start_def process_defs)
  moreover have "redis_fair kv spent_start spent_later" for kv
    by (simp add: redis_fair_def spent_later_def process_defs GameServerSession_start_def upd_game_def)
  ultimately show "room_path False demo_env mem_string spent_start spent_later"
    by (auto simp: room_path_def)
qed (simp_all add: spent_start_def spent_later_def process_defs upd_chat_def RoomManager_new_def
    GameServerSession_start_def upd_game_def)

theorem token_is_never_accepted_again_witness:
  "game_outbox (GameServerSession_processMessage demo_env mem_store 0 (TokenValidateRequest demo_id2)
     (rp_server spent_later)) 0 = [encode demo_proto (TokenValidateResponse False [] [])]"
proof -
  have "demo_id2 \<in> set (issued (m_rng (rp_server spent_start)))"
    using issued_generateUuid [of "demo_rng 8"] by (simp add: spent_run demo_uuids)
  moreover have "uuids_fresh (m_rng (rp_server spent_later))" by (simp add: spent_run demo_fresh)
  moreover have "game_outbox (rp_server spent_later) 0 = []"
    by (simp add: game_outbox_def spent_run GameServerSession_doRead_def GameServerSession_new_def)
  ultimately show ?thesis
    using token_is_never_accepted_again [OF spent_token_env mem_store_works(1) spent_first _ spent_run(4) _ spent_run(3)]
    by (simp add: demo_env_simps)
qed

end
