(* ===== verification/Config.thy ===== *)
theory Config
  imports SessionStore RateLimiter
begin

text \<open>
  \<open>Config\<close> of \<open>src/src/common/util/Config.cpp\<close>: a JSON file with environment variables over it,
  and typed getters with defaults. The file system and the environment are functions; of
  nlohmann/json the record \<open>config_api\<close> holds what the code calls, each call returning a value
  or throwing. \<open>std::stoi\<close> is modelled here.
\<close>

section \<open>std::stoi\<close>

definition is_space :: "char \<Rightarrow> bool" where
  "is_space c \<longleftrightarrow> c = CHR '' '' \<or> (9 \<le> (of_char c :: nat) \<and> (of_char c :: nat) \<le> 13)"

definition stoi :: "string \<Rightarrow> exn + int" where
  "stoi text =
     (let s = dropWhile is_space text;
          negative = (s \<noteq> [] \<and> hd s = CHR ''-'');
          s1 = (if s \<noteq> [] \<and> (hd s = CHR ''-'' \<or> hd s = CHR ''+'') then tl s else s);
          ds = takeWhile is_digit s1;
          v = (if negative then - digits_value ds else digits_value ds)
      in if ds = [] then Inl ''stoi: invalid_argument''
         else if v < - (2 ^ 31) \<or> 2 ^ 31 \<le> v then Inl ''stoi: out_of_range''
         else Inr v)"

section \<open>Config\<close>

record config_api =
  cf_parse :: "string \<Rightarrow> exn + json"
  cf_assign :: "json \<Rightarrow> string \<Rightarrow> json \<Rightarrow> exn + json"
  cf_contains :: "json \<Rightarrow> string \<Rightarrow> bool"
  cf_at :: "json \<Rightarrow> string \<Rightarrow> exn + json"
  cf_get_string :: "json \<Rightarrow> exn + string"
  cf_get_u16 :: "json \<Rightarrow> exn + u16"
  cf_get_u32 :: "json \<Rightarrow> exn + u32"

definition ebind :: "exn + 'a \<Rightarrow> ('a \<Rightarrow> exn + 'b) \<Rightarrow> exn + 'b" where
  "ebind x f = (case x of Inl e \<Rightarrow> Inl e | Inr v \<Rightarrow> f v)"

definition env_string ::
  "config_api \<Rightarrow> (string \<Rightarrow> string option) \<Rightarrow> string \<Rightarrow> string \<Rightarrow> json \<Rightarrow> exn + json" where
  "env_string J getenv var key d =
     (case getenv var of None \<Rightarrow> Inr d | Some val \<Rightarrow> cf_assign J d key (JString val))"

text \<open>The assignment and the conversion are inside the \<open>try\<close>: a failure keeps what was there.\<close>

definition env_int ::
  "config_api \<Rightarrow> (string \<Rightarrow> string option) \<Rightarrow> string \<Rightarrow> string \<Rightarrow> json \<Rightarrow> exn + json" where
  "env_int J getenv var key d =
     (case getenv var of None \<Rightarrow> Inr d
      | Some val \<Rightarrow> (case ebind (stoi val) (\<lambda>n. cf_assign J d key (JNumber n)) of
            Inl _ \<Rightarrow> Inr d | Inr d' \<Rightarrow> Inr d'))"

definition Config_new ::
  "config_api \<Rightarrow> (string \<Rightarrow> string option) \<Rightarrow> (string \<Rightarrow> string option) \<Rightarrow> string \<Rightarrow> exn + json" where
  "Config_new J files getenv filepath =
     (case files filepath of
        None \<Rightarrow> Inl (''Config file not found: '' @ filepath)
      | Some content \<Rightarrow>
          ebind (cf_parse J content) (\<lambda>d.
          ebind (env_string J getenv ''REDIS_HOST'' ''redis_host'' d) (\<lambda>d.
          ebind (env_int J getenv ''REDIS_PORT'' ''redis_port'' d) (\<lambda>d.
          ebind (env_string J getenv ''REDIS_PASSWORD'' ''redis_password'' d) (\<lambda>d.
          ebind (env_string J getenv ''CHAT_SERVER_HOST'' ''chat_server_host'' d) (\<lambda>d.
          env_int J getenv ''CHAT_SERVER_PORT'' ''chat_server_port'' d))))))"

definition Config_get ::
  "config_api \<Rightarrow> (json \<Rightarrow> exn + 'a) \<Rightarrow> json \<Rightarrow> string \<Rightarrow> 'a \<Rightarrow> exn + 'a" where
  "Config_get J conv d key default_value =
     (if cf_contains J d key then ebind (cf_at J d key) conv else Inr default_value)"

definition roomPort :: "config_api \<Rightarrow> json \<Rightarrow> exn + u16" where
  "roomPort J d = Config_get J (cf_get_u16 J) d ''room_port'' 8080"
definition internalPort :: "config_api \<Rightarrow> json \<Rightarrow> exn + u16" where
  "internalPort J d = Config_get J (cf_get_u16 J) d ''internal_port'' 8081"
definition redisHost :: "config_api \<Rightarrow> json \<Rightarrow> exn + string" where
  "redisHost J d = Config_get J (cf_get_string J) d ''redis_host'' ''127.0.0.1''"
definition redisPort :: "config_api \<Rightarrow> json \<Rightarrow> exn + u16" where
  "redisPort J d = Config_get J (cf_get_u16 J) d ''redis_port'' 6379"
definition redisPassword :: "config_api \<Rightarrow> json \<Rightarrow> exn + string" where
  "redisPassword J d = Config_get J (cf_get_string J) d ''redis_password'' []"
definition maxRooms :: "config_api \<Rightarrow> json \<Rightarrow> exn + u32" where
  "maxRooms J d = Config_get J (cf_get_u32 J) d ''max_rooms'' 100"
definition maxPlayersPerRoom :: "config_api \<Rightarrow> json \<Rightarrow> exn + u32" where
  "maxPlayersPerRoom J d = Config_get J (cf_get_u32 J) d ''max_players_per_room'' 8"
definition tokenTtlSeconds :: "config_api \<Rightarrow> json \<Rightarrow> exn + u32" where
  "tokenTtlSeconds J d = Config_get J (cf_get_u32 J) d ''token_ttl_seconds'' 60"
definition heartbeatTimeoutSeconds :: "config_api \<Rightarrow> json \<Rightarrow> exn + u32" where
  "heartbeatTimeoutSeconds J d = Config_get J (cf_get_u32 J) d ''heartbeat_timeout_seconds'' 30"
definition gameServerHeartbeatTtlSeconds :: "config_api \<Rightarrow> json \<Rightarrow> exn + u32" where
  "gameServerHeartbeatTtlSeconds J d = Config_get J (cf_get_u32 J) d ''game_server_heartbeat_ttl_seconds'' 90"
definition rateLimitMax :: "config_api \<Rightarrow> json \<Rightarrow> exn + u32" where
  "rateLimitMax J d = Config_get J (cf_get_u32 J) d ''rate_limit_max'' 20"
definition rateLimitWindowSeconds :: "config_api \<Rightarrow> json \<Rightarrow> exn + u32" where
  "rateLimitWindowSeconds J d = Config_get J (cf_get_u32 J) d ''rate_limit_window_seconds'' 10"
definition gameServerHost :: "config_api \<Rightarrow> json \<Rightarrow> exn + string" where
  "gameServerHost J d = Config_get J (cf_get_string J) d ''game_server_host'' ''127.0.0.1''"
definition gameServerPort :: "config_api \<Rightarrow> json \<Rightarrow> exn + u16" where
  "gameServerPort J d = Config_get J (cf_get_u16 J) d ''game_server_port'' 7979"
definition chatPort :: "config_api \<Rightarrow> json \<Rightarrow> exn + u16" where
  "chatPort J d = Config_get J (cf_get_u16 J) d ''chat_port'' 8082"
definition chatInternalPort :: "config_api \<Rightarrow> json \<Rightarrow> exn + u16" where
  "chatInternalPort J d = Config_get J (cf_get_u16 J) d ''chat_internal_port'' 8083"
definition chatHeartbeatTimeoutSeconds :: "config_api \<Rightarrow> json \<Rightarrow> exn + u32" where
  "chatHeartbeatTimeoutSeconds J d = Config_get J (cf_get_u32 J) d ''chat_heartbeat_timeout_seconds'' 90"
definition chatRateLimitMax :: "config_api \<Rightarrow> json \<Rightarrow> exn + u32" where
  "chatRateLimitMax J d = Config_get J (cf_get_u32 J) d ''chat_rate_limit_max'' 10"
definition chatRateLimitWindowSeconds :: "config_api \<Rightarrow> json \<Rightarrow> exn + u32" where
  "chatRateLimitWindowSeconds J d = Config_get J (cf_get_u32 J) d ''chat_rate_limit_window_seconds'' 5"
definition chatMaxMessageLength :: "config_api \<Rightarrow> json \<Rightarrow> exn + u32" where
  "chatMaxMessageLength J d = Config_get J (cf_get_u32 J) d ''chat_max_message_length'' 200"
definition chatHistorySize :: "config_api \<Rightarrow> json \<Rightarrow> exn + u32" where
  "chatHistorySize J d = Config_get J (cf_get_u32 J) d ''chat_history_size'' 20"
definition chatSessionTtlSeconds :: "config_api \<Rightarrow> json \<Rightarrow> exn + u32" where
  "chatSessionTtlSeconds J d = Config_get J (cf_get_u32 J) d ''chat_session_ttl_seconds'' 7200"
definition chatServerHost :: "config_api \<Rightarrow> json \<Rightarrow> exn + string" where
  "chatServerHost J d = Config_get J (cf_get_string J) d ''chat_server_host'' ''127.0.0.1''"
definition chatServerPort :: "config_api \<Rightarrow> json \<Rightarrow> exn + u16" where
  "chatServerPort J d = Config_get J (cf_get_u16 J) d ''chat_server_port'' 8083"

lemmas config_getters = roomPort_def internalPort_def redisHost_def redisPort_def redisPassword_def maxRooms_def
  maxPlayersPerRoom_def tokenTtlSeconds_def heartbeatTimeoutSeconds_def gameServerHeartbeatTtlSeconds_def
  rateLimitMax_def rateLimitWindowSeconds_def gameServerHost_def gameServerPort_def chatPort_def
  chatInternalPort_def chatHeartbeatTimeoutSeconds_def chatRateLimitMax_def chatRateLimitWindowSeconds_def
  chatMaxMessageLength_def chatHistorySize_def chatSessionTtlSeconds_def chatServerHost_def chatServerPort_def

section \<open>Numbers\<close>

text \<open>Decimal text round-trips through \<open>std::to_string\<close> and \<open>std::stoi\<close> for every number an
  \<open>int\<close> can hold, whatever follows that is not a digit is ignored, and larger numbers are
  refused.\<close>

lemma stoi_to_string:
  assumes "rest = [] \<or> \<not> is_digit (hd rest)"
  shows "stoi (to_string n @ rest) = (if n < 2 ^ 31 then Inr (int n) else Inl ''stoi: out_of_range'')"
proof -
  obtain c cs where chars: "to_string n = c # cs" using to_string_nonempty by (cases "to_string n") auto
  have digits: "\<forall>d \<in> set (to_string n). is_digit d" by (rule to_string_digits)
  then have c: "is_digit c" using chars by simp
  then have first: "\<not> is_space c" "c \<noteq> CHR ''-''" "c \<noteq> CHR ''+''"
    by (auto simp: is_digit_def is_space_def)
  have "takeWhile is_digit (to_string n @ rest) = to_string n"
    using digits assms by (cases rest) (auto simp: takeWhile_append)
  then show ?thesis
    using first digits_value_to_string [of n] by (simp add: stoi_def Let_def chars)
qed

lemma stoi_to_string_witness: "stoi (to_string 6379 @ ''/tcp'') = Inr 6379"
  using stoi_to_string [of "''/tcp''" 6379] by (simp add: is_digit_def)

section \<open>Environment over file\<close>

text \<open>
  What nlohmann/json documents: assigning to a key of an object sets that key and no other, a
  string is read back, and an integer read at a narrower type is converted by \<open>static_cast\<close>.
\<close>

definition config_json :: "config_api \<Rightarrow> bool" where
  "config_json J \<longleftrightarrow>
     (\<forall>fs k v. \<exists>fs'. cf_assign J (JObject fs) k v = Inr (JObject fs') \<and>
        cf_contains J (JObject fs') k \<and> cf_at J (JObject fs') k = Inr v \<and>
        (\<forall>k'. k' \<noteq> k \<longrightarrow> cf_contains J (JObject fs') k' = cf_contains J (JObject fs) k' \<and>
           cf_at J (JObject fs') k' = cf_at J (JObject fs) k')) \<and>
     (\<forall>v. cf_get_string J (JString v) = Inr v) \<and>
     (\<forall>n. cf_get_u16 J (JNumber n) = Inr (of_int n))"

text \<open>What one variable does: nothing, or it sets its key.\<close>

definition set_by :: "config_api \<Rightarrow> string \<Rightarrow> json option \<Rightarrow> json \<Rightarrow> json \<Rightarrow> bool" where
  "set_by J key v d d' \<longleftrightarrow>
     (\<forall>x. v = Some x \<longrightarrow> cf_contains J d' key \<and> cf_at J d' key = Inr x) \<and>
     (\<forall>k. v = None \<or> k \<noteq> key \<longrightarrow> cf_contains J d' k = cf_contains J d k \<and> cf_at J d' k = cf_at J d k)"

definition int_value :: "(string \<Rightarrow> string option) \<Rightarrow> string \<Rightarrow> json option" where
  "int_value getenv var = (case getenv var of None \<Rightarrow> None
     | Some val \<Rightarrow> (case stoi val of Inl _ \<Rightarrow> None | Inr n \<Rightarrow> Some (JNumber n)))"

lemma set_by_assign:
  assumes "config_json J"
  shows "\<exists>fs'. cf_assign J (JObject fs) key v = Inr (JObject fs') \<and>
    set_by J key (Some v) (JObject fs) (JObject fs')"
  using assms unfolding config_json_def set_by_def by blast

lemma set_by_none [simp]: "set_by J key None d d"
  by (simp add: set_by_def)

lemma env_string_sets:
  assumes "config_json J"
  obtains fs' where "env_string J getenv var key (JObject fs) = Inr (JObject fs')"
    "set_by J key (map_option JString (getenv var)) (JObject fs) (JObject fs')"
  using set_by_assign [OF assms, of fs key] by (cases "getenv var") (auto simp: env_string_def)

lemma env_int_sets:
  assumes "config_json J"
  obtains fs' where "env_int J getenv var key (JObject fs) = Inr (JObject fs')"
    "set_by J key (int_value getenv var) (JObject fs) (JObject fs')"
proof (cases "int_value getenv var")
  case None
  then show ?thesis
    by (intro that [of fs]) (auto simp: env_int_def int_value_def ebind_def split: option.splits sum.splits)
next
  case (Some v)
  then obtain n val where n: "getenv var = Some val" "stoi val = Inr n" "v = JNumber n"
    by (auto simp: int_value_def split: option.splits sum.splits)
  obtain fs' where "cf_assign J (JObject fs) key v = Inr (JObject fs')"
    "set_by J key (Some v) (JObject fs) (JObject fs')" using set_by_assign [OF assms] by blast
  with n Some show ?thesis by (intro that [of fs']) (simp_all add: env_int_def ebind_def)
qed

text \<open>The environment overrides the file: if the file is there and holds an object, the
  configuration is read, and the five variables replace the values of the file when they are set
  (a port only if it is a number, which is then reduced to 16 bits); every other key has the value
  of the file.\<close>

theorem environment_overrides_file:
  assumes J: "config_json J" and content: "files path = Some content" "cf_parse J content = Inr (JObject fs)"
  shows "\<exists>d. Config_new J files getenv path = Inr d \<and>
    (\<forall>v. getenv ''REDIS_HOST'' = Some v \<longrightarrow> redisHost J d = Inr v) \<and>
    (\<forall>v. getenv ''REDIS_PASSWORD'' = Some v \<longrightarrow> redisPassword J d = Inr v) \<and>
    (\<forall>v. getenv ''CHAT_SERVER_HOST'' = Some v \<longrightarrow> chatServerHost J d = Inr v) \<and>
    (\<forall>v n. getenv ''REDIS_PORT'' = Some v \<longrightarrow> stoi v = Inr n \<longrightarrow> redisPort J d = Inr (of_int n)) \<and>
    (\<forall>v n. getenv ''CHAT_SERVER_PORT'' = Some v \<longrightarrow> stoi v = Inr n \<longrightarrow> chatServerPort J d = Inr (of_int n)) \<and>
    (\<forall>k. k \<notin> {''redis_host'', ''redis_port'', ''redis_password'', ''chat_server_host'', ''chat_server_port''} \<longrightarrow>
       cf_contains J d k = cf_contains J (JObject fs) k \<and> cf_at J d k = cf_at J (JObject fs) k)"
proof -
  obtain fs1 where 1: "env_string J getenv ''REDIS_HOST'' ''redis_host'' (JObject fs) = Inr (JObject fs1)"
    "set_by J ''redis_host'' (map_option JString (getenv ''REDIS_HOST'')) (JObject fs) (JObject fs1)"
    by (rule env_string_sets [OF J])
  obtain fs2 where 2: "env_int J getenv ''REDIS_PORT'' ''redis_port'' (JObject fs1) = Inr (JObject fs2)"
    "set_by J ''redis_port'' (int_value getenv ''REDIS_PORT'') (JObject fs1) (JObject fs2)"
    by (rule env_int_sets [OF J])
  obtain fs3 where 3: "env_string J getenv ''REDIS_PASSWORD'' ''redis_password'' (JObject fs2) = Inr (JObject fs3)"
    "set_by J ''redis_password'' (map_option JString (getenv ''REDIS_PASSWORD'')) (JObject fs2) (JObject fs3)"
    by (rule env_string_sets [OF J])
  obtain fs4 where 4: "env_string J getenv ''CHAT_SERVER_HOST'' ''chat_server_host'' (JObject fs3) = Inr (JObject fs4)"
    "set_by J ''chat_server_host'' (map_option JString (getenv ''CHAT_SERVER_HOST'')) (JObject fs3) (JObject fs4)"
    by (rule env_string_sets [OF J])
  obtain fs5 where 5: "env_int J getenv ''CHAT_SERVER_PORT'' ''chat_server_port'' (JObject fs4) = Inr (JObject fs5)"
    "set_by J ''chat_server_port'' (int_value getenv ''CHAT_SERVER_PORT'') (JObject fs4) (JObject fs5)"
    by (rule env_int_sets [OF J])
  have new: "Config_new J files getenv path = Inr (JObject fs5)"
    by (simp add: Config_new_def content ebind_def 1(1) 2(1) 3(1) 4(1) 5(1))
  note sets = 1(2) 2(2) 3(2) 4(2) 5(2)
  have get: "cf_get_string J (JString v) = Inr v" "cf_get_u16 J (JNumber n) = Inr (of_int n)" for v n
    using J by (simp_all add: config_json_def)
  show ?thesis
    using sets get unfolding new set_by_def
    by (simp add: config_getters Config_get_def ebind_def int_value_def)
qed

text \<open>An implementation over association lists; \<open>content\<close> is what the file parses to.\<close>

definition list_json :: "json \<Rightarrow> config_api" where
  "list_json content = \<lparr>
     cf_parse = (\<lambda>_. Inr content),
     cf_assign = (\<lambda>d k v. case d of JObject fs \<Rightarrow> Inr (JObject (umap_put k v fs)) | _ \<Rightarrow> Inl ''type_error.305''),
     cf_contains = (\<lambda>d k. case d of JObject fs \<Rightarrow> umap_contains fs k | _ \<Rightarrow> False),
     cf_at = (\<lambda>d k. case d of
         JObject fs \<Rightarrow> (case umap_find fs k of Some v \<Rightarrow> Inr v | None \<Rightarrow> Inl ''out_of_range.403'')
       | _ \<Rightarrow> Inl ''type_error.304''),
     cf_get_string = (\<lambda>j. case j of JString v \<Rightarrow> Inr v | _ \<Rightarrow> Inl ''type_error.302''),
     cf_get_u16 = (\<lambda>j. case j of JNumber n \<Rightarrow> Inr (of_int n) | _ \<Rightarrow> Inl ''type_error.302''),
     cf_get_u32 = (\<lambda>j. case j of JNumber n \<Rightarrow> Inr (of_int n) | _ \<Rightarrow> Inl ''type_error.302'')\<rparr>"

lemma list_json_ok: "config_json (list_json content)"
  by (auto simp: config_json_def list_json_def umap_contains_def)

definition demo_config :: json where
  "demo_config = JObject [(''redis_port'', JNumber 1), (''max_rooms'', JNumber 5)]"

theorem environment_overrides_file_witness:
  "\<exists>d. Config_new (list_json demo_config) [''c'' \<mapsto> ''{..}''] [''REDIS_PORT'' \<mapsto> ''70000''] ''c'' = Inr d \<and>
     redisPort (list_json demo_config) d = Inr 4464"
proof -
  have content: "[''c'' \<mapsto> ''{..}''] ''c'' = Some ''{..}''" by simp
  have parsed: "cf_parse (list_json demo_config) ''{..}'' =
      Inr (JObject [(''redis_port'', JNumber 1), (''max_rooms'', JNumber 5)])"
    by (simp add: list_json_def demo_config_def)
  from environment_overrides_file [where files = "[''c'' \<mapsto> ''{..}'']" and path = "''c''" and
      getenv = "[''REDIS_PORT'' \<mapsto> ''70000'']", OF list_json_ok content parsed]
  obtain d where d: "Config_new (list_json demo_config) [''c'' \<mapsto> ''{..}''] [''REDIS_PORT'' \<mapsto> ''70000''] ''c'' = Inr d"
    and port: "\<forall>v n. [''REDIS_PORT'' \<mapsto> ''70000''] ''REDIS_PORT'' = Some v \<longrightarrow> stoi v = Inr n \<longrightarrow>
      redisPort (list_json demo_config) d = Inr (of_int n)"
    by (elim exE conjE) (rule that)
  have "stoi ''70000'' = Inr 70000" by code_simp
  with port have "redisPort (list_json demo_config) d = Inr (of_int 70000)" by simp
  with d show ?thesis by simp
qed

end
