(* ===== verification/Settings.thy ===== *)
theory Settings
  imports Config RoomProcess ChatProcess
begin

text \<open>
  The configuration part of the two \<open>main\<close> functions: the defaults, the assignments from the
  configuration inside one \<open>try\<close>, and the environments the servers run in.
\<close>

section \<open>Assignments inside a try\<close>

text \<open>Each assignment may throw; the first that does ends the block, and what was assigned before
  stays.\<close>

fun try_assignments :: "('s \<Rightarrow> exn + 's) list \<Rightarrow> 's \<Rightarrow> 's" where
  "try_assignments [] st = st"
| "try_assignments (f # fs) st = (case f st of Inl _ \<Rightarrow> st | Inr st' \<Rightarrow> try_assignments fs st')"

definition assign :: "exn + 'a \<Rightarrow> ('a \<Rightarrow> 's \<Rightarrow> 's) \<Rightarrow> 's \<Rightarrow> exn + 's" where
  "assign v upd st = ebind v (\<lambda>x. Inr (upd x st))"

definition config_path :: "string list \<Rightarrow> string" where
  "config_path argv = (if 1 < length argv then argv ! 1 else ''config/server_config.json'')"

section \<open>Redis connection options\<close>

record connection_options =
  co_host :: string
  co_port :: int
  co_password :: string

definition makeOptions :: "string \<Rightarrow> u16 \<Rightarrow> string \<Rightarrow> connection_options" where
  "makeOptions host port password =
     (let opts = \<lparr>co_host = host, co_port = uint port, co_password = []\<rparr>
      in if password \<noteq> [] then opts\<lparr>co_password := password\<rparr> else opts)"

section \<open>The room server\<close>

record room_settings =
  rs_room_port :: u16
  rs_internal_port :: u16
  rs_max_rooms :: u32
  rs_max_players_per_room :: u32
  rs_redis_host :: string
  rs_redis_port :: u16
  rs_redis_password :: string
  rs_token_ttl_seconds :: u32
  rs_heartbeat_timeout_seconds :: u32
  rs_game_server_heartbeat_ttl_seconds :: u32
  rs_rate_limit_max :: u32
  rs_rate_limit_window_seconds :: u32
  rs_game_server_host :: string
  rs_game_server_port :: u16
  rs_chat_server_host :: string
  rs_chat_server_port :: u16

definition room_defaults :: room_settings where
  "room_defaults = \<lparr>rs_room_port = 8080, rs_internal_port = 8081, rs_max_rooms = 100,
     rs_max_players_per_room = 8, rs_redis_host = ''127.0.0.1'', rs_redis_port = 6379, rs_redis_password = [],
     rs_token_ttl_seconds = 60, rs_heartbeat_timeout_seconds = 30, rs_game_server_heartbeat_ttl_seconds = 90,
     rs_rate_limit_max = 20, rs_rate_limit_window_seconds = 10, rs_game_server_host = ''127.0.0.1'',
     rs_game_server_port = 7979, rs_chat_server_host = ''127.0.0.1'', rs_chat_server_port = 8083\<rparr>"

definition room_assignments :: "config_api \<Rightarrow> json \<Rightarrow> (room_settings \<Rightarrow> exn + room_settings) list" where
  "room_assignments J config =
     [assign (roomPort J config) (\<lambda>v st. st\<lparr>rs_room_port := v\<rparr>),
      assign (internalPort J config) (\<lambda>v st. st\<lparr>rs_internal_port := v\<rparr>),
      assign (maxRooms J config) (\<lambda>v st. st\<lparr>rs_max_rooms := v\<rparr>),
      assign (maxPlayersPerRoom J config) (\<lambda>v st. st\<lparr>rs_max_players_per_room := v\<rparr>),
      assign (redisHost J config) (\<lambda>v st. st\<lparr>rs_redis_host := v\<rparr>),
      assign (redisPort J config) (\<lambda>v st. st\<lparr>rs_redis_port := v\<rparr>),
      assign (redisPassword J config) (\<lambda>v st. st\<lparr>rs_redis_password := v\<rparr>),
      assign (tokenTtlSeconds J config) (\<lambda>v st. st\<lparr>rs_token_ttl_seconds := v\<rparr>),
      assign (heartbeatTimeoutSeconds J config) (\<lambda>v st. st\<lparr>rs_heartbeat_timeout_seconds := v\<rparr>),
      assign (gameServerHeartbeatTtlSeconds J config) (\<lambda>v st. st\<lparr>rs_game_server_heartbeat_ttl_seconds := v\<rparr>),
      assign (rateLimitMax J config) (\<lambda>v st. st\<lparr>rs_rate_limit_max := v\<rparr>),
      assign (rateLimitWindowSeconds J config) (\<lambda>v st. st\<lparr>rs_rate_limit_window_seconds := v\<rparr>),
      assign (gameServerHost J config) (\<lambda>v st. st\<lparr>rs_game_server_host := v\<rparr>),
      assign (gameServerPort J config) (\<lambda>v st. st\<lparr>rs_game_server_port := v\<rparr>),
      assign (chatServerHost J config) (\<lambda>v st. st\<lparr>rs_chat_server_host := v\<rparr>),
      assign (chatServerPort J config) (\<lambda>v st. st\<lparr>rs_chat_server_port := v\<rparr>)]"

definition room_configure ::
  "config_api \<Rightarrow> (string \<Rightarrow> string option) \<Rightarrow> (string \<Rightarrow> string option) \<Rightarrow> string list \<Rightarrow> room_settings" where
  "room_configure J files getenv argv =
     (case Config_new J files getenv (config_path argv) of
        Inl _ \<Rightarrow> room_defaults
      | Inr config \<Rightarrow> try_assignments (room_assignments J config) room_defaults)"

text \<open>The environment \<open>main\<close> builds; \<open>connect\<close> is \<open>sw::redis::Redis\<close>, \<open>K\<close> the JSON functions the
  token store uses, \<open>P\<close> and \<open>Q\<close> the generated message classes.\<close>

definition room_environment ::
  "(connection_options \<Rightarrow> 'r redis_api) \<Rightarrow> json_api \<Rightarrow> envelope proto \<Rightarrow> chat_envelope proto \<Rightarrow>
   room_settings \<Rightarrow> 'r room_env" where
  "room_environment connect K P Q st =
     (let redis = connect (makeOptions (rs_redis_host st) (rs_redis_port st) (rs_redis_password st));
          session_store = SessionStore_new redis K (uint (rs_token_ttl_seconds st))
                            (uint (rs_game_server_heartbeat_ttl_seconds st));
          rate_limiter = RateLimiter_new redis (rs_rate_limit_max st)
                           (uint (rs_rate_limit_window_seconds st)) ''rate:''
      in \<lparr>e_max_rooms = rs_max_rooms st, e_max_players_per_room = rs_max_players_per_room st,
          e_session_store = Some session_store, e_game_server_host = rs_game_server_host st,
          e_game_server_port = rs_game_server_port st, e_chat_channel = True,
          e_rate_limiter = Some rate_limiter, e_heartbeat_timeout = uint (rs_heartbeat_timeout_seconds st),
          e_room_proto = P, e_chat_proto = Q\<rparr>)"

section \<open>The chat server\<close>

record chat_settings =
  hs_chat_port :: u16
  hs_internal_port :: u16
  hs_redis_host :: string
  hs_redis_port :: u16
  hs_redis_password :: string
  hs_heartbeat_timeout_seconds :: u32
  hs_rate_limit_max :: u32
  hs_rate_limit_window_seconds :: u32
  hs_max_message_length :: u32
  hs_history_size :: u32
  hs_session_ttl_seconds :: u32

definition chat_defaults :: chat_settings where
  "chat_defaults = \<lparr>hs_chat_port = 8082, hs_internal_port = 8083, hs_redis_host = ''127.0.0.1'',
     hs_redis_port = 6379, hs_redis_password = [], hs_heartbeat_timeout_seconds = 90, hs_rate_limit_max = 10,
     hs_rate_limit_window_seconds = 5, hs_max_message_length = 200, hs_history_size = 20,
     hs_session_ttl_seconds = 7200\<rparr>"

definition chat_assignments :: "config_api \<Rightarrow> json \<Rightarrow> (chat_settings \<Rightarrow> exn + chat_settings) list" where
  "chat_assignments J config =
     [assign (chatPort J config) (\<lambda>v st. st\<lparr>hs_chat_port := v\<rparr>),
      assign (chatInternalPort J config) (\<lambda>v st. st\<lparr>hs_internal_port := v\<rparr>),
      assign (redisHost J config) (\<lambda>v st. st\<lparr>hs_redis_host := v\<rparr>),
      assign (redisPort J config) (\<lambda>v st. st\<lparr>hs_redis_port := v\<rparr>),
      assign (redisPassword J config) (\<lambda>v st. st\<lparr>hs_redis_password := v\<rparr>),
      assign (chatHeartbeatTimeoutSeconds J config) (\<lambda>v st. st\<lparr>hs_heartbeat_timeout_seconds := v\<rparr>),
      assign (chatRateLimitMax J config) (\<lambda>v st. st\<lparr>hs_rate_limit_max := v\<rparr>),
      assign (chatRateLimitWindowSeconds J config) (\<lambda>v st. st\<lparr>hs_rate_limit_window_seconds := v\<rparr>),
      assign (chatMaxMessageLength J config) (\<lambda>v st. st\<lparr>hs_max_message_length := v\<rparr>),
      assign (chatHistorySize J config) (\<lambda>v st. st\<lparr>hs_history_size := v\<rparr>),
      assign (chatSessionTtlSeconds J config) (\<lambda>v st. st\<lparr>hs_session_ttl_seconds := v\<rparr>)]"

definition chat_configure ::
  "config_api \<Rightarrow> (string \<Rightarrow> string option) \<Rightarrow> (string \<Rightarrow> string option) \<Rightarrow> string list \<Rightarrow> chat_settings" where
  "chat_configure J files getenv argv =
     (case Config_new J files getenv (config_path argv) of
        Inl _ \<Rightarrow> chat_defaults
      | Inr config \<Rightarrow> try_assignments (chat_assignments J config) chat_defaults)"

definition chat_environment ::
  "(connection_options \<Rightarrow> 'r redis_api) \<Rightarrow> chat_envelope proto \<Rightarrow> (chat_receive \<Rightarrow> string) \<Rightarrow>
   (string \<Rightarrow> chat_receive option) \<Rightarrow> chat_settings \<Rightarrow> 'r chat_env" where
  "chat_environment connect P ser par st =
     (let redis = connect (makeOptions (hs_redis_host st) (hs_redis_port st) (hs_redis_password st))
      in \<lparr>ce_max_message_length = hs_max_message_length st, ce_history_size = hs_history_size st,
          ce_session_ttl = uint (hs_session_ttl_seconds st), ce_redis = Some redis,
          ce_rate_limiter = Some (RateLimiter_new redis (hs_rate_limit_max st)
            (uint (hs_rate_limit_window_seconds st)) ''chat:rate:''),
          ce_heartbeat_timeout = uint (hs_heartbeat_timeout_seconds st), ce_proto = P,
          ce_SerializeAsString = ser, ce_ParseFromString = par\<rparr>)"

section \<open>What the settings are\<close>

text \<open>The getters the two servers call.\<close>

definition room_values :: "config_api \<Rightarrow> json \<Rightarrow> room_settings \<Rightarrow> bool" where
  "room_values J d st \<longleftrightarrow>
     roomPort J d = Inr (rs_room_port st) \<and> internalPort J d = Inr (rs_internal_port st) \<and>
     maxRooms J d = Inr (rs_max_rooms st) \<and> maxPlayersPerRoom J d = Inr (rs_max_players_per_room st) \<and>
     redisHost J d = Inr (rs_redis_host st) \<and> redisPort J d = Inr (rs_redis_port st) \<and>
     redisPassword J d = Inr (rs_redis_password st) \<and> tokenTtlSeconds J d = Inr (rs_token_ttl_seconds st) \<and>
     heartbeatTimeoutSeconds J d = Inr (rs_heartbeat_timeout_seconds st) \<and>
     gameServerHeartbeatTtlSeconds J d = Inr (rs_game_server_heartbeat_ttl_seconds st) \<and>
     rateLimitMax J d = Inr (rs_rate_limit_max st) \<and>
     rateLimitWindowSeconds J d = Inr (rs_rate_limit_window_seconds st) \<and>
     gameServerHost J d = Inr (rs_game_server_host st) \<and> gameServerPort J d = Inr (rs_game_server_port st) \<and>
     chatServerHost J d = Inr (rs_chat_server_host st) \<and> chatServerPort J d = Inr (rs_chat_server_port st)"

definition chat_values :: "config_api \<Rightarrow> json \<Rightarrow> chat_settings \<Rightarrow> bool" where
  "chat_values J d st \<longleftrightarrow>
     chatPort J d = Inr (hs_chat_port st) \<and> chatInternalPort J d = Inr (hs_internal_port st) \<and>
     redisHost J d = Inr (hs_redis_host st) \<and> redisPort J d = Inr (hs_redis_port st) \<and>
     redisPassword J d = Inr (hs_redis_password st) \<and>
     chatHeartbeatTimeoutSeconds J d = Inr (hs_heartbeat_timeout_seconds st) \<and>
     chatRateLimitMax J d = Inr (hs_rate_limit_max st) \<and>
     chatRateLimitWindowSeconds J d = Inr (hs_rate_limit_window_seconds st) \<and>
     chatMaxMessageLength J d = Inr (hs_max_message_length st) \<and> chatHistorySize J d = Inr (hs_history_size st) \<and>
     chatSessionTtlSeconds J d = Inr (hs_session_ttl_seconds st)"

lemma room_assigned: "room_values J d st \<Longrightarrow> try_assignments (room_assignments J d) st0 = st"
  by (simp add: room_values_def room_assignments_def assign_def ebind_def)

lemma chat_assigned: "chat_values J d st \<Longrightarrow> try_assignments (chat_assignments J d) st0 = st"
  by (simp add: chat_values_def chat_assignments_def assign_def ebind_def)

text \<open>C28. If every value in the configuration has its type, both servers run with exactly the values
  the getters return. In particular the two copies of the defaults agree: a configuration that
  has none of the keys gives the same settings as a missing file.\<close>

theorem settings_follow_configuration:
  assumes "Config_new J files getenv (config_path argv) = Inr d"
  shows "(\<forall>st. room_values J d st \<longrightarrow> room_configure J files getenv argv = st) \<and>
    (\<forall>st. chat_values J d st \<longrightarrow> chat_configure J files getenv argv = st) \<and>
    ((\<forall>key. \<not> cf_contains J d key) \<longrightarrow>
       room_configure J files getenv argv = room_defaults \<and> chat_configure J files getenv argv = chat_defaults)"
proof -
  have "room_values J d room_defaults \<and> chat_values J d chat_defaults" if "\<forall>key. \<not> cf_contains J d key"
    using that by (simp add: room_values_def chat_values_def room_defaults_def chat_defaults_def
        config_getters Config_get_def)
  with assms show ?thesis
    by (simp add: room_configure_def chat_configure_def room_assigned chat_assigned)
qed

theorem settings_follow_configuration_witness:
  "room_configure (list_json (JObject [])) [''config/server_config.json'' \<mapsto> ''{}''] Map.empty [''room''] = room_defaults"
proof -
  have "Config_new (list_json (JObject [])) [''config/server_config.json'' \<mapsto> ''{}''] Map.empty
      (config_path [''room'']) = Inr (JObject [])"
    by (simp add: Config_new_def config_path_def list_json_def env_string_def env_int_def ebind_def)
  from settings_follow_configuration [OF this] show ?thesis
    by (simp add: list_json_def umap_contains_def)
qed

text \<open>Without a file the environment is ignored: the constructor throws before it looks at the
  variables, and \<open>main\<close> falls back to its defaults. A container that sets \<open>REDIS_HOST\<close> but has no
  configuration file connects to the local host.\<close>

theorem missing_file_ignores_environment:
  "room_configure J Map.empty getenv argv = room_defaults \<and> chat_configure J Map.empty getenv argv = chat_defaults"
  by (simp add: room_configure_def chat_configure_def Config_new_def)

text \<open>One value of the wrong type silently discards everything after it: the settings read before
  it stay, the rest are the defaults, although the message is that the file was not found. Here
  the second value is a string.\<close>

theorem mistyped_value_discards_the_rest:
  "room_configure (list_json (JObject [(''room_port'', JNumber 9000), (''internal_port'', JString ''9001''),
      (''redis_host'', JString ''redis'')])) [''config/server_config.json'' \<mapsto> ''{..}''] Map.empty [''room''] =
   room_defaults\<lparr>rs_room_port := 9000\<rparr>"
  by (simp add: room_configure_def Config_new_def config_path_def list_json_def env_string_def env_int_def
      ebind_def room_assignments_def assign_def config_getters Config_get_def umap_contains_def room_defaults_def)

end
