(* ===== verification/Spec2Isabelle.thy ===== *)
theory Spec2Isabelle
  imports RoomProperties RoomLobby RoomScenarios RoomSpecProperties RoomWrites ChatProperties ChatWrites
    ChatScenarios GameEnd TokenSafety Settings
begin

text \<open>
  A verification development for the SOS backend, two C++ servers for a multiplayer game
  (\<open>src/src\<close>): the \<^emph>\<open>room server\<close>, where players meet in rooms and start games, and the
  \<^emph>\<open>chat server\<close>. Both are single-threaded \<open>boost::asio\<close> programs: acceptors, sessions and timers
  run their completion handlers one at a time on one \<open>io_context\<close>. A client speaks protobuf
  messages in length-prefixed frames to either server; the game server speaks to the room server on
  an internal port; the room server tells the chat server about game sessions over an internal
  link; both servers keep tokens, limits and chat history in Redis.

  \<^bold>\<open>How the program is modelled.\<close> A component's object is a record, its members are the fields, a
  method is a function on the state that holds the object (the manager together with the session
  objects that are alive, \<open>room_server\<close> and \<open>chat_server\<close>; a \<open>weak_ptr\<close> is the identifier of such an
  object). A method that starts an asynchronous operation records that it is outstanding; its
  completion handler is a function of its own. The step relations \<open>room_step\<close> and \<open>chat_step\<close> run any
  handler whose operation is outstanding, in any order, and let Redis and the clock change and the
  hash tables be rearranged between two handlers; \<open>room_reachable\<close> and \<open>chat_reachable\<close> are the states
  of their runs. The flag \<open>late\<close> says whether a handler that was already queued with success may run
  after its session was closed, which \<open>asio\<close> permits; theorems that need it excluded say so.
  Machine integers keep their width. Exceptions are the left side of a sum.

  \<^bold>\<open>Parameters.\<close> Code outside \<open>src/\<close> is an argument: protobuf (\<open>proto\<close>: serialise and parse), Redis
  (\<open>redis_api\<close>), nlohmann/json (\<open>json_api\<close>, \<open>config_api\<close>), the random words of the UUID generator
  (\<open>rng\<close>), the clock, the file system and the environment. What is relied on is a named predicate
  (\<open>frame_ok\<close>, \<open>redis_strings\<close>, \<open>redis_counters\<close>, \<open>redis_lists\<close>, \<open>creates_own_key\<close>, \<open>sadd_keeps_strings\<close>,
  \<open>token_json_ok\<close>, \<open>config_json\<close>, \<open>uuids_fresh\<close>: no UUID is drawn twice), satisfied by a concrete instance in
  the witnesses. Any Redis command may throw. Where a theorem needs commands to succeed, it assumes a set
  of server states in which the commands it names succeed on the keys it names (\<open>tokens_up\<close>: the token
  keys hold strings and the time to live is positive; \<open>history_works\<close>: the history key holds a list).

  \<^bold>\<open>Theories, in the order of the code.\<close>
  \<^item> \<open>Prelude\<close>: machine types, unordered maps and sets, folds.
  \<^item> \<open>Codec\<close> (\<open>common/protocol/Codec.h\<close> and the read loop of the sessions): framing; the round trip of
    a stream in any chunks, termination of the read loop, what malformed and oversized frames do.
    Its locales \<open>open_loop\<close> and \<open>message_loop\<close> say what a read loop keeps; every session class
    interprets one.
  \<^item> \<open>Uuid\<close>, \<open>Redis\<close>, \<open>SessionStore\<close>, \<open>RateLimiter\<close>, \<open>Config\<close> (\<open>common/\<close>): identifiers and when they are
    equal, the Redis client over its commands, one-time tokens, the request limit of a window,
    configuration with environment variables over it. \<open>RedisServer\<close>: a server in memory that behaves as the
    commands are documented (one keyspace, \<open>WRONGTYPE\<close>, \<open>EXPIRE\<close> on a missing key, refused times to
    live), on which the laws of \<open>Redis\<close> are proved and the witnesses run.
  \<^item> \<open>RoomProto\<close>, \<open>ChatProto\<close> (\<open>proto/\<close>): the messages.
  \<^item> \<open>WritePump\<close>: the contract of the write queues, a locale that \<open>ClientSession\<close>,
    \<open>GameServerSession\<close>, \<open>ChatServerChannel\<close> and \<open>ChatSession\<close> interpret: one write at a time, in order.
  \<^item> \<open>Room\<close>, \<open>RoomManager\<close>, \<open>RoomSessions\<close>, \<open>RoomProcess\<close> (\<open>room/\<close>): a room, the manager and all its
    handlers, the session classes with the manager they call, the process with its acceptors,
    start and shutdown. \<open>ChatServerChannel\<close> is the link to the chat server with its reconnects.
  \<^item> \<open>RoomInvariant\<close>, \<open>RoomHandlers\<close>, \<open>RoomSafety\<close>: rooms and player index agree, limits hold, at most
    one game runs; members of rooms have live sessions. \<open>RoomDelivery\<close>, \<open>RoomProperties\<close>,
    \<open>RoomLobby\<close>: who receives what, what a start hands out, the lobby broadcast and its timer, the
    pages of the room list. \<open>RoomRuns\<close>: executable runs and a small environment. \<open>RoomScenarios\<close>: how
    the server gets, from any state, where it should not be, and what follows.
  \<^item> \<open>RoomSpec\<close>: an abstract specification of the rooms (which room a player is in, who is ready, the
    host, the capacity and the game of a room) with seven commands. \<open>RoomRefinement\<close>: the
    abstraction of the manager's tables, and the command each handler carries out. \<open>RoomService\<close>: the
    contract \<open>room_service\<close> as a locale, interpreted on the handlers of the manager, on the messages of
    a client and on those of a game server; \<open>room_goes\<close>, the runs labelled with the commands of the
    messages and lost connections in them, and that they are runs of the specification.
    \<open>RoomSpecProperties\<close>: its properties, and that a client cannot throw out other players.
    \<open>RoomWrites\<close>: predicates that hold of every session of the room server
    (locale \<open>room_session_predicate\<close>), used for the write queues.
  \<^item> \<open>ChatSession\<close>, \<open>ChannelManager\<close>, \<open>ChatSessions\<close>, \<open>ChatProcess\<close> (\<open>chat/\<close>): the same for the chat
    server.
  \<^item> \<open>ChatInvariant\<close>: players, lobby and session channels agree. \<open>ChatSpec\<close>: an abstract specification
    (players with their session and connection, and the set of sessions) with four commands, the
    locale \<open>channel_service\<close> that a user of the manager relies on, and its interpretation on the
    handlers. \<open>ChatRefinement\<close>: the bytes of the sessions and the labelled runs (\<open>chat_goes\<close>) refine it. \<open>ChatDelivery\<close>:
    the frames every connection receives, and the history in Redis. \<open>ChatLogin\<close>, \<open>ChatWrites\<close>:
    logins, and predicates that hold of every session (locale \<open>chat_session_predicate\<close>).
    \<open>ChatRuns\<close>, \<open>ChatProperties\<close>, \<open>ChatScenarios\<close>: executable runs, properties, and how the server
    gets where it should not be.
  \<^item> \<open>Settings\<close>: the configuration part of both \<open>main\<close> functions and the environments they build.
  \<^item> \<open>RoomPredicate\<close>: the locale \<open>room_predicate\<close>, the primitive changes the handlers of the room server are
    made of; a predicate that survives each survives every run. Interpreted for the timer of the
    lobby and for used tokens.
  \<^item> \<open>GameEntry\<close>: the tokens in Redis as a ledger, from the start of a game to the answers its game
    server gets for the tokens the players present. \<open>TokenSafety\<close>: a token that was used is not
    accepted again in any continuation of a run.
  \<^item> \<open>GameEnd\<close>: from a lost game server to the lobby of the chat, across both servers, and the game
    whose host leaves. This theory: from a started game to its chat session.

  \<^bold>\<open>Bounds and fuel.\<close> No definition uses fuel: the read loop is a \<open>function\<close> whose buffer shrinks, all
  other loops are folds over containers. The concrete environments of the witnesses
  (\<open>demo_env\<close>, \<open>chat_demo_env\<close>) are small instances of the parameters; the theorems quantify over all.

  \<^bold>\<open>Assumptions on the room server's announcements.\<close> Some theorems about the chat server assume that no
  session is announced twice (\<open>h_created\<close>, a field of the model only, lists the announcements); the
  identifiers are UUIDs, and \<open>repeated_announcement_strands_player\<close> shows that the assumption is
  needed.

  \<^bold>\<open>Not modelled.\<close> Logging (\<open>common/util/Logger.cpp\<close> and every \<open>spdlog\<close> call), which has no effect on the
  state; \<open>remoteAddress\<close>, only logged; the bytes on the socket below a completed read or write; the
  effects of running out of memory; the unit tests. The socket of an acceptor or a session is the
  flag that it is open. The expiry of keys in Redis is part of the arbitrary changes between two
  handlers.
\<close>

section \<open>From the room server to the chat server\<close>

lemma chat_link_frame [simp]:
  "m_chat (session_send E e sid s) = m_chat s"
  "m_chat (with_store E f s) = m_chat s"
  "m_chat (notifyRoomListChanged s) = m_chat s"
  "m_chat (snd (issue_token E p i s)) = m_chat s"
  by (auto simp: session_send_def upd_client_def with_store_def notifyRoomListChanged_def issue_token_def
      next_uuid_def Let_def split: option.splits prod.splits sum.splits)

lemma chat_link_sendTo [simp]: "m_chat (sendTo E p e s) = m_chat s"
  by (simp add: sendTo_def split: option.split)

lemma chat_link_game_start [simp]: "m_chat (send_game_start E i p s) = m_chat s"
  by (simp add: send_game_start_token)

lemma start_announces:
  assumes "umap_find (m_player_to_room s) host = Some rid" and "umap_find (m_rooms s) rid = Some r"
    and "isHost host r" and "\<not> hasActiveGame s" and "canStart r" and "e_chat_channel E"
  shows "m_chat (handleStartGame E host s) = sendSessionCreated (e_chat_proto E) (fst (generateUuid (m_rng s)))
    (map (\<lambda>player. (pd_player_id player, pd_player_name player)) (r_players r)) (m_chat s)"
proof -
  have loop: "m_chat (fold (send_game_start E i) ps t) = m_chat t" for i ps t
    by (rule fold_frame) simp
  show ?thesis
    using assms by (simp add: handleStartGame_def next_uuid_def Let_def loop setSessionId_def setState_def
        case_prod_beta)
qed

text \<open>What a player's authentication for an existing session does.\<close>

lemma auth_joins:
  assumes "q \<noteq> []" and "name \<noteq> []" and "i \<noteq> []" and "umap_contains (h_session_channels s) i"
  shows "session_of (h_players (handleAuth E q i name sid s)) q = Some i"
proof -
  have "sp_players (chat_abs (handleAuth E q i name sid s)) q =
      Some \<lparr>sp_name = name, sp_session_id = i, sp_connection = sid\<rparr>"
    using assms by (simp add: abs_auth)
  then show ?thesis by (auto simp: session_of_def abs_player_def)
qed

text \<open>C10. A started game has its chat session: when the host starts the game and the link to the chat
  server is connected, one frame is queued on the link, after what is there already. When its
  bytes arrive at the chat server, whatever state that is in, every member of the room can join
  the channel of the session that its \<open>GameStart\<close> message names.\<close>

theorem started_game_opens_chat_session:
  assumes room: "umap_find (m_player_to_room s) host = Some rid" "umap_find (m_rooms s) rid = Some r"
      "isHost host r" "\<not> hasActiveGame s" "canStart r"
    and link: "e_chat_channel E" "cc_connected (m_chat s)" "e_chat_proto E = ce_proto C"
      "frame_ok (ce_proto C) (SessionCreated (fst (generateUuid (m_rng s)))
         (map (\<lambda>player. (pd_player_id player, pd_player_name player)) (r_players r)))"
    and chat: "h_internals cs iid = Some c" "in_buffer c = []"
  shows "\<exists>i frame. umap_find (m_rooms (handleStartGame E host s)) rid =
        Some (setSessionId i (setState ROOM_IN_GAME r)) \<and>
      cc_write_queue (m_chat (handleStartGame E host s)) = cc_write_queue (m_chat s) @ [frame] \<and>
      (\<forall>q \<in> set (playerIds r). \<forall>name sid. q \<noteq> [] \<longrightarrow> name \<noteq> [] \<longrightarrow>
         session_of (h_players (handleAuth C q i name sid (InternalSession_onRead C (Some frame) iid cs))) q = Some i)"
proof -
  let ?i = "fst (generateUuid (m_rng s))"
  let ?m = "SessionCreated ?i (map (\<lambda>player. (pd_player_id player, pd_player_name player)) (r_players r))"
  let ?frame = "encode (ce_proto C) ?m"
  have queue: "cc_write_queue (m_chat (handleStartGame E host s)) = cc_write_queue (m_chat s) @ [?frame]"
    using link(2,3) by (simp add: start_announces [OF room link(1)] sendSessionCreated_def cc_send_def
        cc_push_def cc_doWrite_def Let_def)
  have "m_rooms (handleStartGame E host s) = umap_put rid (setSessionId ?i (setState ROOM_IN_GAME r)) (m_rooms s)"
    by (rule start_accepted [OF room, of E]) simp
  then have in_game: "umap_find (m_rooms (handleStartGame E host s)) rid =
      Some (setSessionId ?i (setState ROOM_IN_GAME r))" by simp
  have ok: "\<forall>m \<in> set ([?m] @ []). frame_ok (ce_proto C) m" using link(4) by simp
  have "InternalSession_onRead C (Some ?frame) iid cs =
      internal_upd (\<lambda>c. InternalSession_doRead (c\<lparr>in_buffer := []\<rparr>)) iid
        (InternalSession_processMessage C ?m (internal_upd (\<lambda>c. c\<lparr>in_reading := False\<rparr>) iid cs))"
    using internal_read_frames [OF chat(1) _ ok, of ?frame "[]"] chat(2)
    by (simp add: frames_def partial_of_def)
  then have "chat_abs (InternalSession_onRead C (Some ?frame) iid cs) =
      spec_exec (Announce ?i) (chat_abs cs)"
    by (simp add: internal_upd_view InternalSession_processMessage_def abs_created del: spec_exec.simps)
  then have "?i \<in> sp_sessions (chat_abs (InternalSession_onRead C (Some ?frame) iid cs))" by simp
  then have "session_of (h_players (handleAuth C q ?i name sid (InternalSession_onRead C (Some ?frame) iid cs))) q = Some ?i"
    if "q \<noteq> []" "name \<noteq> []" for q name sid
    using auth_joins [OF that uuid_nonempty] by simp
  with queue in_game show ?thesis by blast
qed

definition announce_proto :: "chat_envelope proto" where
  "announce_proto = \<lparr>SerializeAsString = (\<lambda>_. [7]),
     ParseFromArray = (\<lambda>_. Some (SessionCreated demo_id1 [(''alice'', ''Alice'')]))\<rparr>"

definition demo_room_linked :: "mem room_server" where
  "demo_room_linked = (rp_server demo_created)\<lparr>m_chat := ChatServerChannel_new\<lparr>cc_connected := True\<rparr>\<rparr>"

theorem started_game_opens_chat_session_witness:
  "\<exists>i frame. cc_write_queue (m_chat (handleStartGame (demo_env\<lparr>e_chat_proto := announce_proto\<rparr>) ''alice'' demo_room_linked)) =
       [frame] \<and>
     session_of (h_players (handleAuth (chat_demo_env\<lparr>ce_proto := announce_proto\<rparr>) ''alice'' i ''Alice'' 5
       (InternalSession_onRead (chat_demo_env\<lparr>ce_proto := announce_proto\<rparr>) (Some frame) 0 (cp_server demo_linked)))) ''alice'' = Some i"
proof -
  let ?r = "Room_new demo_id0 ''room'' ''alice'' ''Alice'' 2"
  have link: "e_chat_channel (demo_env\<lparr>e_chat_proto := announce_proto\<rparr>)" "cc_connected (m_chat demo_room_linked)"
    "e_chat_proto (demo_env\<lparr>e_chat_proto := announce_proto\<rparr>) = ce_proto (chat_demo_env\<lparr>ce_proto := announce_proto\<rparr>)"
    by (simp_all add: demo_env_def demo_room_linked_def)
  have rng: "m_rng demo_room_linked = demo_rng 4" by (simp add: demo_room_linked_def demo_created_state)
  have frame: "frame_ok (ce_proto (chat_demo_env\<lparr>ce_proto := announce_proto\<rparr>))
      (SessionCreated (fst (generateUuid (m_rng demo_room_linked)))
        (map (\<lambda>player. (pd_player_id player, pd_player_name player)) (r_players ?r)))"
    by (simp add: rng demo_uuids frame_ok_def proto_ok_def announce_proto_def MAX_MESSAGE_SIZE_def Room_new_def)
  obtain c where c: "h_internals (cp_server demo_linked) 0 = Some c" "in_buffer c = []"
    by (simp add: demo_linked_def chat_demo_simps)
  have room: "umap_find (m_player_to_room demo_room_linked) ''alice'' = Some demo_id0"
    "umap_find (m_rooms demo_room_linked) demo_id0 = Some ?r" "\<not> hasActiveGame demo_room_linked"
    using demo_created_can_start(1,3) demo_created_room by (simp_all add: demo_room_linked_def hasActiveGame_def)
  have "''alice'' \<in> set (playerIds ?r)" by (simp add: Room_new_def playerIds_def)
  moreover have "cc_write_queue (m_chat demo_room_linked) = []"
    by (simp add: demo_room_linked_def ChatServerChannel_new_def)
  ultimately show ?thesis
    using started_game_opens_chat_session [OF room(1,2) demo_created_can_start(2) room(3) demo_created_can_start(4)
        link frame c] by fastforce
qed

end
